(* ===== verification/Floats.thy ===== *)
theory Floats
  imports Prelude Complex_Main "HOL-Library.Log_Nat"
begin

text \<open>
  IEEE 754 values as the daemon uses them (\<open>f32\<close> and \<open>f64\<close>). A finite value is a
  sign and a rational magnitude; every operation computes the exact result and rounds it
  to the target format with round-half-to-even, gradual underflow and overflow to
  infinity. NaN payloads are not observable by the modelled code and are not represented.
  The lemmas used by the components: rounding is monotone, keeps the binade of its
  argument, is exact at 1, and the conversion of an integer to \<open>f64\<close> is monotone.
\<close>

section \<open>Values\<close>

datatype ieee = NaN | Inf bool | Fin bool rat

type_synonym f32 = ieee
type_synonym f64 = ieee

fun is_finite :: "ieee \<Rightarrow> bool" where
  "is_finite (Fin s m) = True"
| "is_finite _ = False"

fun fval :: "ieee \<Rightarrow> rat" where
  "fval (Fin s m) = (if s then - m else m)"
| "fval _ = 0"

definition f_zero :: ieee where
  "f_zero = Fin False 0"

definition f_one :: ieee where
  "f_one = Fin False 1"

section \<open>Rounding\<close>

text \<open>The exponent of the leading binary digit of a positive rational.\<close>

definition rlog2 :: "rat \<Rightarrow> int" where
  "rlog2 q = (if 1 \<le> q then int (floorlog 2 (nat \<lfloor>q\<rfloor>)) - 1
              else - int (floorlog 2 (nat (\<lceil>1 / q\<rceil> - 1))))"

definition round_half_even :: "rat \<Rightarrow> int" where
  "round_half_even q =
     (let f = \<lfloor>q\<rfloor>; r = q - of_int f
      in if r < 1 / 2 then f else if r > 1 / 2 then f + 1 else if even f then f else f + 1)"

definition ulp_exp :: "nat \<Rightarrow> int \<Rightarrow> rat \<Rightarrow> int" where
  "ulp_exp p emin q = max (rlog2 q) emin - int p + 1"

definition round_mag :: "nat \<Rightarrow> int \<Rightarrow> rat \<Rightarrow> rat" where
  "round_mag p emin q =
     (if q \<le> 0 then 0
      else of_int (round_half_even (q / 2 powi (ulp_exp p emin q))) * 2 powi (ulp_exp p emin q))"

definition fl_round :: "nat \<Rightarrow> int \<Rightarrow> int \<Rightarrow> bool \<Rightarrow> rat \<Rightarrow> ieee" where
  "fl_round p emin emax s q =
     (let r = round_mag p emin q in if r \<ge> 2 powi (emax + 1) then Inf s else Fin s r)"

definition round_f64 :: "bool \<Rightarrow> rat \<Rightarrow> f64" where
  "round_f64 = fl_round 53 (- 1022) 1023"

definition round_f32 :: "bool \<Rightarrow> rat \<Rightarrow> f32" where
  "round_f32 = fl_round 24 (- 126) 127"

text \<open>A decimal literal of the source is the nearest representable value.\<close>

definition f64_lit :: "rat \<Rightarrow> f64" where
  "f64_lit q = round_f64 (q < 0) \<bar>q\<bar>"

definition f32_lit :: "rat \<Rightarrow> f32" where
  "f32_lit q = round_f32 (q < 0) \<bar>q\<bar>"

section \<open>Operations\<close>

definition u64_as_f64 :: "u64 \<Rightarrow> f64" where
  "u64_as_f64 w = round_f64 False (of_nat (unat w))"

definition u64_as_f32 :: "u64 \<Rightarrow> f32" where
  "u64_as_f32 w = round_f32 False (of_nat (unat w))"

fun f64_as_f32 :: "f64 \<Rightarrow> f32" where
  "f64_as_f32 (Fin s m) = round_f32 s m"
| "f64_as_f32 x = x"

fun f_abs :: "ieee \<Rightarrow> ieee" where
  "f_abs (Fin s m) = Fin False m"
| "f_abs (Inf s) = Inf False"
| "f_abs NaN = NaN"

fun f_div :: "(bool \<Rightarrow> rat \<Rightarrow> ieee) \<Rightarrow> ieee \<Rightarrow> ieee \<Rightarrow> ieee" where
  "f_div rnd (Fin s m) (Fin t n) =
     (if n = 0 then (if m = 0 then NaN else Inf (s \<noteq> t)) else rnd (s \<noteq> t) (m / n))"
| "f_div rnd (Fin s m) (Inf t) = Fin (s \<noteq> t) 0"
| "f_div rnd (Inf s) (Fin t n) = Inf (s \<noteq> t)"
| "f_div rnd _ _ = NaN"

fun f_sub :: "(bool \<Rightarrow> rat \<Rightarrow> ieee) \<Rightarrow> ieee \<Rightarrow> ieee \<Rightarrow> ieee" where
  "f_sub rnd (Fin s m) (Fin t n) =
     (let d = fval (Fin s m) - fval (Fin t n)
      in if d = 0 then Fin (s \<and> \<not> t \<and> m = 0 \<and> n = 0) 0 else rnd (d < 0) \<bar>d\<bar>)"
| "f_sub rnd (Fin s m) (Inf t) = Inf (\<not> t)"
| "f_sub rnd (Inf s) (Fin t n) = Inf s"
| "f_sub rnd (Inf s) (Inf t) = (if s = t then NaN else Inf s)"
| "f_sub rnd _ _ = NaN"

definition f64_div :: "f64 \<Rightarrow> f64 \<Rightarrow> f64" where
  "f64_div = f_div round_f64"

definition f32_div :: "f32 \<Rightarrow> f32 \<Rightarrow> f32" where
  "f32_div = f_div round_f32"

definition f32_sub :: "f32 \<Rightarrow> f32 \<Rightarrow> f32" where
  "f32_sub = f_sub round_f32"

fun f_lt :: "ieee \<Rightarrow> ieee \<Rightarrow> bool" where
  "f_lt (Fin s m) (Fin t n) = (fval (Fin s m) < fval (Fin t n))"
| "f_lt (Fin s m) (Inf t) = (\<not> t)"
| "f_lt (Inf s) (Fin t n) = s"
| "f_lt (Inf s) (Inf t) = (s \<and> \<not> t)"
| "f_lt _ _ = False"

fun f_le :: "ieee \<Rightarrow> ieee \<Rightarrow> bool" where
  "f_le (Fin s m) (Fin t n) = (fval (Fin s m) \<le> fval (Fin t n))"
| "f_le (Fin s m) (Inf t) = (\<not> t)"
| "f_le (Inf s) (Fin t n) = s"
| "f_le (Inf s) (Inf t) = (s \<or> \<not> t)"
| "f_le _ _ = False"

text \<open>\<open>f32::max\<close>: a NaN operand is ignored.\<close>

definition f_max :: "ieee \<Rightarrow> ieee \<Rightarrow> ieee" where
  "f_max a b = (if a = NaN then b else if b = NaN then a else if f_lt a b then b else a)"

section \<open>Order\<close>

lemma f_lt_imp_le: "f_lt a b \<Longrightarrow> f_le a b"
  by (cases a; cases b) auto

lemma f_le_lt_trans: "f_le a b \<Longrightarrow> f_lt b c \<Longrightarrow> f_lt a c"
  by (cases a; cases b; cases c) (auto split: if_splits)

lemma f_lt_le_trans: "f_lt a b \<Longrightarrow> f_le b c \<Longrightarrow> f_lt a c"
  by (cases a; cases b; cases c) (auto split: if_splits)

lemma f_le_trans: "f_le a b \<Longrightarrow> f_le b c \<Longrightarrow> f_le a c"
  by (cases a; cases b; cases c) (auto split: if_splits)

lemma f_not_lt: "a \<noteq> NaN \<Longrightarrow> b \<noteq> NaN \<Longrightarrow> \<not> f_lt a b \<longleftrightarrow> f_le b a"
  by (cases a; cases b) auto

lemma f_lt_not_le: "f_lt a b \<Longrightarrow> \<not> f_le b a"
  by (cases a; cases b) auto

section \<open>Correctness of rounding\<close>

lemma rlog2_lower:
  assumes "0 < q"
  shows "2 powi (rlog2 q) \<le> q"
proof (cases "1 \<le> q")
  case True
  define n where "n = nat \<lfloor>q\<rfloor>"
  from True have n: "n > 0" "of_nat n \<le> q" by (auto simp: n_def)
  have "2 ^ (floorlog 2 n - 1) \<le> n"
    using floorlog_bounds [of n 2] n by simp
  then have "(2 :: rat) ^ (floorlog 2 n - 1) \<le> of_nat n"
    by (metis of_nat_le_iff of_nat_numeral of_nat_power)
  moreover have "floorlog 2 n \<ge> 1" using n by (simp add: floorlog_def)
  moreover have "rlog2 q = int (floorlog 2 n - 1)"
    using True calculation(2) by (simp add: rlog2_def n_def)
  ultimately have "2 powi (rlog2 q) \<le> (of_nat n :: rat)"
    by (simp only: power_int_of_nat)
  with n show ?thesis by simp
next
  case False
  define n where "n = nat (\<lceil>1 / q\<rceil> - 1)"
  from False assms have "1 < 1 / q" by simp
  then have "of_int 1 < 1 / q" by simp
  then have "1 < \<lceil>1 / q\<rceil>" unfolding less_ceiling_iff .
  then have c: "\<lceil>1 / q\<rceil> = int n + 1" and "n > 0" unfolding n_def by linarith+
  then have n: "n > 0" "of_nat n + 1 = (of_int \<lceil>1 / q\<rceil> :: rat)" by simp_all
  have "n < 2 ^ floorlog 2 n"
    using floorlog_bounds [of n 2] n by simp
  then have "of_nat (n + 1) \<le> (2 :: rat) ^ floorlog 2 n"
    by (metis Suc_eq_plus1 Suc_leI of_nat_le_iff of_nat_numeral of_nat_power)
  then have "of_int \<lceil>1 / q\<rceil> \<le> (2 :: rat) ^ floorlog 2 n"
    unfolding n(2) [symmetric] by simp
  with le_of_int_ceiling [of "1 / q"] have "1 / q \<le> 2 ^ floorlog 2 n"
    by (rule order_trans)
  then have "1 / 2 ^ floorlog 2 n \<le> q"
    using assms by (simp add: field_simps)
  moreover have "rlog2 q = - int (floorlog 2 n)"
    using False by (simp add: rlog2_def n_def)
  ultimately show ?thesis
    by (simp add: power_int_minus field_simps)
qed

lemma rlog2_upper:
  assumes "0 < q"
  shows "q < 2 powi (rlog2 q + 1)"
proof (cases "1 \<le> q")
  case True
  define n where "n = nat \<lfloor>q\<rfloor>"
  from True have n: "n > 0" "q < of_nat n + 1"
    using floor_correct [of q] by (auto simp: n_def)
  have "n < 2 ^ floorlog 2 n"
    using floorlog_bounds [of n 2] n by simp
  then have "of_nat (n + 1) \<le> (2 :: rat) ^ floorlog 2 n"
    by (metis Suc_eq_plus1 Suc_leI of_nat_le_iff of_nat_numeral of_nat_power)
  with n have "q < 2 ^ floorlog 2 n" by simp
  moreover have "rlog2 q + 1 = int (floorlog 2 n)"
    using True by (simp add: rlog2_def n_def)
  ultimately show ?thesis by simp
next
  case False
  define n where "n = nat (\<lceil>1 / q\<rceil> - 1)"
  from False assms have "1 < 1 / q" by simp
  then have "of_int 1 < 1 / q" by simp
  then have "1 < \<lceil>1 / q\<rceil>" unfolding less_ceiling_iff .
  then have c: "\<lceil>1 / q\<rceil> = int n + 1" and "n > 0" unfolding n_def by linarith+
  then have n: "n > 0" "(of_int \<lceil>1 / q\<rceil> :: rat) = of_nat n + 1" by simp_all
  have "2 ^ (floorlog 2 n - 1) \<le> n"
    using floorlog_bounds [of n 2] n by simp
  then have "(2 :: rat) ^ (floorlog 2 n - 1) \<le> of_nat n"
    by (metis of_nat_le_iff of_nat_numeral of_nat_power)
  moreover have "of_nat n < 1 / q"
    using ceiling_correct [of "1 / q"] n by simp
  ultimately have "(2 :: rat) ^ (floorlog 2 n - 1) < 1 / q" by (rule le_less_trans)
  then have "q < 1 / 2 ^ (floorlog 2 n - 1)"
    using assms by (simp add: field_simps)
  moreover have "floorlog 2 n \<ge> 1" using n by (simp add: floorlog_def)
  moreover have "rlog2 q + 1 = - int (floorlog 2 n - 1)"
    using False calculation(2) by (simp add: rlog2_def n_def)
  ultimately show ?thesis
    by (simp only: power_int_minus power_int_of_nat inverse_eq_divide)
qed

lemma rlog2_mono: "0 < q \<Longrightarrow> q \<le> q' \<Longrightarrow> rlog2 q \<le> rlog2 q'"
proof (rule ccontr)
  assume q: "0 < q" "q \<le> q'" and "\<not> rlog2 q \<le> rlog2 q'"
  then have "2 powi (rlog2 q' + 1) \<le> (2 :: rat) powi (rlog2 q)"
    by (intro power_int_increasing) auto
  with rlog2_upper [of q'] rlog2_lower [of q] q show False by simp
qed

lemma rlog2_le: "0 < q \<Longrightarrow> q \<le> 2 powi k \<Longrightarrow> rlog2 q \<le> k"
proof (rule ccontr)
  assume q: "0 < q" "q \<le> 2 powi k" and "\<not> rlog2 q \<le> k"
  then have "(2 :: rat) powi k < 2 powi (rlog2 q)"
    by (intro power_int_strict_increasing) auto
  with rlog2_lower [of q] q show False by simp
qed

lemma round_half_even_mono: "q \<le> q' \<Longrightarrow> round_half_even q \<le> round_half_even q'"
proof -
  assume q: "q \<le> q'"
  show ?thesis
  proof (cases "\<lfloor>q\<rfloor> = \<lfloor>q'\<rfloor>")
    case True
    with q show ?thesis by (auto simp: round_half_even_def Let_def)
  next
    case False
    with q have "\<lfloor>q\<rfloor> + 1 \<le> \<lfloor>q'\<rfloor>"
      by (metis add1_zle_eq floor_mono order_less_le)
    then show ?thesis by (auto simp: round_half_even_def Let_def)
  qed
qed

lemma round_half_even_int [simp]: "round_half_even (of_int i) = i"
  by (simp add: round_half_even_def)

lemma round_half_even_ge: "of_int i \<le> q \<Longrightarrow> i \<le> round_half_even q"
  using round_half_even_mono [of "of_int i" q] by simp

lemma round_half_even_le: "q \<le> of_int i \<Longrightarrow> round_half_even q \<le> i"
  using round_half_even_mono [of q "of_int i"] by simp

lemma round_mag_nonneg: "0 \<le> round_mag p emin q"
  using round_half_even_ge [of 0 "q / 2 powi (ulp_exp p emin q)"]
  by (auto simp: round_mag_def)

text \<open>A rounded magnitude stays between the powers of two that bound its argument.\<close>

lemma powi_nat_of_int: "0 \<le> i \<Longrightarrow> (2 :: rat) powi i = of_int (2 ^ nat i)"
  by (simp add: power_int_def)

lemma round_mag_ge_powi:
  assumes "2 powi k \<le> q" and k: "ulp_exp p emin q \<le> k"
  shows "2 powi k \<le> round_mag p emin q"
proof -
  let ?u = "ulp_exp p emin q"
  have q: "0 < q" using assms(1) by (rule less_le_trans [rotated]) simp
  have "(2 :: rat) powi (k - ?u) \<le> q / 2 powi ?u"
    using assms(1) by (simp add: power_int_diff divide_right_mono)
  then have "of_int (2 ^ nat (k - ?u)) \<le> q / 2 powi ?u"
    using powi_nat_of_int [of "k - ?u"] k by simp
  then have "2 ^ nat (k - ?u) \<le> round_half_even (q / 2 powi ?u)"
    by (rule round_half_even_ge)
  then have "(of_int (2 ^ nat (k - ?u)) :: rat) \<le> of_int (round_half_even (q / 2 powi ?u))"
    by (simp only: of_int_le_iff)
  then have "(2 :: rat) powi (k - ?u) \<le> of_int (round_half_even (q / 2 powi ?u))"
    using powi_nat_of_int [of "k - ?u"] k by simp
  then have "(2 :: rat) powi (k - ?u) * 2 powi ?u
      \<le> of_int (round_half_even (q / 2 powi ?u)) * 2 powi ?u"
    by (rule mult_right_mono) simp
  with q show ?thesis by (simp add: round_mag_def power_int_diff)
qed

lemma round_mag_le_powi:
  assumes "q \<le> 2 powi k" and k: "ulp_exp p emin q \<le> k"
  shows "round_mag p emin q \<le> 2 powi k"
proof (cases "q \<le> 0")
  case True
  then show ?thesis by (simp add: round_mag_def)
next
  case False
  let ?u = "ulp_exp p emin q"
  have "q / 2 powi ?u \<le> (2 :: rat) powi (k - ?u)"
    using assms(1) by (simp add: power_int_diff divide_right_mono)
  then have "q / 2 powi ?u \<le> of_int (2 ^ nat (k - ?u))"
    using powi_nat_of_int [of "k - ?u"] k by simp
  then have "round_half_even (q / 2 powi ?u) \<le> 2 ^ nat (k - ?u)"
    by (rule round_half_even_le)
  then have "(of_int (round_half_even (q / 2 powi ?u)) :: rat) \<le> of_int (2 ^ nat (k - ?u))"
    by (simp only: of_int_le_iff)
  then have "of_int (round_half_even (q / 2 powi ?u)) \<le> (2 :: rat) powi (k - ?u)"
    using powi_nat_of_int [of "k - ?u"] k by simp
  then have "of_int (round_half_even (q / 2 powi ?u)) * 2 powi ?u
      \<le> (2 :: rat) powi (k - ?u) * 2 powi ?u"
    by (rule mult_right_mono) simp
  with False show ?thesis by (simp add: round_mag_def power_int_diff)
qed

lemma round_mag_mono:
  assumes q: "q \<le> q'" and p: "1 \<le> p"
  shows "round_mag p emin q \<le> round_mag p emin q'"
proof (cases "q \<le> 0")
  case True
  then show ?thesis using round_mag_nonneg [of p emin q'] by (simp add: round_mag_def)
next
  case False
  then have pos: "0 < q" "0 < q'" using q by auto
  have le: "ulp_exp p emin q \<le> ulp_exp p emin q'"
    using rlog2_mono [OF pos(1) q] by (simp add: ulp_exp_def)
  show ?thesis
  proof (cases "ulp_exp p emin q = ulp_exp p emin q'")
    case True
    then show ?thesis
      using pos q round_half_even_mono [of "q / 2 powi (ulp_exp p emin q')" "q' / 2 powi (ulp_exp p emin q')"]
      by (simp add: round_mag_def divide_right_mono mult_right_mono)
  next
    case False
    let ?k = "rlog2 q'"
    from False le have lt: "max (rlog2 q) emin < ?k" and k: "ulp_exp p emin q' = ?k - int p + 1"
      by (auto simp: ulp_exp_def)
    have "q \<le> 2 powi (rlog2 q + 1)" using rlog2_upper [OF pos(1)] by simp
    also have "\<dots> \<le> 2 powi ?k" using lt by (intro power_int_increasing) auto
    finally have "round_mag p emin q \<le> 2 powi ?k"
      using lt p by (intro round_mag_le_powi) (auto simp: ulp_exp_def)
    also have "\<dots> \<le> round_mag p emin q'"
      using rlog2_lower [OF pos(2)] k p by (intro round_mag_ge_powi) auto
    finally show ?thesis .
  qed
qed

lemma rlog2_one [simp]: "rlog2 1 = 0"
  by (simp add: rlog2_def floorlog_def)

lemma round_mag_one [simp]: "1 \<le> p \<Longrightarrow> emin \<le> 0 \<Longrightarrow> round_mag p emin 1 = 1"
  using round_mag_ge_powi [of 0 1 p emin] round_mag_le_powi [of 1 0 p emin]
  by (auto simp: ulp_exp_def intro: antisym)

lemma round_f64_one [simp]: "round_f64 False 1 = f_one"
  by (simp add: round_f64_def fl_round_def f_one_def)

lemma round_f64_zero [simp]: "round_f64 s 0 = Fin s 0"
  by (simp add: round_f64_def fl_round_def round_mag_def)

lemma fl_round_mono:
  "q \<le> q' \<Longrightarrow> 1 \<le> p \<Longrightarrow> f_le (fl_round p emin emax False q) (fl_round p emin emax False q')"
  using round_mag_mono [of q q' p emin] by (auto simp: fl_round_def Let_def)

lemma u64_as_f64_zero [simp]: "u64_as_f64 0 = f_zero"
  by (simp add: u64_as_f64_def f_zero_def)

text \<open>A nonzero \<open>u64\<close> converts to a positive finite value.\<close>

lemma u64_as_f64_cases:
  obtains r where "u64_as_f64 w = Fin False r" and "0 \<le> r" and "w \<noteq> 0 \<Longrightarrow> 1 \<le> r"
proof -
  let ?q = "of_nat (unat w) :: rat"
  have lt: "?q \<le> 2 ^ 64"
    using unat_less64 [of w] of_nat_less_iff [of "unat w" "2 ^ 64", where ?'a = rat] by simp
  have "round_mag 53 (- 1022) ?q \<le> round_mag 53 (- 1022) (2 ^ 64)"
    using lt by (rule round_mag_mono) simp
  also have "\<dots> \<le> 2 powi 64"
    using rlog2_le [of "2 ^ 64" 64] by (intro round_mag_le_powi) (auto simp: ulp_exp_def)
  also have "\<dots> < 2 powi 1024"
    by (intro power_int_strict_increasing) auto
  finally have fin: "round_mag 53 (- 1022) ?q < 2 powi (1023 + 1)" by simp
  have "1 \<le> round_mag 53 (- 1022) ?q" if "w \<noteq> 0"
  proof -
    have "1 \<le> unat w" using that by (simp add: Suc_le_eq unat_gt_0)
    then have "1 \<le> ?q" by (metis of_nat_1 of_nat_le_iff)
    from round_mag_mono [OF this, of 53 "- 1022"] show ?thesis by simp
  qed
  with fin show ?thesis
    by (intro that [of "round_mag 53 (- 1022) ?q"])
      (auto simp: u64_as_f64_def round_f64_def fl_round_def round_mag_nonneg)
qed

text \<open>\<open>depth as f64 / capacity as f64\<close> is monotone in \<open>depth\<close>, 0 when the depth is 0 and
  exactly 1 when both are equal.\<close>

lemma f64_div_self:
  assumes "w \<noteq> 0"
  shows "f64_div (u64_as_f64 w) (u64_as_f64 w) = f_one"
proof -
  obtain r where "u64_as_f64 w = Fin False r" "w \<noteq> 0 \<Longrightarrow> 1 \<le> r"
    by (rule u64_as_f64_cases [of w]) blast
  with assms show ?thesis by (simp add: f64_div_def)
qed

lemma f64_div_zero:
  assumes "w \<noteq> 0"
  shows "f64_div f_zero (u64_as_f64 w) = f_zero"
proof -
  obtain r where "u64_as_f64 w = Fin False r" "w \<noteq> 0 \<Longrightarrow> 1 \<le> r"
    by (rule u64_as_f64_cases [of w]) blast
  with assms show ?thesis by (auto simp: f64_div_def f_zero_def)
qed

lemma f64_div_mono:
  assumes "d \<le> d'" and "w \<noteq> 0"
  shows "f_le (f64_div (u64_as_f64 d) (u64_as_f64 w)) (f64_div (u64_as_f64 d') (u64_as_f64 w))"
proof -
  obtain r where r: "u64_as_f64 w = Fin False r" "w \<noteq> 0 \<Longrightarrow> 1 \<le> r"
    by (rule u64_as_f64_cases [of w]) blast
  obtain a where a: "u64_as_f64 d = Fin False a" by (rule u64_as_f64_cases [of d]) blast
  obtain b where b: "u64_as_f64 d' = Fin False b" by (rule u64_as_f64_cases [of d']) blast
  have "f_le (u64_as_f64 d) (u64_as_f64 d')"
    using assms(1) unfolding u64_as_f64_def round_f64_def
    by (intro fl_round_mono of_nat_mono) (simp_all add: word_le_nat_alt)
  with a b have "a \<le> b" by simp
  with r assms(2) have "a / r \<le> b / r" by (intro divide_right_mono) auto
  with a b r assms(2) show ?thesis
    unfolding f64_div_def round_f64_def by (auto intro: fl_round_mono)
qed

text \<open>Evaluation of a rounded literal: its binade, its unit in the last place and the
  nearest multiple of that unit.\<close>

lemma powi_less_imp: "(2 :: rat) powi a < 2 powi b \<Longrightarrow> a < b"
  using power_int_increasing [of b a "2 :: rat"] by (cases "a < b") auto

lemma rlog2_eqI: "2 powi k \<le> q \<Longrightarrow> q < 2 powi (k + 1) \<Longrightarrow> rlog2 q = k"
proof -
  assume a: "2 powi k \<le> q" "q < 2 powi (k + 1)"
  have q: "0 < q" using a(1) by (rule less_le_trans [rotated]) simp
  have "(2 :: rat) powi (rlog2 q) < 2 powi (k + 1)"
    using rlog2_lower [OF q] a(2) by simp
  then have 1: "rlog2 q < k + 1" by (rule powi_less_imp)
  have "(2 :: rat) powi k < 2 powi (rlog2 q + 1)"
    using rlog2_upper [OF q] a(1) by simp
  then have "k < rlog2 q + 1" by (rule powi_less_imp)
  with 1 show ?thesis by simp
qed

lemma round_half_even_near:
  assumes "of_int i - 1 / 2 < q" "q < of_int i + 1 / 2"
  shows "round_half_even q = i"
proof (cases "of_int i \<le> q")
  case True
  then have "\<lfloor>q\<rfloor> = i" using assms by linarith
  then show ?thesis using assms by (simp add: round_half_even_def)
next
  case False
  then have "\<lfloor>q\<rfloor> = i - 1" using assms by linarith
  then show ?thesis using assms by (simp add: round_half_even_def)
qed

lemma round_mag_eqI:
  assumes "2 powi k \<le> q" "q < 2 powi (k + 1)" "u = max k emin - int p + 1"
    and "(of_int i - 1 / 2) * 2 powi u < q" "q < (of_int i + 1 / 2) * 2 powi u"
  shows "round_mag p emin q = of_int i * 2 powi u"
proof -
  have q: "0 < q" using assms(1) by (rule less_le_trans [rotated]) simp
  have u: "ulp_exp p emin q = u" using rlog2_eqI [OF assms(1,2)] assms(3) by (simp add: ulp_exp_def)
  have "round_half_even (q / 2 powi u) = i"
    using assms(4,5) by (intro round_half_even_near) (simp_all add: field_simps)
  with q u show ?thesis by (simp add: round_mag_def)
qed

lemma f64_lit_90: "f64_lit (9 / 10) = Fin False (8106479329266893 / 9007199254740992)"
  using round_mag_eqI [of "- 1" "9 / 10" "- 53" "- 1022" 53 8106479329266893]
  by (simp add: f64_lit_def round_f64_def fl_round_def power_int_def power_one_over)
lemma f64_lit_70: "f64_lit (7 / 10) = Fin False (3152519739159347 / 4503599627370496)"
  using round_mag_eqI [of "- 1" "7 / 10" "- 53" "- 1022" 53 6305039478318694]
  by (simp add: f64_lit_def round_f64_def fl_round_def power_int_def power_one_over)

end
