(* ===== verification/Packet.thy ===== *)
theory Packet
  imports Floats
begin

text \<open>
  The data that crosses component boundaries: \<open>IngressPacket\<close> and \<open>SpikeEvent\<close>
  (\<open>src/backend.rs\<close>) and the finite-input check of \<open>src/ingress/mod.rs\<close>.
\<close>

definition NEUROMODULATOR_COUNT :: usize where
  "NEUROMODULATOR_COUNT = 4"

record ingress_packet =
  ip_stimuli :: "f32 list"
  ip_modulators :: "f32 list option"
  ip_valid_mask :: "bool list option"
  ip_batch_id :: "u64 option"
  ip_timestamp_ns :: "u64 option"
  ip_session_id :: "string option"
  ip_rejected :: bool

definition packet_default :: ingress_packet where
  "packet_default =
     \<lparr> ip_stimuli = [], ip_modulators = None, ip_valid_mask = None, ip_batch_id = None,
       ip_timestamp_ns = None, ip_session_id = None, ip_rejected = False \<rparr>"

record spike_event =
  se_channel :: u16
  se_time :: u32
  se_strength :: f32

datatype non_finite_input = StimulusAt usize | ModulatorAt usize

fun non_finite_display :: "non_finite_input \<Rightarrow> string" where
  "non_finite_display (StimulusAt i) = ''non-finite stimulus at index '' @ show_nat i"
| "non_finite_display (ModulatorAt i) = ''non-finite modulator at index '' @ show_nat i"

definition first_non_finite :: "ingress_packet \<Rightarrow> non_finite_input option" where
  "first_non_finite p =
     (case position (\<lambda>v. \<not> is_finite v) (ip_stimuli p) of
        Some index \<Rightarrow> Some (StimulusAt index)
      | None \<Rightarrow>
          (case ip_modulators p of
             Some mods \<Rightarrow>
               (case position (\<lambda>v. \<not> is_finite v) mods of
                  Some index \<Rightarrow> Some (ModulatorAt index)
                | None \<Rightarrow> None)
           | None \<Rightarrow> None))"

text \<open>A packet whose every present value is finite.\<close>

definition finite_packet :: "ingress_packet \<Rightarrow> bool" where
  "finite_packet p \<longleftrightarrow>
     list_all is_finite (ip_stimuli p) \<and> option_all (list_all is_finite) (ip_modulators p)"

lemma position_finite_None:
  "position (\<lambda>v. \<not> is_finite v) vs = None \<longleftrightarrow> list_all is_finite vs"
  by (simp add: position_None_all)

lemma first_non_finite_None: "first_non_finite p = None \<longleftrightarrow> finite_packet p"
  by (cases "ip_modulators p")
    (auto simp: first_non_finite_def finite_packet_def position_finite_None [symmetric]
      split: option.splits)

lemma finite_packet_default [simp]: "finite_packet packet_default"
  by (simp add: finite_packet_def packet_default_def)

lemma finite_packet_mods_None:
  "finite_packet p \<Longrightarrow> finite_packet (p\<lparr>ip_modulators := None\<rparr>)"
  by (simp add: finite_packet_def)

text \<open>
  The finite-input gate reports the lowest offending index, stimuli before modulators,
  and reports nothing exactly when every value present is finite.
\<close>

theorem first_non_finite_spec:
  "(first_non_finite p = None \<longleftrightarrow> finite_packet p) \<and>
   (first_non_finite p = Some (StimulusAt i) \<longleftrightarrow>
      i < length (ip_stimuli p) \<and> \<not> is_finite (ip_stimuli p ! i) \<and>
      list_all is_finite (take i (ip_stimuli p))) \<and>
   (first_non_finite p = Some (ModulatorAt i) \<longleftrightarrow>
      list_all is_finite (ip_stimuli p) \<and>
      (case ip_modulators p of
         None \<Rightarrow> False
       | Some ms \<Rightarrow> i < length ms \<and> \<not> is_finite (ms ! i) \<and> list_all is_finite (take i ms)))"
proof (intro conjI)
  let ?bad = "\<lambda>v. \<not> is_finite v"
  show "first_non_finite p = None \<longleftrightarrow> finite_packet p" by (rule first_non_finite_None)
  have "first_non_finite p = Some (StimulusAt i) \<longleftrightarrow> position ?bad (ip_stimuli p) = Some i"
    by (auto simp: first_non_finite_def split: option.splits)
  then show "first_non_finite p = Some (StimulusAt i) \<longleftrightarrow>
      i < length (ip_stimuli p) \<and> \<not> is_finite (ip_stimuli p ! i) \<and>
      list_all is_finite (take i (ip_stimuli p))"
    by (simp add: position_Some_take)
  have "first_non_finite p = Some (ModulatorAt i) \<longleftrightarrow>
      position ?bad (ip_stimuli p) = None \<and>
      (case ip_modulators p of None \<Rightarrow> False | Some ms \<Rightarrow> position ?bad ms = Some i)"
    by (auto simp: first_non_finite_def split: option.splits)
  then show "first_non_finite p = Some (ModulatorAt i) \<longleftrightarrow>
      list_all is_finite (ip_stimuli p) \<and>
      (case ip_modulators p of
         None \<Rightarrow> False
       | Some ms \<Rightarrow> i < length ms \<and> \<not> is_finite (ms ! i) \<and> list_all is_finite (take i ms))"
    by (simp add: position_Some_take position_None_all cong: option.case_cong)
qed

end
