(* ===== verification/Ingress_Queue.thy ===== *)
theory Ingress_Queue
  imports Packet "HOL-Library.Sublist"
begin

text \<open>
  \<open>src/ingress/queue.rs\<close>: one bounded class queue with its overflow policy and metrics.
  Every method body runs under the queue's mutex, so each is one atomic operation here;
  \<open>wait_for_slot\<close> releases the mutex while it waits, so it is two operations (entering
  and leaving the wait) with arbitrary operations of other threads in between. A poisoned
  mutex is entered all the same in the source and leaves no trace in the state.
  \<open>tracing\<close> output is not part of the state; the rate limit that guards it
  (\<open>log_overflow\<close>) is modelled on its own.
\<close>

section \<open>Data\<close>

datatype message_class = Sensory | Reward | Control | Telemetry

datatype overflow_policy = BlockTimeout | Reject | DropOldest | Coalesce

datatype enqueue_outcome =
    Accepted usize
  | DroppedOldest usize
  | Coalesced usize
  | Rejected
  | Shutdown

fun outcome_accepted :: "enqueue_outcome \<Rightarrow> bool" where
  "outcome_accepted (Accepted _) = True"
| "outcome_accepted (DroppedOldest _) = True"
| "outcome_accepted (Coalesced _) = True"
| "outcome_accepted _ = False"

fun class_as_str :: "message_class \<Rightarrow> string" where
  "class_as_str Sensory = ''sensory''"
| "class_as_str Reward = ''reward''"
| "class_as_str Control = ''control''"
| "class_as_str Telemetry = ''telemetry''"

fun class_index :: "message_class \<Rightarrow> usize" where
  "class_index Sensory = 0"
| "class_index Reward = 1"
| "class_index Control = 2"
| "class_index Telemetry = 3"

fun policy_as_str :: "overflow_policy \<Rightarrow> string" where
  "policy_as_str BlockTimeout = ''block_timeout''"
| "policy_as_str Reject = ''reject''"
| "policy_as_str DropOldest = ''drop_oldest''"
| "policy_as_str Coalesce = ''coalesce''"

datatype wait_mode = HonorPolicy | Never

record queue_state =
  qs_items :: "ingress_packet list"
  qs_closed :: bool
  qs_accepted :: u64
  qs_rejected :: u64
  qs_dropped :: u64
  qs_coalesced :: u64
  qs_shutdown_refused :: u64
  qs_high_water_mark :: usize
  qs_producer_waits :: u64
  qs_producer_wait_ns :: u64

record bounded_queue =
  bq_capacity :: usize
  bq_max_payload_len :: usize
  bq_policy :: overflow_policy
  bq_block_timeout :: duration
  bq_class :: message_class
  bq_inner :: queue_state

record class_metrics =
  cm_accepted :: u64
  cm_rejected :: u64
  cm_dropped :: u64
  cm_coalesced :: u64
  cm_shutdown_refused :: u64
  cm_depth :: usize
  cm_high_water_mark :: usize
  cm_producer_waits :: u64
  cm_producer_wait_ns :: u64

definition lost_or_coalesced :: "class_metrics \<Rightarrow> u64" where
  "lost_or_coalesced c = cm_rejected c + cm_dropped c + cm_coalesced c"

section \<open>Operations\<close>

definition queue_new ::
  "message_class \<Rightarrow> usize \<Rightarrow> overflow_policy \<Rightarrow> duration \<Rightarrow> usize \<Rightarrow> bounded_queue" where
  "queue_new cls cap policy timeout max_len =
     \<lparr> bq_capacity = (case policy of Coalesce \<Rightarrow> 1 | _ \<Rightarrow> cap),
       bq_max_payload_len = max_len, bq_policy = policy, bq_block_timeout = timeout,
       bq_class = cls,
       bq_inner = \<lparr> qs_items = [], qs_closed = False, qs_accepted = 0, qs_rejected = 0,
         qs_dropped = 0, qs_coalesced = 0, qs_shutdown_refused = 0, qs_high_water_mark = 0,
         qs_producer_waits = 0, qs_producer_wait_ns = 0 \<rparr> \<rparr>"

definition payload_too_large :: "bounded_queue \<Rightarrow> ingress_packet \<Rightarrow> bool" where
  "payload_too_large q p =
     (let mods = (case ip_modulators p of None \<Rightarrow> 0 | Some ms \<Rightarrow> length ms)
      in length (ip_stimuli p) > bq_max_payload_len q \<or> mods > bq_max_payload_len q)"

definition refuse :: "queue_state \<Rightarrow> enqueue_outcome \<times> queue_state" where
  "refuse g = (Rejected, g\<lparr>qs_rejected := qs_rejected g + 1\<rparr>)"

definition refuse_shutdown :: "queue_state \<Rightarrow> enqueue_outcome \<times> queue_state" where
  "refuse_shutdown g = (Shutdown, g\<lparr>qs_shutdown_refused := qs_shutdown_refused g + 1\<rparr>)"

definition push_free :: "ingress_packet \<Rightarrow> queue_state \<Rightarrow> enqueue_outcome \<times> queue_state" where
  "push_free p g =
     (let g = g\<lparr>qs_items := qs_items g @ [p], qs_accepted := qs_accepted g + 1\<rparr>;
          depth = length (qs_items g);
          g = (if depth > qs_high_water_mark g then g\<lparr>qs_high_water_mark := depth\<rparr> else g)
      in (Accepted depth, g))"

definition push_coalesce :: "ingress_packet \<Rightarrow> queue_state \<Rightarrow> enqueue_outcome \<times> queue_state" where
  "push_coalesce p g =
     (if qs_items g = [] then push_free p g
      else let g = g\<lparr>qs_items := [p], qs_accepted := qs_accepted g + 1,
                     qs_coalesced := qs_coalesced g + 1\<rparr>;
               depth = length (qs_items g);
               g = (if depth > qs_high_water_mark g then g\<lparr>qs_high_water_mark := depth\<rparr> else g)
           in (Coalesced depth, g))"

definition drop_oldest_and_push ::
  "ingress_packet \<Rightarrow> queue_state \<Rightarrow> enqueue_outcome \<times> queue_state" where
  "drop_oldest_and_push p g =
     (let g = g\<lparr>qs_items := tl (qs_items g), qs_dropped := qs_dropped g + 1\<rparr>
      in case push_free p g of
           (Accepted depth, g') \<Rightarrow> (DroppedOldest depth, g')
         | other \<Rightarrow> other)"

text \<open>One turn of the loop in \<open>push\<close> up to the point where it would wait: \<open>None\<close> means the
  queue is full and the policy is \<open>block_timeout\<close>.\<close>

definition push_attempt ::
  "bounded_queue \<Rightarrow> ingress_packet \<Rightarrow> queue_state \<Rightarrow> (enqueue_outcome \<times> queue_state) option" where
  "push_attempt q p g =
     (if qs_closed g then Some (refuse_shutdown g)
      else if bq_policy q = Coalesce then Some (push_coalesce p g)
      else if length (qs_items g) < bq_capacity q then Some (push_free p g)
      else case bq_policy q of
             Reject \<Rightarrow> Some (refuse g)
           | DropOldest \<Rightarrow> Some (drop_oldest_and_push p g)
           | BlockTimeout \<Rightarrow> None
           | Coalesce \<Rightarrow> None)"

definition queue_refuse_closed :: "queue_state \<Rightarrow> enqueue_outcome \<times> queue_state" where
  "queue_refuse_closed g = refuse_shutdown g"

definition queue_pop :: "queue_state \<Rightarrow> ingress_packet option \<times> queue_state" where
  "queue_pop g =
     (case qs_items g of [] \<Rightarrow> (None, g) | p # ps \<Rightarrow> (Some p, g\<lparr>qs_items := ps\<rparr>))"

text \<open>The loop \<open>while let Some(p) = items.pop_front() { out.push(p) }\<close>.\<close>

fun drain_loop :: "ingress_packet list \<Rightarrow> ingress_packet list \<Rightarrow> ingress_packet list \<times> ingress_packet list"
where
  "drain_loop [] out = ([], out)"
| "drain_loop (p # ps) out = drain_loop ps (out @ [p])"

definition queue_drain_all :: "queue_state \<Rightarrow> ingress_packet list \<times> queue_state" where
  "queue_drain_all g =
     (if qs_items g = [] then ([], g)
      else case drain_loop (qs_items g) [] of (rest, out) \<Rightarrow> (out, g\<lparr>qs_items := rest\<rparr>))"

definition queue_shutdown :: "queue_state \<Rightarrow> queue_state" where
  "queue_shutdown g = g\<lparr>qs_closed := True\<rparr>"

definition queue_metrics :: "queue_state \<Rightarrow> class_metrics" where
  "queue_metrics g =
     \<lparr> cm_accepted = qs_accepted g, cm_rejected = qs_rejected g, cm_dropped = qs_dropped g,
       cm_coalesced = qs_coalesced g, cm_shutdown_refused = qs_shutdown_refused g,
       cm_depth = length (qs_items g), cm_high_water_mark = qs_high_water_mark g,
       cm_producer_waits = qs_producer_waits g, cm_producer_wait_ns = qs_producer_wait_ns g \<rparr>"

section \<open>Waiting for a slot\<close>

text \<open>
  One entry of \<open>wait_for_slot\<close> as the producer sees it: the clock when it computes the
  remaining time, what other threads did to the queue while it waited, the time it waited,
  and whether the wait timed out.
\<close>

record wake =
  wk_now :: instant
  wk_others :: "queue_state \<Rightarrow> queue_state"
  wk_elapsed_ns :: nat
  wk_timed_out :: bool

definition wait_enter :: "queue_state \<Rightarrow> queue_state" where
  "wait_enter g = g\<lparr>qs_producer_waits := qs_producer_waits g + 1\<rparr>"

definition wait_leave ::
  "bounded_queue \<Rightarrow> nat \<Rightarrow> bool \<Rightarrow> queue_state \<Rightarrow> (enqueue_outcome \<times> queue_state) + queue_state" where
  "wait_leave q elapsed timed_out g =
     (let g = g\<lparr>qs_producer_wait_ns := qs_producer_wait_ns g + of_nat elapsed\<rparr>
      in if qs_closed g then Inl (refuse_shutdown g)
         else if timed_out \<and> length (qs_items g) \<ge> bq_capacity q then Inl (refuse g)
         else Inr g)"

definition wait_for_slot ::
  "bounded_queue \<Rightarrow> instant option \<Rightarrow> wake \<Rightarrow> queue_state \<Rightarrow> (enqueue_outcome \<times> queue_state) + queue_state" where
  "wait_for_slot q deadline w g =
     (let remaining = (case deadline of Some d \<Rightarrow> d - wk_now w | None \<Rightarrow> 0)
      in if remaining = 0 then Inl (refuse g)
         else wait_leave q (wk_elapsed_ns w) (wk_timed_out w) (wk_others w (wait_enter g)))"

text \<open>The whole loop of \<open>push\<close>. \<open>None\<close>: the wakes given are used up and the producer
  still waits. Without a deadline the wait refuses at once and needs no wake.\<close>

fun push_loop ::
  "bounded_queue \<Rightarrow> ingress_packet \<Rightarrow> instant option \<Rightarrow> wake list \<Rightarrow> queue_state
     \<Rightarrow> (enqueue_outcome \<times> queue_state) option" where
  "push_loop q p deadline ws g =
     (case push_attempt q p g of
        Some r \<Rightarrow> Some r
      | None \<Rightarrow>
          (case deadline of
             None \<Rightarrow> Some (refuse g)
           | Some d \<Rightarrow>
               (case ws of
                  [] \<Rightarrow> None
                | w # ws' \<Rightarrow>
                    (case wait_for_slot q deadline w g of
                       Inl r \<Rightarrow> Some r
                     | Inr g' \<Rightarrow> push_loop q p deadline ws' g'))))"

declare push_loop.simps [simp del]

text \<open>\<open>instant_limit\<close> is the largest representable \<open>Instant\<close>: \<open>checked_add\<close> gives no
  deadline past it.\<close>

definition push_deadline :: "instant \<Rightarrow> bounded_queue \<Rightarrow> wait_mode \<Rightarrow> instant \<Rightarrow> instant option" where
  "push_deadline instant_limit q wait now =
     (case wait of
        Never \<Rightarrow> None
      | HonorPolicy \<Rightarrow>
          (if bq_block_timeout q = 0 then None
           else if now + bq_block_timeout q \<le> instant_limit then Some (now + bq_block_timeout q)
           else None))"

definition queue_push ::
  "instant \<Rightarrow> bounded_queue \<Rightarrow> ingress_packet \<Rightarrow> wait_mode \<Rightarrow> instant \<Rightarrow> wake list
     \<Rightarrow> (enqueue_outcome \<times> bounded_queue) option" where
  "queue_push instant_limit q p wait now ws =
     (let g = bq_inner q
      in if payload_too_large q p
         then (case (if qs_closed g then refuse_shutdown g else refuse g) of
                 (r, g') \<Rightarrow> Some (r, q\<lparr>bq_inner := g'\<rparr>))
         else map_option (\<lambda>(r, g'). (r, q\<lparr>bq_inner := g'\<rparr>))
                (push_loop q p (push_deadline instant_limit q wait now) ws g))"

section \<open>Overflow log rate limit\<close>

text \<open>\<open>log_overflow\<close>: the value loaded from the class's \<open>LAST_NS\<close> slot, the slot's value at
  the compare-exchange (another thread may have changed it) and the wall clock in
  nanoseconds. Returns whether a warning is emitted and the slot's next value.\<close>

definition log_overflow :: "u64 \<Rightarrow> u64 \<Rightarrow> u64 \<Rightarrow> bool \<times> u64" where
  "log_overflow loaded current now =
     (if sat_sub now loaded < 1000000000 then (False, current)
      else if current \<noteq> loaded then (False, current)
      else (True, now))"

section \<open>Atomic operations and interleavings\<close>

text \<open>
  The critical sections of the mutex, one constructor each. A concurrent execution of any
  number of producers and consumers is a list of them, in the order in which the mutex was
  taken; \<open>queue_op_step\<close> runs one.
\<close>

datatype queue_op =
    OpPushTry ingress_packet
  | OpPushTooLarge
  | OpRefuseClosed
  | OpWaitEnter
  | OpWaitLeave nat bool
  | OpWaitExpired
  | OpPop
  | OpDrain
  | OpClose

fun queue_op_step :: "bounded_queue \<Rightarrow> queue_op \<Rightarrow> queue_state \<Rightarrow> queue_state" where
  "queue_op_step q (OpPushTry p) g =
     (if payload_too_large q p then g
      else case push_attempt q p g of Some (r, g') \<Rightarrow> g' | None \<Rightarrow> g)"
| "queue_op_step q OpPushTooLarge g = snd (if qs_closed g then refuse_shutdown g else refuse g)"
| "queue_op_step q OpRefuseClosed g = snd (queue_refuse_closed g)"
| "queue_op_step q OpWaitEnter g = wait_enter g"
| "queue_op_step q (OpWaitLeave e t) g =
     (case wait_leave q e t g of Inl (r, g') \<Rightarrow> g' | Inr g' \<Rightarrow> g')"
| "queue_op_step q OpWaitExpired g = snd (refuse g)"
| "queue_op_step q OpPop g = snd (queue_pop g)"
| "queue_op_step q OpDrain g = snd (queue_drain_all g)"
| "queue_op_step q OpClose g = queue_shutdown g"

text \<open>How many packets an operation hands to a consumer.\<close>

fun delivered :: "queue_op \<Rightarrow> queue_state \<Rightarrow> nat" where
  "delivered OpPop g = (if qs_items g = [] then 0 else 1)"
| "delivered OpDrain g = length (qs_items g)"
| "delivered _ g = 0"

fun delivered_run :: "bounded_queue \<Rightarrow> queue_op list \<Rightarrow> queue_state \<Rightarrow> nat" where
  "delivered_run q [] g = 0"
| "delivered_run q (x # xs) g = delivered x g + delivered_run q xs (queue_op_step q x g)"

definition queue_ok :: "bounded_queue \<Rightarrow> bool" where
  "queue_ok q \<longleftrightarrow> 1 \<le> bq_capacity q \<and> (bq_policy q = Coalesce \<longrightarrow> bq_capacity q = 1)"

definition queue_inv :: "bounded_queue \<Rightarrow> queue_state \<Rightarrow> bool" where
  "queue_inv q g \<longleftrightarrow>
     queue_ok q \<and> length (qs_items g) \<le> bq_capacity q \<and>
     length (qs_items g) \<le> qs_high_water_mark g \<and> qs_high_water_mark g \<le> bq_capacity q \<and>
     list_all (\<lambda>p. \<not> payload_too_large q p) (qs_items g)"

text \<open>Packets accepted and neither dropped, coalesced away nor still queued.\<close>

definition queue_flow :: "queue_state \<Rightarrow> u64" where
  "queue_flow g =
     qs_accepted g - qs_dropped g - qs_coalesced g - of_nat (length (qs_items g))"

section \<open>Lemmas\<close>

lemmas queue_defs =
  refuse_def refuse_shutdown_def push_free_def push_coalesce_def drop_oldest_and_push_def
  push_attempt_def queue_refuse_closed_def queue_pop_def queue_shutdown_def wait_enter_def
  wait_leave_def

lemma drain_loop_eq: "drain_loop ps out = ([], out @ ps)"
  by (induction ps arbitrary: out) auto

lemma queue_drain_all_eq: "queue_drain_all g = (qs_items g, g\<lparr>qs_items := []\<rparr>)"
  by (auto simp: queue_drain_all_def drain_loop_eq)

lemma queue_new_inv: "1 \<le> cap \<Longrightarrow> queue_inv (queue_new c cap pol t n) (bq_inner (queue_new c cap pol t n))"
  by (auto simp: queue_inv_def queue_ok_def queue_new_def split: overflow_policy.splits)

text \<open>What a push attempt does to the items, policy by policy.\<close>

lemma push_attempt_items:
  assumes "push_attempt q p g = Some (r, g')"
  shows "qs_items g' =
    (if outcome_accepted r
     then (case r of DroppedOldest _ \<Rightarrow> tl (qs_items g) | Coalesced _ \<Rightarrow> [] | _ \<Rightarrow> qs_items g) @ [p]
     else qs_items g)"
  using assms by (auto simp: queue_defs Let_def split: if_splits overflow_policy.splits)

lemma push_attempt_accepted:
  assumes "push_attempt q p g = Some (r, g')"
  shows "outcome_accepted r \<longleftrightarrow> \<not> qs_closed g \<and>
    (bq_policy q \<in> {Coalesce, DropOldest} \<or> length (qs_items g) < bq_capacity q)"
  using assms by (auto simp: queue_defs Let_def split: if_splits overflow_policy.splits)

lemma push_attempt_None:
  "push_attempt q p g = None \<longleftrightarrow>
     \<not> qs_closed g \<and> bq_policy q = BlockTimeout \<and> bq_capacity q \<le> length (qs_items g)"
  by (auto simp: push_attempt_def split: overflow_policy.splits)

lemma push_attempt_inv:
  assumes "queue_inv q g" and "\<not> payload_too_large q p" and "push_attempt q p g = Some (r, g')"
  shows "queue_inv q g'"
proof (cases "qs_closed g")
  case True
  with assms show ?thesis by (auto simp: push_attempt_def refuse_shutdown_def queue_inv_def)
next
  case False
  with assms show ?thesis
    by (cases "qs_items g")
      (auto simp: queue_defs queue_inv_def queue_ok_def Let_def
        split: if_splits overflow_policy.splits)
qed

lemma queue_op_step_inv: "queue_inv q g \<Longrightarrow> queue_inv q (queue_op_step q op g)"
proof (cases op)
  case (OpPushTry p)
  moreover assume "queue_inv q g"
  ultimately show ?thesis
    by (auto split: option.splits intro: push_attempt_inv)
next
  case OpPop
  moreover assume "queue_inv q g"
  ultimately show ?thesis
    by (cases "qs_items g") (auto simp: queue_pop_def queue_inv_def)
qed (auto simp: queue_defs queue_inv_def queue_drain_all_eq Let_def)

interpretation queue_sys: event_system "queue_op_step q" "queue_inv q" for q
  by unfold_locales (rule queue_op_step_inv)

lemma queue_op_step_closed: "qs_closed g \<Longrightarrow> qs_closed (queue_op_step q op g)"
  by (cases op) (auto simp: queue_defs queue_drain_all_eq Let_def split: list.splits)

interpretation queue_close: latched_system "queue_op_step q" qs_closed for q
  by unfold_locales (rule queue_op_step_closed)

lemma queue_op_step_flow:
  assumes "queue_inv q g"
  shows "queue_flow (queue_op_step q op g) = queue_flow g + of_nat (delivered op g)"
proof (cases op)
  case (OpPushTry p)
  with assms show ?thesis
    by (cases "qs_items g")
      (auto simp: queue_defs queue_flow_def queue_inv_def queue_ok_def Let_def
        split: overflow_policy.splits)
qed (auto simp: queue_defs queue_flow_def queue_drain_all_eq Let_def split: list.splits)

lemma queue_run_flow:
  assumes "queue_inv q g"
  shows "queue_flow (fold (queue_op_step q) xs g) = queue_flow g + of_nat (delivered_run q xs g)"
  using assms
proof (induction xs arbitrary: g)
  case Nil
  then show ?case by simp
next
  case (Cons x xs)
  from Cons.IH [OF queue_op_step_inv [OF Cons.prems, of x]] show ?case
    by (simp add: queue_op_step_flow [OF Cons.prems] add.assoc)
qed

section \<open>The push loop\<close>

lemma push_loop_no_deadline: "\<exists>r. push_loop q p None ws g = Some r"
  by (subst push_loop.simps) (simp split: option.splits)

text \<open>A wake at or after the deadline ends the loop, so a blocked producer returns once
  its timeout has passed.\<close>

lemma push_loop_returns:
  assumes "\<exists>w \<in> set ws. d \<le> wk_now w"
  shows "\<exists>r. push_loop q p (Some d) ws g = Some r"
  using assms
proof (induction ws arbitrary: g)
  case Nil
  then show ?case by simp
next
  case (Cons w ws)
  show ?case
  proof (cases "d \<le> wk_now w")
    case True
    then show ?thesis
      by (subst push_loop.simps) (simp add: wait_for_slot_def split: option.splits)
  next
    case False
    with Cons.prems have "\<exists>w \<in> set ws. d \<le> wk_now w" by simp
    with Cons.IH show ?thesis
      by (subst push_loop.simps) (simp split: option.splits sum.splits)
  qed
qed

text \<open>The loop keeps the queue invariant when the other threads do.\<close>

lemma queue_inv_frames [simp]:
  "queue_inv q (g\<lparr>qs_rejected := n\<rparr>) = queue_inv q g"
  "queue_inv q (g\<lparr>qs_shutdown_refused := n\<rparr>) = queue_inv q g"
  "queue_inv q (g\<lparr>qs_producer_waits := n\<rparr>) = queue_inv q g"
  "queue_inv q (g\<lparr>qs_producer_wait_ns := n\<rparr>) = queue_inv q g"
  "queue_inv q (g\<lparr>qs_closed := b\<rparr>) = queue_inv q g"
  "queue_inv (q\<lparr>bq_inner := g'\<rparr>) g = queue_inv q g"
  by (simp_all add: queue_inv_def queue_ok_def payload_too_large_def)

lemma wait_leave_inv:
  assumes "queue_inv q g"
  shows "wait_leave q e t g = Inl (r, g') \<Longrightarrow> queue_inv q g'"
    and "wait_leave q e t g = Inr g' \<Longrightarrow> queue_inv q g'"
  using assms
  by (auto simp: wait_leave_def refuse_def refuse_shutdown_def Let_def split: if_splits)

lemma wait_for_slot_inv:
  assumes "queue_inv q g" and "\<And>g. queue_inv q g \<Longrightarrow> queue_inv q (wk_others w g)"
  shows "wait_for_slot q dl w g = Inl (r, g') \<Longrightarrow> queue_inv q g'"
    and "wait_for_slot q dl w g = Inr g' \<Longrightarrow> queue_inv q g'"
proof -
  have w: "queue_inv q (wk_others w (wait_enter g))"
    by (rule assms(2)) (simp add: wait_enter_def assms(1))
  show "wait_for_slot q dl w g = Inl (r, g') \<Longrightarrow> queue_inv q g'"
    using wait_leave_inv(1) [OF w, of "wk_elapsed_ns w" "wk_timed_out w" r g'] assms(1)
    by (auto simp: wait_for_slot_def refuse_def Let_def split: if_splits)
  show "wait_for_slot q dl w g = Inr g' \<Longrightarrow> queue_inv q g'"
    using wait_leave_inv(2) [OF w, of "wk_elapsed_ns w" "wk_timed_out w" g']
    by (auto simp: wait_for_slot_def Let_def split: if_splits)
qed

lemma push_loop_unfold:
  "push_attempt q p g = Some r \<Longrightarrow> push_loop q p dl ws g = Some r"
  "push_attempt q p g = None \<Longrightarrow> push_loop q p None ws g = Some (refuse g)"
  "push_attempt q p g = None \<Longrightarrow> push_loop q p (Some d) [] g = None"
  "push_attempt q p g = None \<Longrightarrow> push_loop q p (Some d) (w # ws) g =
     (case wait_for_slot q (Some d) w g of Inl r' \<Rightarrow> Some r' | Inr g' \<Rightarrow> push_loop q p (Some d) ws g')"
  by (subst push_loop.simps, simp)+

text \<open>The ways a push can return, for inductions over the wakes it needed.\<close>

lemma push_loop_cases:
  assumes "push_loop q p dl ws g = Some (r, g')"
  obtains (now) "push_attempt q p g = Some (r, g')"
  | (refused) "(r, g') = refuse g"
  | (left) w ws' where "ws = w # ws'" "wait_for_slot q dl w g = Inl (r, g')"
  | (again) w ws' g1 where "ws = w # ws'" "wait_for_slot q dl w g = Inr g1"
      "push_loop q p dl ws' g1 = Some (r, g')"
proof (cases "push_attempt q p g")
  case (Some x)
  with assms now show thesis by (simp add: push_loop_unfold(1))
next
  case None
  note full = this
  show thesis
  proof (cases dl)
    case None
    with assms full refused show thesis by (simp add: push_loop_unfold(2))
  next
    case (Some d)
    with assms full obtain w ws' where ws: "ws = w # ws'"
      by (cases ws) (simp_all add: push_loop_unfold(3))
    show thesis
    proof (cases "wait_for_slot q dl w g")
      case (Inl a)
      with assms full Some ws left show thesis by (simp add: push_loop_unfold(4))
    next
      case (Inr b)
      with assms full Some ws again show thesis by (simp add: push_loop_unfold(4))
    qed
  qed
qed

lemma push_loop_inv:
  assumes "queue_inv q g" and "\<not> payload_too_large q p"
    and "\<forall>w \<in> set ws. \<forall>g. queue_inv q g \<longrightarrow> queue_inv q (wk_others w g)"
    and "push_loop q p dl ws g = Some (r, g')"
  shows "queue_inv q g'"
  using assms
proof (induction ws arbitrary: g)
  case Nil
  from Nil.prems(4) show ?case
  proof (cases rule: push_loop_cases)
    case now
    with Nil.prems(1,2) show ?thesis by (rule push_attempt_inv)
  next
    case refused
    with Nil.prems(1) show ?thesis by (simp add: refuse_def)
  qed simp_all
next
  case (Cons w ws)
  from Cons.prems(3) have w: "\<And>g. queue_inv q g \<Longrightarrow> queue_inv q (wk_others w g)"
    and ws: "\<forall>w \<in> set ws. \<forall>g. queue_inv q g \<longrightarrow> queue_inv q (wk_others w g)" by simp_all
  from Cons.prems(4) show ?case
  proof (cases rule: push_loop_cases)
    case now
    with Cons.prems(1,2) show ?thesis by (rule push_attempt_inv)
  next
    case refused
    with Cons.prems(1) show ?thesis by (simp add: refuse_def)
  next
    case left
    with wait_for_slot_inv(1) [OF Cons.prems(1) w, of dl r g'] show ?thesis by simp
  next
    case (again w' ws' g1)
    with wait_for_slot_inv(2) [OF Cons.prems(1) w, of dl g1] have "queue_inv q g1" by simp
    with again Cons.IH [OF _ Cons.prems(2) ws, of g1] show ?thesis by simp
  qed
qed

text \<open>An accepted packet is the newest item when the push returns, whatever happened
  during the waits.\<close>

lemma wait_for_slot_refuses: "wait_for_slot q dl w g = Inl (r, g') \<Longrightarrow> \<not> outcome_accepted r"
  by (auto simp: wait_for_slot_def wait_leave_def refuse_def refuse_shutdown_def Let_def
      split: if_splits)

lemma push_loop_accepted_last:
  assumes "push_loop q p dl ws g = Some (r, g')" and "outcome_accepted r"
  shows "\<exists>xs. qs_items g' = xs @ [p]"
  using assms
proof (induction ws arbitrary: g)
  case Nil
  from Nil.prems(1) show ?case
    by (cases rule: push_loop_cases)
      (use Nil.prems(2) in \<open>auto simp: refuse_def dest: push_attempt_items\<close>)
next
  case (Cons w ws)
  from Cons.prems(1) show ?case
    by (cases rule: push_loop_cases)
      (use Cons in \<open>auto simp: refuse_def dest: push_attempt_items wait_for_slot_refuses\<close>)
qed

text \<open>A producer that is waiting when the queue closes gets \<open>Shutdown\<close> at its next wake.\<close>

lemma push_loop_woken_closed:
  assumes "push_attempt q p g = None" and "wk_now w < d"
    and "qs_closed (wk_others w (wait_enter g))"
  shows "\<exists>g'. push_loop q p (Some d) (w # ws) g = Some (Shutdown, g') \<and>
    qs_items g' = qs_items (wk_others w (wait_enter g))"
  using assms
  by (simp add: push_loop_unfold(4) wait_for_slot_def wait_leave_def refuse_shutdown_def)

section \<open>The non-blocking push and the queue contract\<close>

definition queue_try_push ::
  "ingress_packet \<Rightarrow> bounded_queue \<Rightarrow> enqueue_outcome \<times> bounded_queue" where
  "queue_try_push p q =
     (case queue_push 0 q p Never 0 [] of Some r \<Rightarrow> r | None \<Rightarrow> (Rejected, q))"

lemma queue_push_never:
  "queue_push il q p Never now ws = Some (queue_try_push p q)"
  by (cases "push_attempt q p (bq_inner q)")
    (auto simp: queue_try_push_def queue_push_def push_deadline_def push_loop_unfold Let_def
      split: prod.splits)

definition qpop :: "bounded_queue \<Rightarrow> ingress_packet option \<times> bounded_queue" where
  "qpop q = (case queue_pop (bq_inner q) of (r, g) \<Rightarrow> (r, q\<lparr>bq_inner := g\<rparr>))"

definition qdrain :: "bounded_queue \<Rightarrow> ingress_packet list \<times> bounded_queue" where
  "qdrain q = (case queue_drain_all (bq_inner q) of (r, g) \<Rightarrow> (r, q\<lparr>bq_inner := g\<rparr>))"

definition qclose :: "bounded_queue \<Rightarrow> bounded_queue" where
  "qclose q = q\<lparr>bq_inner := queue_shutdown (bq_inner q)\<rparr>"

definition qrefuse_closed :: "bounded_queue \<Rightarrow> enqueue_outcome \<times> bounded_queue" where
  "qrefuse_closed q = (case queue_refuse_closed (bq_inner q) of (r, g) \<Rightarrow> (r, q\<lparr>bq_inner := g\<rparr>))"

definition qitems :: "bounded_queue \<Rightarrow> ingress_packet list" where
  "qitems q = qs_items (bq_inner q)"

definition qclosed :: "bounded_queue \<Rightarrow> bool" where
  "qclosed q = qs_closed (bq_inner q)"

definition qinv :: "bounded_queue \<Rightarrow> bool" where
  "qinv q = queue_inv q (bq_inner q)"

text \<open>
  What the tick loop and the producers rely on: a bounded FIFO that may refuse or evict
  but never reorders, and that stays closed once closed.
\<close>

locale class_queue =
  fixes push :: "'p \<Rightarrow> 'q \<Rightarrow> enqueue_outcome \<times> 'q"
    and pop :: "'q \<Rightarrow> 'p option \<times> 'q"
    and drain :: "'q \<Rightarrow> 'p list \<times> 'q"
    and close :: "'q \<Rightarrow> 'q"
    and items :: "'q \<Rightarrow> 'p list"
    and is_closed :: "'q \<Rightarrow> bool"
    and capacity :: "'q \<Rightarrow> nat"
    and inv :: "'q \<Rightarrow> bool"
  assumes push_accepted: "outcome_accepted (fst (push p q)) \<Longrightarrow>
      \<exists>n. items (snd (push p q)) = drop n (items q) @ [p]"
    and push_refused: "\<not> outcome_accepted (fst (push p q)) \<Longrightarrow> items (snd (push p q)) = items q"
    and push_closed: "is_closed q \<Longrightarrow> \<not> outcome_accepted (fst (push p q))"
    and pop_items: "pop q = (case items q of [] \<Rightarrow> (None, q) | x # xs \<Rightarrow> (Some x, snd (pop q)))"
    and pop_rest: "items (snd (pop q)) = tl (items q)"
    and drain_items: "fst (drain q) = items q" "items (snd (drain q)) = []"
    and close_items: "items (close q) = items q" "is_closed (close q)"
    and closed_kept: "is_closed (snd (push p q)) = is_closed q" "is_closed (snd (pop q)) = is_closed q"
      "is_closed (snd (drain q)) = is_closed q"
    and inv_bound: "inv q \<Longrightarrow> length (items q) \<le> capacity q"
    and inv_kept: "inv q \<Longrightarrow> inv (snd (push p q))" "inv q \<Longrightarrow> inv (snd (pop q))"
      "inv q \<Longrightarrow> inv (snd (drain q))" "inv q \<Longrightarrow> inv (close q)"
    and capacity_kept: "capacity (snd (push p q)) = capacity q"
begin

definition push_all :: "'p list \<Rightarrow> 'q \<Rightarrow> 'q" where
  "push_all ps q = fold (\<lambda>p q. snd (push p q)) ps q"

lemma push_all_inv: "inv q \<Longrightarrow> inv (push_all ps q)"
  unfolding push_all_def by (induction ps arbitrary: q) (auto intro: inv_kept)

lemma push_all_capacity: "capacity (push_all ps q) = capacity q"
  unfolding push_all_def by (induction ps arbitrary: q) (auto simp: capacity_kept)

lemma push_all_bound: "inv q \<Longrightarrow> length (items (push_all ps q)) \<le> capacity q"
  using inv_bound [OF push_all_inv, of q ps] by (simp add: push_all_capacity)

lemma push_all_closed:
  "is_closed q \<Longrightarrow> items (push_all ps q) = items q \<and> is_closed (push_all ps q)"
  unfolding push_all_def
  by (induction ps arbitrary: q) (auto simp: push_refused push_closed closed_kept)

lemma pushed_then_drained:
  "outcome_accepted (fst (push p q)) \<Longrightarrow> \<exists>xs. fst (drain (snd (push p q))) = xs @ [p]"
  using push_accepted [of p q] by (auto simp: drain_items)

text \<open>Order is kept: the items after any pushes are a suffix of the old items followed by
  accepted packets in the order they were pushed.\<close>

lemma push_all_fifo: "\<exists>n ys. items (push_all ps q) = drop n (items q @ ys) \<and> subseq ys ps"
proof (induction ps arbitrary: q)
  case Nil
  show ?case by (rule exI [of _ 0], rule exI [of _ "[]"]) (simp add: push_all_def)
next
  case (Cons p ps)
  obtain n ys where IH: "items (push_all ps (snd (push p q))) = drop n (items (snd (push p q)) @ ys)"
    "subseq ys ps" using Cons by blast
  have unf: "push_all (p # ps) q = push_all ps (snd (push p q))" by (simp add: push_all_def)
  show ?case
  proof (cases "outcome_accepted (fst (push p q))")
    case True
    then obtain m where m: "items (snd (push p q)) = drop m (items q) @ [p]"
      using push_accepted by blast
    have "items (push_all (p # ps) q) = drop (n + min m (length (items q))) (items q @ p # ys)"
      using IH(1) by (cases "m \<le> length (items q)") (simp_all add: unf m)
    moreover have "subseq (p # ys) (p # ps)" using IH(2) by simp
    ultimately show ?thesis by blast
  next
    case False
    then have "items (push_all (p # ps) q) = drop n (items q @ ys)"
      using IH(1) by (simp add: unf push_refused)
    moreover have "subseq ys (p # ps)" using IH(2) by (rule list_emb_Cons)
    ultimately show ?thesis by blast
  qed
qed

end

lemma queue_try_push_large:
  "payload_too_large q p \<Longrightarrow> queue_try_push p q =
     (if qclosed q then Shutdown else Rejected,
      q\<lparr>bq_inner := snd (if qclosed q then refuse_shutdown (bq_inner q) else refuse (bq_inner q))\<rparr>)"
  by (simp add: queue_try_push_def queue_push_def qclosed_def refuse_def refuse_shutdown_def Let_def)

lemma queue_try_push_small:
  "\<not> payload_too_large q p \<Longrightarrow> queue_try_push p q =
     (case push_attempt q p (bq_inner q) of
        Some (r, g) \<Rightarrow> (r, q\<lparr>bq_inner := g\<rparr>)
      | None \<Rightarrow> (Rejected, q\<lparr>bq_inner := snd (refuse (bq_inner q))\<rparr>))"
  by (cases "push_attempt q p (bq_inner q)")
    (simp_all add: queue_try_push_def queue_push_def push_deadline_def push_loop_unfold refuse_def
      case_prod_beta)

lemma queue_try_push_cases:
  obtains (large) "payload_too_large q p"
    "queue_try_push p q =
       (if qclosed q then Shutdown else Rejected,
        q\<lparr>bq_inner := snd (if qclosed q then refuse_shutdown (bq_inner q) else refuse (bq_inner q))\<rparr>)"
  | (some) r g where "\<not> payload_too_large q p" "push_attempt q p (bq_inner q) = Some (r, g)"
    "queue_try_push p q = (r, q\<lparr>bq_inner := g\<rparr>)"
  | (full) "\<not> payload_too_large q p" "push_attempt q p (bq_inner q) = None"
    "queue_try_push p q = (Rejected, q\<lparr>bq_inner := snd (refuse (bq_inner q))\<rparr>)"
proof (cases "payload_too_large q p")
  case True
  from that(1) [OF this queue_try_push_large [OF this]] show thesis .
next
  case False
  show thesis
  proof (cases "push_attempt q p (bq_inner q)")
    case None
    from that(3) [OF False None] queue_try_push_small [OF False] None show thesis by simp
  next
    case (Some x)
    obtain r g where "x = (r, g)" by fastforce
    with that(2) [OF False] queue_try_push_small [OF False] Some show thesis by simp
  qed
qed

lemma qinv_update [simp]: "qinv (q\<lparr>bq_inner := g\<rparr>) = queue_inv q g"
  by (simp add: qinv_def)

lemma push_attempt_closed_kept:
  "push_attempt q p g = Some (r, g') \<Longrightarrow> qs_closed g' = qs_closed g"
  by (auto simp: queue_defs Let_def split: if_splits overflow_policy.splits)

lemma qinv_try_push:
  assumes "qinv q"
  shows "qinv (snd (queue_try_push p q))"
proof -
  from assms have inv: "queue_inv q (bq_inner q)" by (simp add: qinv_def)
  show ?thesis
  proof (cases rule: queue_try_push_cases [of q p])
    case (some r g)
    from push_attempt_inv [OF inv some(1,2)] some(3) show ?thesis by simp
  qed (use inv in \<open>simp_all add: refuse_def refuse_shutdown_def\<close>)
qed

lemma qinv_pop: "qinv q \<Longrightarrow> qinv (snd (qpop q))"
  using queue_op_step_inv [of q "bq_inner q" OpPop] by (simp add: qpop_def qinv_def case_prod_beta)

lemma qinv_drain: "qinv q \<Longrightarrow> qinv (snd (qdrain q))"
  using queue_op_step_inv [of q "bq_inner q" OpDrain]
  by (simp add: qdrain_def qinv_def case_prod_beta)

interpretation cq: class_queue queue_try_push qpop qdrain qclose qitems qclosed bq_capacity qinv
proof unfold_locales
  fix p q
  show "\<exists>n. qitems (snd (queue_try_push p q)) = drop n (qitems q) @ [p]"
    if "outcome_accepted (fst (queue_try_push p q))"
  proof (cases rule: queue_try_push_cases [of q p])
    case (some r g)
    let ?n = "case r of DroppedOldest _ \<Rightarrow> 1 | Coalesced _ \<Rightarrow> length (qitems q) | _ \<Rightarrow> 0"
    have "qs_items g = drop ?n (qitems q) @ [p]"
      using push_attempt_items [OF some(2)] that some(3)
      by (cases r) (auto simp: qitems_def drop_Suc)
    with some(3) show ?thesis by (intro exI [of _ ?n]) (simp add: qitems_def)
  qed (use that in \<open>auto split: if_splits\<close>)
  show "qitems (snd (queue_try_push p q)) = qitems q"
    if "\<not> outcome_accepted (fst (queue_try_push p q))"
    using that
    by (cases rule: queue_try_push_cases [of q p])
      (auto simp: qitems_def refuse_def refuse_shutdown_def dest: push_attempt_items)
  show "\<not> outcome_accepted (fst (queue_try_push p q))" if "qclosed q"
    using that
    by (cases rule: queue_try_push_cases [of q p]) (auto simp: qclosed_def dest: push_attempt_accepted)
  show "qclosed (snd (queue_try_push p q)) = qclosed q"
    by (cases rule: queue_try_push_cases [of q p])
      (auto simp: qclosed_def refuse_def refuse_shutdown_def dest: push_attempt_closed_kept)
  show "bq_capacity (snd (queue_try_push p q)) = bq_capacity q"
    by (cases rule: queue_try_push_cases [of q p]) auto
  show "qinv (snd (queue_try_push p q))" if "qinv q"
    using that by (rule qinv_try_push)
  show "qinv (qclose q)" if "qinv q"
    using that by (simp add: qclose_def queue_shutdown_def qinv_def)
next
  fix q
  show "qpop q = (case qitems q of [] \<Rightarrow> (None, q) | x # xs \<Rightarrow> (Some x, snd (qpop q)))"
    by (auto simp: qpop_def queue_pop_def qitems_def split: list.splits)
  show "qitems (snd (qpop q)) = tl (qitems q)"
    by (auto simp: qpop_def queue_pop_def qitems_def split: list.splits)
  show "qclosed (snd (qpop q)) = qclosed q"
    by (auto simp: qpop_def queue_pop_def qclosed_def split: list.splits)
  show "qinv (snd (qpop q))" if "qinv q" using that by (rule qinv_pop)
  show "qinv (snd (qdrain q))" if "qinv q" using that by (rule qinv_drain)
qed (auto simp: qdrain_def queue_drain_all_eq qitems_def qclosed_def qclose_def queue_shutdown_def
    qinv_def queue_inv_def)

section \<open>Properties\<close>

text \<open>
  C20: For every interleaving of the critical sections of any number of producers and
  consumers (pushes, refusals, the two halves of a wait, pops, drains, close), a queue built
  with a positive capacity never holds more than its capacity, and the metrics balance:
  accepted packets are dropped, coalesced away, still queued, or delivered (modulo 2^64).
\<close>

theorem queue_interleaving_safe:
  assumes "1 \<le> cap"
  shows "let q = queue_new cls cap pol timeout max_len;
             g = fold (queue_op_step q) xs (bq_inner q)
         in length (qs_items g) \<le> (if pol = Coalesce then 1 else cap) \<and>
            qs_high_water_mark g \<le> (if pol = Coalesce then 1 else cap) \<and>
            qs_accepted g = qs_dropped g + qs_coalesced g + of_nat (length (qs_items g)) +
              of_nat (delivered_run q xs (bq_inner q))"
proof -
  let ?q = "queue_new cls cap pol timeout max_len"
  let ?g = "fold (queue_op_step ?q) xs (bq_inner ?q)"
  have init: "queue_inv ?q (bq_inner ?q)" using assms by (rule queue_new_inv)
  then have inv: "queue_inv ?q ?g" by (rule queue_sys.run_inv)
  moreover have "bq_capacity ?q = (if pol = Coalesce then 1 else cap)"
    by (simp add: queue_new_def split: overflow_policy.splits)
  moreover have "queue_flow ?g = of_nat (delivered_run ?q xs (bq_inner ?q))"
    using queue_run_flow [OF init, of xs] by (simp add: queue_flow_def queue_new_def)
  then have "qs_accepted ?g = qs_dropped ?g + qs_coalesced ?g + of_nat (length (qs_items ?g)) +
      of_nat (delivered_run ?q xs (bq_inner ?q))"
    by (simp add: queue_flow_def diff_eq_eq ac_simps)
  ultimately show ?thesis by (simp add: Let_def queue_inv_def)
qed

theorem queue_interleaving_safe_witness:
  "let q = queue_new Sensory 2 DropOldest 0 8;
       xs = [OpPushTry packet_default, OpWaitEnter, OpPushTry packet_default, OpPop,
             OpPushTry packet_default, OpPushTry packet_default];
       g = fold (queue_op_step q) xs (bq_inner q)
   in (1::nat) \<le> 2 \<and> qs_accepted g = 4 \<and> qs_dropped g = 1 \<and> length (qs_items g) = 2 \<and>
      delivered_run q xs (bq_inner q) = 1 \<and> length (qs_items g) \<le> 2"
  using queue_interleaving_safe [of 2 Sensory DropOldest 0 8
      "[OpPushTry packet_default, OpWaitEnter, OpPushTry packet_default, OpPop,
        OpPushTry packet_default, OpPushTry packet_default]"]
  by (simp add: queue_new_def payload_too_large_def packet_default_def queue_defs Let_def)

text \<open>
  C38: A push never blocks for ever: once the producer is woken at or after its deadline the
  push returns, whatever other threads did to the queue in the meantime; and if it then
  reports acceptance the caller's packet is the newest item of the queue.
\<close>

theorem blocked_push_returns:
  assumes "\<exists>w \<in> set ws. now + bq_block_timeout q \<le> wk_now w"
  shows "\<exists>r q'. queue_push il q p wait now ws = Some (r, q') \<and>
    (outcome_accepted r \<longrightarrow> (\<exists>xs. qitems q' = xs @ [p]))"
proof (cases "payload_too_large q p")
  case True
  then show ?thesis
    by (simp add: queue_push_def Let_def case_prod_beta refuse_def refuse_shutdown_def)
next
  case False
  let ?dl = "push_deadline il q wait now"
  have "?dl = None \<or> ?dl = Some (now + bq_block_timeout q)"
    by (simp add: push_deadline_def split: wait_mode.split)
  then obtain r g where r: "push_loop q p ?dl ws (bq_inner q) = Some (r, g)"
    using push_loop_no_deadline [of q p ws "bq_inner q"] push_loop_returns [OF assms] by fastforce
  with False have "queue_push il q p wait now ws = Some (r, q\<lparr>bq_inner := g\<rparr>)"
    by (simp add: queue_push_def)
  with push_loop_accepted_last [OF r] show ?thesis by (simp add: qitems_def)
qed

theorem blocked_push_returns_witness:
  "let q = (queue_new Control 1 BlockTimeout 5 8)\<lparr>bq_inner :=
         (bq_inner (queue_new Control 1 BlockTimeout 5 8))\<lparr>qs_items := [packet_default]\<rparr>\<rparr>;
       w = \<lparr> wk_now = 105, wk_others = id, wk_elapsed_ns = 5, wk_timed_out = True \<rparr>
   in push_attempt q packet_default (bq_inner q) = None \<and>
      (\<exists>r q'. queue_push 1000 q packet_default HonorPolicy 100 [w] = Some (r, q'))"
proof -
  let ?q = "(queue_new Control 1 BlockTimeout 5 8)\<lparr>bq_inner :=
         (bq_inner (queue_new Control 1 BlockTimeout 5 8))\<lparr>qs_items := [packet_default]\<rparr>\<rparr>"
  let ?w = "\<lparr> wk_now = 105, wk_others = id, wk_elapsed_ns = 5, wk_timed_out = True \<rparr>"
  have "\<exists>w \<in> set [?w]. 100 + bq_block_timeout ?q \<le> wk_now w" by (simp add: queue_new_def)
  from blocked_push_returns [OF this, of 1000 packet_default HonorPolicy]
  have "\<exists>r q'. queue_push 1000 ?q packet_default HonorPolicy 100 [?w] = Some (r, q')" by blast
  moreover have "push_attempt ?q packet_default (bq_inner ?q) = None"
    by (simp add: push_attempt_None queue_new_def)
  ultimately show ?thesis by (simp add: Let_def)
qed

text \<open>
  Order is kept by every policy: after any sequence of non-blocking pushes the queue
  holds a suffix of what it held before followed by pushed packets in the order of the
  pushes, and an immediate drain returns exactly that.
\<close>

theorem queue_fifo:
  "\<exists>n ys. fst (qdrain (fold (\<lambda>p q. snd (queue_try_push p q)) ps q)) = drop n (qitems q @ ys) \<and>
     subseq ys ps"
  using cq.push_all_fifo [of ps q] by (simp add: cq.drain_items cq.push_all_def)

end
