(* ===== verification/Ingress.thy ===== *)
theory Ingress
  imports Ingress_Queue
begin

text \<open>
  \<open>src/ingress/mod.rs\<close>: the ingress configuration with its validation, the four class
  queues behind one handle, the split of a backend packet onto the sensory and reward
  classes, the drain of one tick, and shutdown. \<open>BoundedIngress\<close> is a shared handle; its
  methods take each class queue's mutex for one operation of the queue theory at a time.
\<close>

section \<open>Configuration\<close>

definition MAX_QUEUE_CAPACITY :: usize where
  "MAX_QUEUE_CAPACITY = 16384"

definition MAX_BLOCK_TIMEOUT_MS :: u64 where
  "MAX_BLOCK_TIMEOUT_MS = 86400000"

definition MAX_PAYLOAD_LEN :: usize where
  "MAX_PAYLOAD_LEN = 1048576"

definition class_all :: "message_class list" where
  "class_all = [Control, Reward, Sensory, Telemetry]"

record ingress_config =
  ic_sensory_capacity :: usize
  ic_sensory_policy :: overflow_policy
  ic_reward_capacity :: usize
  ic_reward_policy :: overflow_policy
  ic_control_capacity :: usize
  ic_control_policy :: overflow_policy
  ic_telemetry_capacity :: usize
  ic_telemetry_policy :: overflow_policy
  ic_block_timeout_ms :: u64
  ic_max_payload_len :: usize

definition ingress_config_default :: ingress_config where
  "ingress_config_default =
     \<lparr> ic_sensory_capacity = 64, ic_sensory_policy = DropOldest,
       ic_reward_capacity = 8, ic_reward_policy = Coalesce,
       ic_control_capacity = 16, ic_control_policy = BlockTimeout,
       ic_telemetry_capacity = 128, ic_telemetry_policy = DropOldest,
       ic_block_timeout_ms = 5, ic_max_payload_len = 4096 \<rparr>"

definition tiny_fixture :: ingress_config where
  "tiny_fixture =
     \<lparr> ic_sensory_capacity = 2, ic_sensory_policy = DropOldest,
       ic_reward_capacity = 1, ic_reward_policy = Coalesce,
       ic_control_capacity = 4, ic_control_policy = Reject,
       ic_telemetry_capacity = 2, ic_telemetry_policy = DropOldest,
       ic_block_timeout_ms = 0, ic_max_payload_len = 4096 \<rparr>"

fun ic_capacity :: "ingress_config \<Rightarrow> message_class \<Rightarrow> usize" where
  "ic_capacity c Sensory = ic_sensory_capacity c"
| "ic_capacity c Reward = ic_reward_capacity c"
| "ic_capacity c Control = ic_control_capacity c"
| "ic_capacity c Telemetry = ic_telemetry_capacity c"

fun ic_policy :: "ingress_config \<Rightarrow> message_class \<Rightarrow> overflow_policy" where
  "ic_policy c Sensory = ic_sensory_policy c"
| "ic_policy c Reward = ic_reward_policy c"
| "ic_policy c Control = ic_control_policy c"
| "ic_policy c Telemetry = ic_telemetry_policy c"

definition ic_block_timeout :: "ingress_config \<Rightarrow> duration" where
  "ic_block_timeout c = unat (ic_block_timeout_ms c) * 1000000"

datatype ingress_config_error =
    PayloadLenZero
  | PayloadLenTooBig usize
  | BlockTimeoutTooBig u64
  | CapacityZero message_class
  | CapacityTooBig message_class usize

definition check_capacity :: "ingress_config \<Rightarrow> message_class \<Rightarrow> ingress_config_error + unit" where
  "check_capacity c cls =
     (let cap = ic_capacity c cls
      in if cap = 0 then Inl (CapacityZero cls)
         else if cap > MAX_QUEUE_CAPACITY then Inl (CapacityTooBig cls cap)
         else Inr ())"

definition ingress_config_validate :: "ingress_config \<Rightarrow> ingress_config_error + unit" where
  "ingress_config_validate c =
     (if ic_max_payload_len c = 0 then Inl PayloadLenZero
      else if ic_max_payload_len c > MAX_PAYLOAD_LEN then Inl (PayloadLenTooBig (ic_max_payload_len c))
      else if ic_block_timeout_ms c > MAX_BLOCK_TIMEOUT_MS
        then Inl (BlockTimeoutTooBig (ic_block_timeout_ms c))
      else for_each_res (check_capacity c) [Sensory, Reward, Control, Telemetry])"

section \<open>Metrics and the drained tick\<close>

record ingress_metrics =
  im_sensory :: class_metrics
  im_reward :: class_metrics
  im_control :: class_metrics
  im_telemetry :: class_metrics

fun im_class :: "ingress_metrics \<Rightarrow> message_class \<Rightarrow> class_metrics" where
  "im_class m Sensory = im_sensory m"
| "im_class m Reward = im_reward m"
| "im_class m Control = im_control m"
| "im_class m Telemetry = im_telemetry m"

record drained_tick =
  dt_control :: "ingress_packet list"
  dt_reward :: "ingress_packet option"
  dt_sensory :: "ingress_packet option"
  dt_telemetry_drained :: usize

definition into_packet :: "drained_tick \<Rightarrow> ingress_packet" where
  "into_packet d =
     (let sensory = (case dt_sensory d of Some p \<Rightarrow> p | None \<Rightarrow> packet_default)
      in \<lparr> ip_stimuli = ip_stimuli sensory,
           ip_modulators = Option.bind (dt_reward d) ip_modulators,
           ip_valid_mask = ip_valid_mask sensory,
           ip_batch_id = ip_batch_id sensory,
           ip_timestamp_ns = ip_timestamp_ns sensory,
           ip_session_id = ip_session_id sensory,
           ip_rejected = ip_rejected sensory \<rparr>)"

section \<open>The handle\<close>

record bounded_ingress =
  bi_config :: ingress_config
  bi_queues :: "bounded_queue list"
  bi_shutting_down :: bool

definition ingress_new :: "ingress_config \<Rightarrow> ingress_config_error + bounded_ingress" where
  "ingress_new c =
     bind_res (ingress_config_validate c) (\<lambda>_.
       let make = (\<lambda>cls. queue_new cls (ic_capacity c cls) (ic_policy c cls)
                     (ic_block_timeout c) (ic_max_payload_len c))
       in Inr \<lparr> bi_config = c,
                bi_queues = [make Sensory, make Reward, make Control, make Telemetry],
                bi_shutting_down = False \<rparr>)"

definition iqueue :: "bounded_ingress \<Rightarrow> message_class \<Rightarrow> bounded_queue" where
  "iqueue b cls = bi_queues b ! class_index cls"

definition set_queue :: "message_class \<Rightarrow> bounded_queue \<Rightarrow> bounded_ingress \<Rightarrow> bounded_ingress" where
  "set_queue cls q b = b\<lparr>bi_queues := (bi_queues b)[class_index cls := q]\<rparr>"

text \<open>\<open>push\<close>: \<open>None\<close> only while the producer of a \<open>block_timeout\<close> class still waits.\<close>

definition ingress_push ::
  "instant \<Rightarrow> message_class \<Rightarrow> ingress_packet \<Rightarrow> wait_mode \<Rightarrow> instant \<Rightarrow> wake list \<Rightarrow> bounded_ingress
     \<Rightarrow> (enqueue_outcome \<times> bounded_ingress) option" where
  "ingress_push instant_limit cls p wait now ws b =
     (if bi_shutting_down b
      then (case qrefuse_closed (iqueue b cls) of (r, q) \<Rightarrow> Some (r, set_queue cls q b))
      else map_option (\<lambda>(r, q). (r, set_queue cls q b))
             (queue_push instant_limit (iqueue b cls) p wait now ws))"

definition enqueue ::
  "instant \<Rightarrow> message_class \<Rightarrow> ingress_packet \<Rightarrow> instant \<Rightarrow> wake list \<Rightarrow> bounded_ingress
     \<Rightarrow> (enqueue_outcome \<times> bounded_ingress) option" where
  "enqueue instant_limit cls p now ws b = ingress_push instant_limit cls p HonorPolicy now ws b"

text \<open>\<open>try_enqueue\<close> never waits, so it always returns (\<open>try_enqueue_push\<close>).\<close>

definition try_enqueue ::
  "message_class \<Rightarrow> ingress_packet \<Rightarrow> bounded_ingress \<Rightarrow> enqueue_outcome \<times> bounded_ingress" where
  "try_enqueue cls p b =
     (case ingress_push 0 cls p Never 0 [] b of Some r \<Rightarrow> r | None \<Rightarrow> (Rejected, b))"

definition admit_sensory :: "ingress_packet \<Rightarrow> bounded_ingress \<Rightarrow> bounded_ingress" where
  "admit_sensory p b =
     (if ip_stimuli p \<noteq> [] then snd (try_enqueue Sensory (p\<lparr>ip_modulators := None\<rparr>) b) else b)"

definition admit_reward :: "ingress_packet \<Rightarrow> bounded_ingress \<Rightarrow> bounded_ingress" where
  "admit_reward p b =
     (case ip_modulators p of
        Some ms \<Rightarrow>
          (if ms \<noteq> [] then snd (try_enqueue Reward (packet_default\<lparr>ip_modulators := Some ms\<rparr>) b)
           else b)
      | None \<Rightarrow> b)"

definition admit_backend_packet :: "ingress_packet \<Rightarrow> bounded_ingress \<Rightarrow> bounded_ingress" where
  "admit_backend_packet p b = admit_reward p (admit_sensory p b)"

definition ingress_pop :: "message_class \<Rightarrow> bounded_ingress \<Rightarrow> ingress_packet option \<times> bounded_ingress" where
  "ingress_pop cls b = (case qpop (iqueue b cls) of (r, q) \<Rightarrow> (r, set_queue cls q b))"

definition ingress_drain_all ::
  "message_class \<Rightarrow> bounded_ingress \<Rightarrow> ingress_packet list \<times> bounded_ingress" where
  "ingress_drain_all cls b = (case qdrain (iqueue b cls) of (r, q) \<Rightarrow> (r, set_queue cls q b))"

definition drain_for_tick :: "bounded_ingress \<Rightarrow> drained_tick \<times> bounded_ingress" where
  "drain_for_tick b =
     (case ingress_drain_all Control b of (ctl, b1) \<Rightarrow>
      case ingress_pop Reward b1 of (rew, b2) \<Rightarrow>
      case ingress_pop Sensory b2 of (sens, b3) \<Rightarrow>
      case ingress_drain_all Telemetry b3 of (tel, b4) \<Rightarrow>
        (\<lparr> dt_control = ctl, dt_reward = rew, dt_sensory = sens,
           dt_telemetry_drained = length tel \<rparr>, b4))"

definition ingress_shutdown :: "bounded_ingress \<Rightarrow> bounded_ingress" where
  "ingress_shutdown b = b\<lparr>bi_shutting_down := True, bi_queues := map qclose (bi_queues b)\<rparr>"

definition ingress_is_shutdown :: "bounded_ingress \<Rightarrow> bool" where
  "ingress_is_shutdown b = bi_shutting_down b"

definition ingress_metrics_of :: "bounded_ingress \<Rightarrow> ingress_metrics" where
  "ingress_metrics_of b =
     \<lparr> im_sensory = queue_metrics (bq_inner (iqueue b Sensory)),
       im_reward = queue_metrics (bq_inner (iqueue b Reward)),
       im_control = queue_metrics (bq_inner (iqueue b Control)),
       im_telemetry = queue_metrics (bq_inner (iqueue b Telemetry)) \<rparr>"

definition snapshot_row :: "ingress_config \<Rightarrow> ingress_metrics \<Rightarrow> message_class \<Rightarrow> string" where
  "snapshot_row cfg m cls =
     (let c = im_class m cls;
          cap = (case ic_policy cfg cls of Coalesce \<Rightarrow> 1 | _ \<Rightarrow> ic_capacity cfg cls)
      in ''| '' @ class_as_str cls @ '' | '' @ policy_as_str (ic_policy cfg cls) @ '' | '' @
         show_nat cap @ '' | '' @ show_nat (cm_depth c) @ '' | '' @
         show_nat (cm_high_water_mark c) @ '' | '' @ show_u64 (cm_accepted c) @ '' | '' @
         show_u64 (cm_rejected c) @ '' | '' @ show_u64 (cm_dropped c) @ '' | '' @
         show_u64 (cm_coalesced c) @ '' | '' @ show_u64 (cm_shutdown_refused c) @ '' | '' @
         show_u64 (cm_producer_waits c) @ '' | '' @ show_u64 (cm_producer_wait_ns c) @ '' |\<newline>'')"

definition render_snapshot :: "bounded_ingress \<Rightarrow> string" where
  "render_snapshot b =
     (let m = ingress_metrics_of b
      in ''| class | policy | cap | depth | hwm | accepted | rejected | dropped | coalesced | shutdown | waits | wait_ns |\<newline>'' @
         ''|---|---|---:|---:|---:|---:|---:|---:|---:|---:|---:|---:|\<newline>'' @
         concat (map (snapshot_row (bi_config b) m) class_all))"

section \<open>Sequences of operations\<close>

datatype ingress_op =
    IngTryEnqueue message_class ingress_packet
  | IngAdmit ingress_packet
  | IngPop message_class
  | IngDrain
  | IngShutdown

fun ingress_step :: "ingress_op \<Rightarrow> bounded_ingress \<Rightarrow> bounded_ingress" where
  "ingress_step (IngTryEnqueue cls p) b = snd (try_enqueue cls p b)"
| "ingress_step (IngAdmit p) b = admit_backend_packet p b"
| "ingress_step (IngPop cls) b = snd (ingress_pop cls b)"
| "ingress_step IngDrain b = snd (drain_for_tick b)"
| "ingress_step IngShutdown b = ingress_shutdown b"

definition queue_matches :: "ingress_config \<Rightarrow> message_class \<Rightarrow> bounded_queue \<Rightarrow> bool" where
  "queue_matches c cls q \<longleftrightarrow>
     bq_class q = cls \<and> bq_policy q = ic_policy c cls \<and>
     bq_max_payload_len q = ic_max_payload_len c \<and>
     bq_block_timeout q = ic_block_timeout c \<and>
     bq_capacity q = (case ic_policy c cls of Coalesce \<Rightarrow> 1 | _ \<Rightarrow> ic_capacity c cls)"

definition ingress_inv :: "bounded_ingress \<Rightarrow> bool" where
  "ingress_inv b \<longleftrightarrow>
     ingress_config_validate (bi_config b) = Inr () \<and> length (bi_queues b) = 4 \<and>
     (\<forall>cls. queue_matches (bi_config b) cls (iqueue b cls) \<and> qinv (iqueue b cls))"

definition ingress_closed :: "bounded_ingress \<Rightarrow> bool" where
  "ingress_closed b \<longleftrightarrow>
     bi_shutting_down b \<and> length (bi_queues b) = 4 \<and> (\<forall>cls. qclosed (iqueue b cls))"

section \<open>Lemmas\<close>

lemma class_index_less [simp]: "class_index c < 4"
  by (cases c) simp_all

lemma class_index_inject [simp]: "class_index c = class_index d \<longleftrightarrow> c = d"
  by (cases c; cases d) simp_all

lemma all_classes: "(\<forall>cls. P cls) \<longleftrightarrow> P Sensory \<and> P Reward \<and> P Control \<and> P Telemetry"
  by (metis message_class.exhaust)

lemma set_queue_simps [simp]:
  "bi_config (set_queue c q b) = bi_config b"
  "bi_shutting_down (set_queue c q b) = bi_shutting_down b"
  "length (bi_queues (set_queue c q b)) = length (bi_queues b)"
  by (simp_all add: set_queue_def)

lemma iqueue_set_queue [simp]:
  "length (bi_queues b) = 4 \<Longrightarrow> iqueue (set_queue c q b) d = (if c = d then q else iqueue b d)"
  by (auto simp: iqueue_def set_queue_def nth_list_update)

lemma iqueue_shutdown [simp]:
  "length (bi_queues b) = 4 \<Longrightarrow> iqueue (ingress_shutdown b) c = qclose (iqueue b c)"
  by (simp add: iqueue_def ingress_shutdown_def)

lemma validate_ok:
  "ingress_config_validate c = Inr () \<longleftrightarrow>
     1 \<le> ic_max_payload_len c \<and> ic_max_payload_len c \<le> MAX_PAYLOAD_LEN \<and>
     ic_block_timeout_ms c \<le> MAX_BLOCK_TIMEOUT_MS \<and>
     (\<forall>cls. 1 \<le> ic_capacity c cls \<and> ic_capacity c cls \<le> MAX_QUEUE_CAPACITY)"
proof -
  have each: "is_ok (check_capacity c cls) \<longleftrightarrow>
      1 \<le> ic_capacity c cls \<and> ic_capacity c cls \<le> MAX_QUEUE_CAPACITY" for cls
    by (simp add: check_capacity_def Let_def)
  have "for_each_res (check_capacity c) [Sensory, Reward, Control, Telemetry] = Inr () \<longleftrightarrow>
      (\<forall>cls. 1 \<le> ic_capacity c cls \<and> ic_capacity c cls \<le> MAX_QUEUE_CAPACITY)"
    unfolding for_each_res_ok each all_classes by simp
  then show ?thesis
    by (auto simp add: ingress_config_validate_def not_less not_le simp del: for_each_res.simps)
qed

text \<open>The defaults and the test fixture are valid.\<close>

lemma validate_defaults:
  "ingress_config_validate ingress_config_default = Inr ()"
  "ingress_config_validate tiny_fixture = Inr ()"
  by (simp_all add: ingress_config_validate_def check_capacity_def ingress_config_default_def
      tiny_fixture_def MAX_QUEUE_CAPACITY_def MAX_BLOCK_TIMEOUT_MS_def MAX_PAYLOAD_LEN_def)

lemma ingress_new_inv:
  assumes "ingress_new c = Inr b"
  shows "ingress_inv b" and "bi_config b = c" and "\<not> bi_shutting_down b"
    and "\<And>cls. iqueue b cls = queue_new cls (ic_capacity c cls) (ic_policy c cls)
           (ic_block_timeout c) (ic_max_payload_len c)"
proof -
  from assms have ok: "ingress_config_validate c = Inr ()"
    by (auto simp: ingress_new_def bind_res_Inr)
  show cfg: "bi_config b = c" and "\<not> bi_shutting_down b" and
    q: "\<And>cls. iqueue b cls = queue_new cls (ic_capacity c cls) (ic_policy c cls)
           (ic_block_timeout c) (ic_max_payload_len c)"
    using assms ok
    by (auto simp: ingress_new_def iqueue_def Let_def) (case_tac cls, simp_all)
  have "length (bi_queues b) = 4" using assms ok by (auto simp: ingress_new_def Let_def)
  then show "ingress_inv b"
    using ok cfg q queue_new_inv validate_ok [of c]
    by (auto simp: ingress_inv_def queue_matches_def qinv_def queue_new_def)
qed

text \<open>Every operation on one class is an update of that class's queue by an operation of
  the queue theory that keeps its configuration and its invariant.\<close>

definition queue_static :: "bounded_queue \<Rightarrow> bounded_queue \<Rightarrow> bool" where
  "queue_static q q' \<longleftrightarrow>
     bq_class q' = bq_class q \<and> bq_policy q' = bq_policy q \<and> bq_capacity q' = bq_capacity q \<and>
     bq_max_payload_len q' = bq_max_payload_len q \<and> bq_block_timeout q' = bq_block_timeout q"

lemma queue_static_inner [simp]: "queue_static q (q\<lparr>bq_inner := g\<rparr>)"
  by (simp add: queue_static_def)

lemma queue_static_ops [simp]:
  "queue_static q (snd (queue_try_push p q))"
  "queue_static q (snd (qpop q))" "queue_static q (snd (qdrain q))" "queue_static q (qclose q)"
  "queue_static q (snd (qrefuse_closed q))"
  by (cases rule: queue_try_push_cases [of q p])
    (auto simp: qpop_def qdrain_def qclose_def qrefuse_closed_def case_prod_beta)

lemma qinv_refuse_closed [simp]: "qinv q \<Longrightarrow> qinv (snd (qrefuse_closed q))"
  by (simp add: qrefuse_closed_def queue_refuse_closed_def refuse_shutdown_def qinv_def)

lemma ingress_inv_set_queue:
  assumes "ingress_inv b" and "queue_static (iqueue b c) q" and "qinv q"
  shows "ingress_inv (set_queue c q b)"
  using assms by (auto simp: ingress_inv_def queue_matches_def queue_static_def)

lemma try_enqueue_push:
  "ingress_push il cls p Never now ws b = Some (try_enqueue cls p b)"
  by (simp add: try_enqueue_def ingress_push_def queue_push_never case_prod_beta)

lemma try_enqueue_eq:
  "try_enqueue cls p b =
     (if bi_shutting_down b
      then (Shutdown, set_queue cls (snd (qrefuse_closed (iqueue b cls))) b)
      else (fst (queue_try_push p (iqueue b cls)), set_queue cls (snd (queue_try_push p (iqueue b cls))) b))"
  by (simp add: try_enqueue_def ingress_push_def queue_push_never case_prod_beta qrefuse_closed_def
      queue_refuse_closed_def refuse_shutdown_def)

lemma ingress_pop_eq:
  "ingress_pop cls b = (fst (qpop (iqueue b cls)), set_queue cls (snd (qpop (iqueue b cls))) b)"
  by (simp add: ingress_pop_def case_prod_beta)

lemma ingress_drain_all_eq:
  "ingress_drain_all cls b = (qitems (iqueue b cls), set_queue cls (snd (qdrain (iqueue b cls))) b)"
  by (simp add: ingress_drain_all_def case_prod_beta cq.drain_items)

lemma qpop_fst: "fst (qpop q) = (case qitems q of [] \<Rightarrow> None | x # xs \<Rightarrow> Some x)"
  by (subst cq.pop_items) (simp split: list.splits)

lemma try_enqueue_inv: "ingress_inv b \<Longrightarrow> ingress_inv (snd (try_enqueue cls p b))"
  by (auto simp: try_enqueue_eq intro!: ingress_inv_set_queue cq.inv_kept qinv_refuse_closed)
    (simp_all add: ingress_inv_def)

lemma ingress_pop_inv: "ingress_inv b \<Longrightarrow> ingress_inv (snd (ingress_pop cls b))"
  by (auto simp: ingress_pop_eq intro!: ingress_inv_set_queue cq.inv_kept)
    (simp_all add: ingress_inv_def)

lemma ingress_drain_all_inv: "ingress_inv b \<Longrightarrow> ingress_inv (snd (ingress_drain_all cls b))"
  by (auto simp: ingress_drain_all_eq intro!: ingress_inv_set_queue cq.inv_kept)
    (simp_all add: ingress_inv_def)

lemma ingress_shutdown_inv: "ingress_inv b \<Longrightarrow> ingress_inv (ingress_shutdown b)"
  by (auto simp: ingress_inv_def cq.inv_kept)
    (auto simp: ingress_shutdown_def queue_matches_def qclose_def)

lemma admit_inv: "ingress_inv b \<Longrightarrow> ingress_inv (admit_backend_packet p b)"
  by (auto simp: admit_backend_packet_def admit_sensory_def admit_reward_def
      intro: try_enqueue_inv split: option.splits)

lemma drain_for_tick_inv: "ingress_inv b \<Longrightarrow> ingress_inv (snd (drain_for_tick b))"
  using ingress_drain_all_inv ingress_pop_inv
  by (simp add: drain_for_tick_def case_prod_beta)

lemma ingress_step_inv: "ingress_inv b \<Longrightarrow> ingress_inv (ingress_step e b)"
  by (cases e)
    (simp_all add: try_enqueue_inv admit_inv ingress_pop_inv drain_for_tick_inv ingress_shutdown_inv)

interpretation ingress_sys: event_system ingress_step ingress_inv
  by unfold_locales (rule ingress_step_inv)

lemma ingress_step_config: "bi_config (ingress_step e b) = bi_config b"
  by (cases e) (auto simp: try_enqueue_eq ingress_pop_eq drain_for_tick_def ingress_drain_all_eq
      ingress_shutdown_def admit_backend_packet_def admit_sensory_def admit_reward_def
      split: option.splits)

lemma ingress_run_config: "bi_config (fold ingress_step es b) = bi_config b"
  by (induction es arbitrary: b) (simp_all add: ingress_step_config)

section \<open>Shutdown\<close>

text \<open>After shutdown no operation adds an item, and the handle stays closed.\<close>

lemma try_enqueue_closed:
  assumes "ingress_closed b"
  shows "fst (try_enqueue cls p b) = Shutdown"
    and "qitems (iqueue (snd (try_enqueue cls p b)) d) = qitems (iqueue b d)"
    and "ingress_closed (snd (try_enqueue cls p b))"
  using assms
  by (auto simp: try_enqueue_eq ingress_closed_def qrefuse_closed_def queue_refuse_closed_def
      refuse_shutdown_def qitems_def qclosed_def)

lemma ingress_shutdown_closed: "length (bi_queues b) = 4 \<Longrightarrow> ingress_closed (ingress_shutdown b)"
  by (simp add: ingress_closed_def cq.close_items) (simp add: ingress_shutdown_def)

lemma drain_for_tick_closed: "ingress_closed b \<Longrightarrow> ingress_closed (snd (drain_for_tick b))"
  by (simp add: drain_for_tick_def ingress_drain_all_eq ingress_pop_eq ingress_closed_def
      cq.closed_kept)

lemma ingress_step_closed: "ingress_closed b \<Longrightarrow> ingress_closed (ingress_step e b)"
proof (cases e)
  case IngShutdown
  assume "ingress_closed b"
  then have "length (bi_queues b) = 4" by (simp add: ingress_closed_def)
  then show ?thesis by (simp add: IngShutdown ingress_shutdown_closed)
qed (auto simp: admit_backend_packet_def admit_sensory_def admit_reward_def try_enqueue_closed
    drain_for_tick_closed ingress_pop_eq split: option.splits,
    simp add: ingress_closed_def cq.closed_kept)

interpretation ingress_close: latched_system ingress_step ingress_closed
  by unfold_locales (rule ingress_step_closed)

section \<open>Class isolation\<close>

lemma try_enqueue_other:
  "length (bi_queues b) = 4 \<Longrightarrow> d \<noteq> cls \<Longrightarrow> iqueue (snd (try_enqueue cls p b)) d = iqueue b d"
  by (simp add: try_enqueue_eq)

lemma try_enqueue_frame [simp]:
  "length (bi_queues (snd (try_enqueue cls p b))) = length (bi_queues b)"
  "bi_shutting_down (snd (try_enqueue cls p b)) = bi_shutting_down b"
  "bi_config (snd (try_enqueue cls p b)) = bi_config b"
  by (simp_all add: try_enqueue_eq)

definition try_enqueue_all :: "(message_class \<times> ingress_packet) list \<Rightarrow> bounded_ingress \<Rightarrow> bounded_ingress"
where
  "try_enqueue_all xs b = fold (\<lambda>(cls, p) b. snd (try_enqueue cls p b)) xs b"

lemma try_enqueue_all_other:
  "length (bi_queues b) = 4 \<Longrightarrow> list_all (\<lambda>(cls, p). cls \<noteq> d) xs \<Longrightarrow>
     iqueue (try_enqueue_all xs b) d = iqueue b d \<and>
     bi_shutting_down (try_enqueue_all xs b) = bi_shutting_down b"
  unfolding try_enqueue_all_def
  by (induction xs arbitrary: b) (auto simp: try_enqueue_other)

lemma admit_other:
  assumes "length (bi_queues b) = 4" and "d \<in> {Control, Telemetry}"
  shows "iqueue (admit_backend_packet p b) d = iqueue b d"
proof -
  have sens: "iqueue (admit_sensory p b) d = iqueue b d" "length (bi_queues (admit_sensory p b)) = 4"
    using assms by (auto simp: admit_sensory_def try_enqueue_other)
  with assms(2) show ?thesis
    by (auto simp: admit_backend_packet_def admit_reward_def try_enqueue_other split: option.splits)
qed

section \<open>The drain of one tick\<close>

lemma drain_for_tick_spec:
  assumes "length (bi_queues b) = 4"
  shows "fst (drain_for_tick b) =
      \<lparr> dt_control = qitems (iqueue b Control),
        dt_reward = (case qitems (iqueue b Reward) of [] \<Rightarrow> None | p # _ \<Rightarrow> Some p),
        dt_sensory = (case qitems (iqueue b Sensory) of [] \<Rightarrow> None | p # _ \<Rightarrow> Some p),
        dt_telemetry_drained = length (qitems (iqueue b Telemetry)) \<rparr>"
    and "qitems (iqueue (snd (drain_for_tick b)) Control) = []"
    and "qitems (iqueue (snd (drain_for_tick b)) Telemetry) = []"
    and "qitems (iqueue (snd (drain_for_tick b)) Reward) = tl (qitems (iqueue b Reward))"
    and "qitems (iqueue (snd (drain_for_tick b)) Sensory) = tl (qitems (iqueue b Sensory))"
  using assms
  by (simp_all add: drain_for_tick_def ingress_drain_all_eq ingress_pop_eq qpop_fst cq.drain_items
      cq.pop_rest)

lemma queue_push_empty:
  assumes "\<not> payload_too_large q p" and "qitems q = []" and "\<not> qclosed q" and "qinv q"
  shows "qitems (snd (queue_try_push p q)) = [p]" and "fst (queue_try_push p q) = Accepted 1"
  using assms
  by (auto simp: queue_try_push_small push_attempt_def push_coalesce_def push_free_def qitems_def
      qclosed_def qinv_def queue_inv_def queue_ok_def Let_def)

definition ingress_empty_open :: "bounded_ingress \<Rightarrow> bool" where
  "ingress_empty_open b \<longleftrightarrow>
     \<not> bi_shutting_down b \<and> (\<forall>cls. qitems (iqueue b cls) = [] \<and> \<not> qclosed (iqueue b cls))"

lemma ingress_new_empty: "ingress_new c = Inr b \<Longrightarrow> ingress_empty_open b"
  using ingress_new_inv(3,4) [of c b]
  by (simp add: ingress_empty_open_def qitems_def qclosed_def queue_new_def)

definition packet_fits :: "ingress_config \<Rightarrow> ingress_packet \<Rightarrow> bool" where
  "packet_fits c p \<longleftrightarrow>
     length (ip_stimuli p) \<le> ic_max_payload_len c \<and>
     option_all (\<lambda>ms. length ms \<le> ic_max_payload_len c) (ip_modulators p)"

lemma packet_fits_small:
  "queue_matches c cls q \<Longrightarrow> packet_fits c p \<Longrightarrow> \<not> payload_too_large q p"
  by (cases "ip_modulators p")
    (auto simp: payload_too_large_def packet_fits_def queue_matches_def Let_def)

text \<open>What the tick sees of a packet: metadata travels with the stimuli only.\<close>

definition tick_view :: "ingress_packet \<Rightarrow> ingress_packet" where
  "tick_view p =
     (if ip_stimuli p = [] then packet_default else p)
       \<lparr>ip_modulators := (case ip_modulators p of Some [] \<Rightarrow> None | m \<Rightarrow> m)\<rparr>"

lemma admit_items:
  assumes inv: "ingress_inv b" and mt: "ingress_empty_open b" and fits: "packet_fits (bi_config b) p"
  shows "qitems (iqueue (admit_backend_packet p b) Sensory) =
      (if ip_stimuli p = [] then [] else [p\<lparr>ip_modulators := None\<rparr>])"
    and "qitems (iqueue (admit_backend_packet p b) Reward) =
      (case ip_modulators p of None \<Rightarrow> [] | Some [] \<Rightarrow> []
       | Some ms \<Rightarrow> [packet_default\<lparr>ip_modulators := Some ms\<rparr>])"
proof -
  from inv have len: "length (bi_queues b) = 4" and
    q: "queue_matches (bi_config b) c (iqueue b c)" "qinv (iqueue b c)" for c
    by (simp_all add: ingress_inv_def)
  from mt have e: "\<not> bi_shutting_down b" "qitems (iqueue b c) = []" "\<not> qclosed (iqueue b c)" for c
    by (simp_all add: ingress_empty_open_def)
  have s: "packet_fits (bi_config b) (p\<lparr>ip_modulators := None\<rparr>)"
    using fits by (simp add: packet_fits_def)
  have sens: "iqueue (admit_sensory p b) Reward = iqueue b Reward"
      "length (bi_queues (admit_sensory p b)) = 4" "\<not> bi_shutting_down (admit_sensory p b)"
      "qitems (iqueue (admit_sensory p b) Sensory) =
        (if ip_stimuli p = [] then [] else [p\<lparr>ip_modulators := None\<rparr>])"
    using queue_push_empty(1) [OF packet_fits_small [OF q(1) s] e(2,3) q(2), of Sensory] len e
    by (simp_all add: admit_sensory_def try_enqueue_other) (simp_all add: try_enqueue_eq)
  show "qitems (iqueue (admit_backend_packet p b) Sensory) =
      (if ip_stimuli p = [] then [] else [p\<lparr>ip_modulators := None\<rparr>])"
    using sens by (simp add: admit_backend_packet_def admit_reward_def try_enqueue_other split: option.split)
  have r: "packet_fits (bi_config b) (packet_default\<lparr>ip_modulators := Some ms\<rparr>)"
    if "ip_modulators p = Some ms" for ms
    using fits that by (simp add: packet_fits_def packet_default_def)
  show "qitems (iqueue (admit_backend_packet p b) Reward) =
      (case ip_modulators p of None \<Rightarrow> [] | Some [] \<Rightarrow> []
       | Some ms \<Rightarrow> [packet_default\<lparr>ip_modulators := Some ms\<rparr>])"
    using queue_push_empty(1) [OF packet_fits_small [OF q(1) r] e(2,3) q(2), of _ Reward] sens e
    by (auto simp: admit_backend_packet_def admit_reward_def try_enqueue_eq
        split: option.split list.split)
qed

lemma admit_drain_view:
  assumes "ingress_inv b" and "ingress_empty_open b" and "packet_fits (bi_config b) p"
  shows "into_packet (fst (drain_for_tick (admit_backend_packet p b))) = tick_view p"
proof -
  have "length (bi_queues (admit_backend_packet p b)) = 4"
    using admit_inv [OF assms(1)] by (simp add: ingress_inv_def)
  note d = drain_for_tick_spec(1) [OF this]
  show ?thesis
    by (cases "ip_modulators p")
      (auto simp: d admit_items [OF assms] into_packet_def tick_view_def packet_default_def Let_def
        split: list.split)
qed

lemma open_frames:
  "length (bi_queues b) = 4 \<Longrightarrow> \<not> bi_shutting_down b \<Longrightarrow>
     qclosed (iqueue (snd (try_enqueue cls p b)) d) = qclosed (iqueue b d)"
  "length (bi_queues b) = 4 \<Longrightarrow>
     qclosed (iqueue (snd (drain_for_tick b)) d) = qclosed (iqueue b d)"
  "bi_shutting_down (snd (drain_for_tick b)) = bi_shutting_down b"
  by (cases "cls = d"; simp add: try_enqueue_eq cq.closed_kept)
    (cases d; simp add: drain_for_tick_def ingress_drain_all_eq ingress_pop_eq cq.closed_kept)+

lemma admit_open:
  assumes "length (bi_queues b) = 4" and "\<not> bi_shutting_down b"
  shows "qclosed (iqueue (admit_backend_packet p b) d) = qclosed (iqueue b d)"
    and "\<not> bi_shutting_down (admit_backend_packet p b)"
  using assms
  by (auto simp: admit_backend_packet_def admit_sensory_def admit_reward_def open_frames split: option.splits)

text \<open>A tick that found the queues empty and open leaves them empty and open.\<close>

lemma admit_drain_empty:
  assumes inv: "ingress_inv b" and mt: "ingress_empty_open b" and fits: "packet_fits (bi_config b) p"
  shows "ingress_empty_open (snd (drain_for_tick (admit_backend_packet p b)))"
proof -
  let ?b = "admit_backend_packet p b"
  have len: "length (bi_queues b) = 4" "length (bi_queues ?b) = 4"
    using inv admit_inv [OF inv, of p] by (simp_all add: ingress_inv_def)
  have op: "\<not> bi_shutting_down b" "\<not> qclosed (iqueue b d)" for d
    using mt by (simp_all add: ingress_empty_open_def)
  have "qitems (iqueue (snd (drain_for_tick ?b)) cls) = []" for cls
    using admit_items [OF inv mt fits] drain_for_tick_spec(2-5) [OF len(2)]
    by (cases cls) (auto split: option.split list.split)
  with op show ?thesis
    by (simp add: ingress_empty_open_def open_frames(2,3) len admit_open [OF len(1) op(1)])
qed

section \<open>Properties\<close>

text \<open>
  Whatever sequence of enqueues, backend admissions, pops, tick drains and shutdowns is
  run on a handle that \<open>BoundedIngress::new\<close> built, every class queue stays within its
  configured capacity (1 for a coalescing class), which is within \<open>MAX_QUEUE_CAPACITY\<close>, its
  high-water mark is a bound on the depth within that capacity, and no queued packet is
  longer than \<open>max_payload_len\<close>.
\<close>

theorem ingress_bounded:
  assumes "ingress_new c = Inr b"
  shows "length (qitems (iqueue (fold ingress_step es b) cls)) \<le>
      qs_high_water_mark (bq_inner (iqueue (fold ingress_step es b) cls)) \<and>
    qs_high_water_mark (bq_inner (iqueue (fold ingress_step es b) cls)) \<le>
      (case ic_policy c cls of
         Coalesce \<Rightarrow> 1 | _ \<Rightarrow> ic_capacity c cls) \<and>
    ic_capacity c cls \<le> MAX_QUEUE_CAPACITY \<and>
    list_all (\<lambda>p. length (ip_stimuli p) \<le> MAX_PAYLOAD_LEN \<and>
        option_all (\<lambda>ms. length ms \<le> MAX_PAYLOAD_LEN) (ip_modulators p))
      (qitems (iqueue (fold ingress_step es b) cls))"
proof -
  let ?b = "fold ingress_step es b"
  let ?q = "iqueue ?b cls"
  have inv: "ingress_inv ?b"
    using ingress_sys.run_inv [OF ingress_new_inv(1) [OF assms]] .
  then have ok: "ingress_config_validate (bi_config ?b) = Inr ()" and
    m: "queue_matches (bi_config ?b) cls ?q" and qi: "qinv ?q"
    by (simp_all add: ingress_inv_def)
  have "bi_config ?b = c" using ingress_run_config ingress_new_inv(2) [OF assms] by simp
  note ok = ok [unfolded this] and m = m [unfolded this]
  from qi m have "length (qitems ?q) \<le> qs_high_water_mark (bq_inner ?q)"
      "qs_high_water_mark (bq_inner ?q) \<le>
      (case ic_policy c cls of Coalesce \<Rightarrow> 1 | _ \<Rightarrow> ic_capacity c cls)"
    by (auto simp: qinv_def queue_inv_def queue_matches_def qitems_def)
  moreover have "\<not> payload_too_large ?q p \<Longrightarrow> length (ip_stimuli p) \<le> MAX_PAYLOAD_LEN \<and>
        option_all (\<lambda>ms. length ms \<le> MAX_PAYLOAD_LEN) (ip_modulators p)" for p
    using m ok [unfolded validate_ok]
    by (cases "ip_modulators p") (auto simp: payload_too_large_def queue_matches_def Let_def)
  ultimately show ?thesis
    using qi ok [unfolded validate_ok]
    by (auto simp: qinv_def queue_inv_def qitems_def list_all_iff)
qed

theorem ingress_bounded_witness:
  "\<exists>b. ingress_new tiny_fixture = Inr b \<and>
     length (qitems (iqueue (fold ingress_step
       (replicate 5 (IngTryEnqueue Telemetry (packet_default\<lparr>ip_stimuli := [f_one]\<rparr>))) b) Telemetry)) \<le> 2"
proof -
  obtain b where b: "ingress_new tiny_fixture = Inr b"
    using validate_defaults(2) by (auto simp: ingress_new_def Let_def)
  let ?es = "replicate 5 (IngTryEnqueue Telemetry (packet_default\<lparr>ip_stimuli := [f_one]\<rparr>))"
  from ingress_bounded [OF b, of ?es Telemetry] b show ?thesis
    by (auto simp add: tiny_fixture_def simp del: fold_replicate)
qed

text \<open>
  Validation accepts a configuration exactly when the payload bound, the timeout and all
  four capacities are inside their documented ranges, and then the queues can be built.
\<close>

theorem ingress_new_iff:
  "(\<exists>b. ingress_new c = Inr b) \<longleftrightarrow>
     ic_max_payload_len c \<in> {1..MAX_PAYLOAD_LEN} \<and>
     ic_block_timeout_ms c \<in> {0..MAX_BLOCK_TIMEOUT_MS} \<and>
     ic_sensory_capacity c \<in> {1..MAX_QUEUE_CAPACITY} \<and>
     ic_reward_capacity c \<in> {1..MAX_QUEUE_CAPACITY} \<and>
     ic_control_capacity c \<in> {1..MAX_QUEUE_CAPACITY} \<and>
     ic_telemetry_capacity c \<in> {1..MAX_QUEUE_CAPACITY}"
proof -
  have "(\<exists>b. ingress_new c = Inr b) \<longleftrightarrow> ingress_config_validate c = Inr ()"
    by (auto simp: ingress_new_def bind_res_Inr Let_def)
  then show ?thesis by (auto simp: validate_ok all_classes)
qed

text \<open>
  C29: Bulk traffic cannot touch control traffic: any flood of enqueues on other classes, and
  any backend packet admitted after it, leave the control queue exactly as it was, so the
  next tick drains the same control packets, all of them and in order.
\<close>

theorem control_isolated:
  assumes "ingress_inv b" and "list_all (\<lambda>(cls, p). cls \<noteq> Control) xs"
  shows "iqueue (admit_backend_packet p (try_enqueue_all xs b)) Control = iqueue b Control \<and>
    dt_control (fst (drain_for_tick (admit_backend_packet p (try_enqueue_all xs b)))) =
      qitems (iqueue b Control)"
proof -
  have len: "length (bi_queues b) = 4" using assms(1) by (simp add: ingress_inv_def)
  have all: "ingress_inv (try_enqueue_all xs b)"
    using assms(1) unfolding try_enqueue_all_def
    by (induction xs arbitrary: b) (auto simp: try_enqueue_inv)
  then have inv: "ingress_inv (admit_backend_packet p (try_enqueue_all xs b))" by (rule admit_inv)
  from all have "iqueue (admit_backend_packet p (try_enqueue_all xs b)) Control =
      iqueue (try_enqueue_all xs b) Control"
    by (intro admit_other) (simp_all add: ingress_inv_def)
  also have "\<dots> = iqueue b Control" using try_enqueue_all_other [OF len assms(2)] by simp
  finally show ?thesis
    using drain_for_tick_spec(1) [of "admit_backend_packet p (try_enqueue_all xs b)"] inv
    by (simp add: ingress_inv_def)
qed

theorem control_isolated_witness:
  "\<exists>b. ingress_new tiny_fixture = Inr b \<and>
     dt_control (fst (drain_for_tick (admit_backend_packet packet_default
       (try_enqueue_all [(Telemetry, packet_default), (Telemetry, packet_default)] b)))) = []"
proof -
  obtain b where b: "ingress_new tiny_fixture = Inr b"
    using validate_defaults(2) by (auto simp: ingress_new_def Let_def)
  have "qitems (iqueue b Control) = []"
    using ingress_new_inv(4) [OF b] by (simp add: qitems_def queue_new_def)
  with control_isolated [OF ingress_new_inv(1) [OF b],
      of "[(Telemetry, packet_default), (Telemetry, packet_default)]" packet_default] b
  show ?thesis by auto
qed

text \<open>
  After \<open>shutdown\<close> every enqueue, whatever ran in between, answers \<open>Shutdown\<close> and adds
  nothing, while packets queued before it can still be drained.
\<close>

theorem shutdown_refuses:
  assumes "ingress_inv b"
  shows "fst (try_enqueue cls p (fold ingress_step es (ingress_shutdown b))) = Shutdown \<and>
    qitems (iqueue (snd (try_enqueue cls p (fold ingress_step es (ingress_shutdown b)))) d) =
      qitems (iqueue (fold ingress_step es (ingress_shutdown b)) d) \<and>
    dt_control (fst (drain_for_tick (ingress_shutdown b))) = qitems (iqueue b Control)"
proof -
  have len: "length (bi_queues b) = 4" using assms by (simp add: ingress_inv_def)
  have c: "ingress_closed (fold ingress_step es (ingress_shutdown b))"
    by (rule ingress_close.run_tripped) (rule ingress_shutdown_closed [OF len])
  have "dt_control (fst (drain_for_tick (ingress_shutdown b))) = qitems (iqueue b Control)"
    using drain_for_tick_spec(1) [of "ingress_shutdown b"] len
      ingress_shutdown_closed [OF len] by (simp add: ingress_closed_def cq.close_items)
  with try_enqueue_closed [OF c] show ?thesis by simp
qed

theorem shutdown_refuses_witness:
  "\<exists>b. ingress_new ingress_config_default = Inr b \<and>
     fst (try_enqueue Control packet_default (fold ingress_step [IngDrain] (ingress_shutdown b))) = Shutdown"
proof -
  obtain b where b: "ingress_new ingress_config_default = Inr b"
    using validate_defaults(1) by (auto simp: ingress_new_def Let_def)
  with shutdown_refuses [OF ingress_new_inv(1) [OF b], of Control packet_default "[IngDrain]"]
  show ?thesis by blast
qed

text \<open>
  A backend packet admitted to empty, open queues and drained in the same tick reaches the
  network unchanged, except that an empty modulator vector becomes none and that a packet
  without stimuli loses its metadata.
\<close>

theorem admit_drain_roundtrip:
  assumes "ingress_inv b" and "ingress_empty_open b" and "packet_fits (bi_config b) p"
  shows "into_packet (fst (drain_for_tick (admit_backend_packet p b))) = tick_view p"
  by (rule admit_drain_view [OF assms])

theorem admit_drain_roundtrip_witness:
  "\<exists>b. ingress_new ingress_config_default = Inr b \<and>
     into_packet (fst (drain_for_tick (admit_backend_packet
       (packet_default\<lparr>ip_stimuli := [f_one], ip_modulators := Some [f_zero], ip_batch_id := Some 7\<rparr>) b))) =
     packet_default\<lparr>ip_stimuli := [f_one], ip_modulators := Some [f_zero], ip_batch_id := Some 7\<rparr>"
proof -
  obtain b where b: "ingress_new ingress_config_default = Inr b"
    using validate_defaults(1) by (auto simp: ingress_new_def Let_def)
  let ?p = "packet_default\<lparr>ip_stimuli := [f_one], ip_modulators := Some [f_zero], ip_batch_id := Some 7\<rparr>"
  have "ingress_empty_open b" by (rule ingress_new_empty [OF b])
  moreover have "packet_fits (bi_config b) ?p"
    using ingress_new_inv(2) [OF b] by (simp add: packet_fits_def packet_default_def ingress_config_default_def)
  ultimately show ?thesis
    using admit_drain_roundtrip [OF ingress_new_inv(1) [OF b], of ?p] b
    by (auto simp: tick_view_def)
qed

end
