(* ===== verification/Ingress_Shutdown.thy ===== *)
theory Ingress_Shutdown
  imports Ingress
begin

text \<open>
  \<open>BoundedIngress::push\<close> and \<open>BoundedIngress::shutdown\<close> (\<open>src/ingress/mod.rs\<close>) at the
  granularity at which they can interleave. A producer first reads \<open>shutting_down\<close> and then
  takes the class queue's mutex; \<open>shutdown\<close> first sets the flag and then closes the four
  queues one after the other. Each rule below is one of these atomic actions. Blocking waits
  are left to the queue theory: producers use \<open>try_enqueue\<close> here, as the tick loop does.
\<close>

datatype producer_pc = PStart | PChecked | PDone enqueue_outcome

record producer =
  pr_class :: message_class
  pr_packet :: ingress_packet
  pr_pc :: producer_pc

text \<open>\<open>cs_shut = None\<close> before the flag is stored, \<open>Some n\<close> when \<open>n\<close> queues are closed.\<close>

record conc =
  cs_ing :: bounded_ingress
  cs_shut :: "nat option"
  cs_prods :: "producer list"

definition set_pc :: "nat \<Rightarrow> producer_pc \<Rightarrow> conc \<Rightarrow> conc" where
  "set_pc i pc s = s\<lparr>cs_prods := (cs_prods s)[i := (cs_prods s ! i)\<lparr>pr_pc := pc\<rparr>]\<rparr>"

definition close_nth :: "nat \<Rightarrow> bounded_ingress \<Rightarrow> bounded_ingress" where
  "close_nth n b = b\<lparr>bi_queues := (bi_queues b)[n := qclose (bi_queues b ! n)]\<rparr>"

inductive conc_step :: "conc \<Rightarrow> conc \<Rightarrow> bool" where
  check_open: "i < length (cs_prods s) \<Longrightarrow> pr_pc (cs_prods s ! i) = PStart \<Longrightarrow>
    \<not> bi_shutting_down (cs_ing s) \<Longrightarrow> conc_step s (set_pc i PChecked s)"
| check_refused: "i < length (cs_prods s) \<Longrightarrow> pr_pc (cs_prods s ! i) = PStart \<Longrightarrow>
    bi_shutting_down (cs_ing s) \<Longrightarrow> pr_class (cs_prods s ! i) = cls \<Longrightarrow>
    qrefuse_closed (iqueue (cs_ing s) cls) = (r, q) \<Longrightarrow>
    conc_step s (set_pc i (PDone r) (s\<lparr>cs_ing := set_queue cls q (cs_ing s)\<rparr>))"
| push_queue: "i < length (cs_prods s) \<Longrightarrow> pr_pc (cs_prods s ! i) = PChecked \<Longrightarrow>
    pr_class (cs_prods s ! i) = cls \<Longrightarrow>
    queue_try_push (pr_packet (cs_prods s ! i)) (iqueue (cs_ing s) cls) = (r, q) \<Longrightarrow>
    conc_step s (set_pc i (PDone r) (s\<lparr>cs_ing := set_queue cls q (cs_ing s)\<rparr>))"
| set_flag: "cs_shut s = None \<Longrightarrow>
    conc_step s (s\<lparr>cs_ing := (cs_ing s)\<lparr>bi_shutting_down := True\<rparr>, cs_shut := Some 0\<rparr>)"
| close_queue: "cs_shut s = Some n \<Longrightarrow> n < 4 \<Longrightarrow>
    conc_step s (s\<lparr>cs_ing := close_nth n (cs_ing s), cs_shut := Some (Suc n)\<rparr>)"

inductive conc_run :: "conc \<Rightarrow> conc \<Rightarrow> bool" where
  conc_refl: "conc_run s s"
| conc_more: "conc_run s t \<Longrightarrow> conc_step t u \<Longrightarrow> conc_run s u"

text \<open>The queues the shutdown thread has passed are closed, and the flag is up with it.\<close>

definition conc_inv :: "conc \<Rightarrow> bool" where
  "conc_inv s \<longleftrightarrow>
     ingress_inv (cs_ing s) \<and>
     (bi_shutting_down (cs_ing s) \<longleftrightarrow> cs_shut s \<noteq> None) \<and>
     (\<forall>n cls. cs_shut s = Some n \<longrightarrow> class_index cls < n \<longrightarrow> qclosed (iqueue (cs_ing s) cls))"

lemma set_pc_frame [simp]:
  "cs_ing (set_pc i pc s) = cs_ing s" "cs_shut (set_pc i pc s) = cs_shut s"
  "length (cs_prods (set_pc i pc s)) = length (cs_prods s)"
  by (simp_all add: set_pc_def)

lemma iqueue_close_nth [simp]:
  "length (bi_queues b) = 4 \<Longrightarrow> iqueue (close_nth n b) cls =
     (if class_index cls = n then qclose (iqueue b cls) else iqueue b cls)"
  by (auto simp: iqueue_def close_nth_def nth_list_update)

lemma qclose_static: "queue_matches c cls (qclose q) = queue_matches c cls q"
  by (simp add: queue_matches_def qclose_def)

lemma close_nth_inv: "ingress_inv b \<Longrightarrow> ingress_inv (close_nth n b)"
  by (auto simp: ingress_inv_def qclose_static cq.inv_kept) (simp_all add: close_nth_def)

lemma set_flag_inv: "ingress_inv (b\<lparr>bi_shutting_down := f\<rparr>) = ingress_inv b"
  by (simp add: ingress_inv_def iqueue_def)

lemma set_queue_op_inv:
  assumes "ingress_inv b"
  shows "ingress_inv (set_queue cls (snd (queue_try_push p (iqueue b cls))) b)"
    and "ingress_inv (set_queue cls (snd (qrefuse_closed (iqueue b cls))) b)"
proof -
  from assms have "qinv (iqueue b cls)" by (simp add: ingress_inv_def)
  with assms show "ingress_inv (set_queue cls (snd (queue_try_push p (iqueue b cls))) b)"
    and "ingress_inv (set_queue cls (snd (qrefuse_closed (iqueue b cls))) b)"
    by (simp_all add: ingress_inv_set_queue cq.inv_kept)
qed

lemma qrefuse_closed_frame [simp]: "qclosed (snd (qrefuse_closed q)) = qclosed q"
  "qitems (snd (qrefuse_closed q)) = qitems q" "fst (qrefuse_closed q) = Shutdown"
  by (simp_all add: qrefuse_closed_def queue_refuse_closed_def refuse_shutdown_def qclosed_def qitems_def)

lemma conc_step_inv: "conc_step s t \<Longrightarrow> conc_inv s \<Longrightarrow> conc_inv t"
proof (induction rule: conc_step.induct)
  case (check_open i s)
  then show ?case by (simp add: conc_inv_def)
next
  case (check_refused i s cls r q)
  then have q: "q = snd (qrefuse_closed (iqueue (cs_ing s) cls))" by simp
  from check_refused.prems set_queue_op_inv(2) [of "cs_ing s" cls] show ?case
    by (auto simp: conc_inv_def q) (auto simp: ingress_inv_def)
next
  case (push_queue i s cls r q)
  then have q: "q = snd (queue_try_push (pr_packet (cs_prods s ! i)) (iqueue (cs_ing s) cls))" by simp
  from push_queue.prems set_queue_op_inv(1) [of "cs_ing s" cls] show ?case
    by (auto simp: conc_inv_def q) (auto simp: ingress_inv_def cq.closed_kept)
next
  case (set_flag s)
  then show ?case by (simp add: conc_inv_def set_flag_inv)
next
  case (close_queue s n)
  then have "length (bi_queues (cs_ing s)) = 4" by (simp add: conc_inv_def ingress_inv_def)
  with close_queue show ?case
    by (auto simp: conc_inv_def close_nth_inv cq.close_items less_Suc_eq)
      (simp add: close_nth_def)
qed

lemma conc_run_inv: "conc_run s t \<Longrightarrow> conc_inv s \<Longrightarrow> conc_inv t"
  by (induction rule: conc_run.induct) (auto intro: conc_step_inv)

text \<open>Once all four queues are closed, a step leaves every queue's items alone.\<close>

lemma conc_step_done:
  assumes "conc_step s t" and "conc_inv s" and "cs_shut s = Some 4"
  shows "cs_shut t = Some 4 \<and> qitems (iqueue (cs_ing t) d) = qitems (iqueue (cs_ing s) d)"
proof -
  from assms(2,3) have len: "length (bi_queues (cs_ing s)) = 4" and
    cl: "qclosed (iqueue (cs_ing s) cls)" for cls
    by (simp_all add: conc_inv_def ingress_inv_def)
  from assms(1) show ?thesis
  proof cases
    case (check_refused i cls r q)
    then have "qitems q = qitems (iqueue (cs_ing s) cls)"
      using qrefuse_closed_frame(2) [of "iqueue (cs_ing s) cls"] by simp
    with check_refused len assms(3) show ?thesis by simp
  next
    case (push_queue i cls r q)
    then have "qitems q = qitems (iqueue (cs_ing s) cls)"
      using cq.push_refused [OF cq.push_closed [OF cl], of "pr_packet (cs_prods s ! i)" cls] by simp
    with push_queue len assms(3) show ?thesis by simp
  qed (use assms(3) in auto)
qed


definition race_start :: "bounded_ingress \<Rightarrow> conc" where
  "race_start b =
     \<lparr> cs_ing = b, cs_shut = None,
       cs_prods = [\<lparr> pr_class = Telemetry, pr_packet = packet_default, pr_pc = PStart \<rparr>] \<rparr>"

lemma race_start_inv: "ingress_new c = Inr b \<Longrightarrow> conc_inv (race_start b)"
  using ingress_new_inv [of c b] by (simp add: conc_inv_def race_start_def)


text \<open>
  A producer that read the flag before \<open>shutdown\<close> stored it can still land on a class
  whose queue is not closed yet, after another class has been closed: setting the flag
  first does not rule this race out, the per-queue close does.
\<close>

theorem racing_producer_can_land:
  "\<exists>b s t. ingress_new tiny_fixture = Inr b \<and> conc_run (race_start b) s \<and>
     cs_shut s = Some 1 \<and> qclosed (iqueue (cs_ing s) Sensory) \<and> conc_step s t \<and>
     pr_pc (cs_prods t ! 0) = PDone (Accepted 1) \<and>
     qitems (iqueue (cs_ing t) Telemetry) = [packet_default]"
proof -
  obtain b where b: "ingress_new tiny_fixture = Inr b"
    using validate_defaults(2) by (auto simp: ingress_new_def Let_def)
  note b' = ingress_new_inv [OF b]
  have len: "length (bi_queues b) = 4" using b'(1) by (simp add: ingress_inv_def)
  let ?s1 = "set_pc 0 PChecked (race_start b)"
  let ?s2 = "?s1\<lparr>cs_ing := (cs_ing ?s1)\<lparr>bi_shutting_down := True\<rparr>, cs_shut := Some 0\<rparr>"
  let ?s3 = "?s2\<lparr>cs_ing := close_nth 0 (cs_ing ?s2), cs_shut := Some (Suc 0)\<rparr>"
  have "conc_step (race_start b) ?s1"
    by (rule check_open) (simp_all add: race_start_def b'(3))
  then have "conc_run (race_start b) ?s1" by (rule conc_more [OF conc_refl])
  moreover have "conc_step ?s1 ?s2" by (rule set_flag) (simp add: race_start_def)
  moreover have "conc_step ?s2 ?s3" by (rule close_queue) simp_all
  ultimately have run: "conc_run (race_start b) ?s3" by (blast intro: conc_more)
  have q: "iqueue (b\<lparr>bi_shutting_down := True\<rparr>) c = iqueue b c" for c by (simp add: iqueue_def)
  have tel: "iqueue (cs_ing ?s3) Telemetry = iqueue b Telemetry"
    using len by (simp add: race_start_def q)
  let ?r = "queue_try_push packet_default (iqueue b Telemetry)"
  let ?t = "set_pc 0 (PDone (fst ?r)) (?s3\<lparr>cs_ing := set_queue Telemetry (snd ?r) (cs_ing ?s3)\<rparr>)"
  have step: "conc_step ?s3 ?t"
    by (rule push_queue [where cls = Telemetry]) (use tel in \<open>simp_all add: race_start_def set_pc_def\<close>)
  have fits: "\<not> payload_too_large (iqueue b Telemetry) packet_default"
    by (simp add: payload_too_large_def packet_default_def)
  have "qitems (snd ?r) = [packet_default]" "fst ?r = Accepted 1"
    using queue_push_empty [OF fits] b'(1) ingress_new_empty [OF b]
    by (simp_all add: ingress_empty_open_def ingress_inv_def)
  moreover have "qclosed (iqueue (cs_ing ?s3) Sensory)"
    using len by (simp add: race_start_def cq.close_items)
  moreover have "length (bi_queues (cs_ing ?s3)) = 4" using len by (simp add: race_start_def close_nth_def)
  ultimately show ?thesis
    using b run step
    by (intro exI [of _ b] exI [of _ ?s3] exI [of _ ?t]) (simp add: set_pc_def race_start_def)
qed

end
