(* ===== verification/Health_Types.thy ===== *)
theory Health_Types
  imports Floats
begin

text \<open>
  \<open>src/health/snapshot.rs\<close>: phases, reason and fatal codes, the runtime counters with
  their field-wise maximum, the snapshot a supervisor reads, and its Prometheus text
  exposition, written out byte for byte.
\<close>

section \<open>Codes\<close>

datatype health_phase = Starting | LoadingCheckpoint | Running | Degraded | Draining | Fatal

definition phase_all :: "health_phase list" where
  "phase_all = [Starting, LoadingCheckpoint, Running, Degraded, Draining, Fatal]"

fun phase_as_str :: "health_phase \<Rightarrow> string" where
  "phase_as_str Starting = ''starting''"
| "phase_as_str LoadingCheckpoint = ''loading_checkpoint''"
| "phase_as_str Running = ''running''"
| "phase_as_str Degraded = ''degraded''"
| "phase_as_str Draining = ''draining''"
| "phase_as_str Fatal = ''fatal''"

datatype reason_code =
  RStarting | RCheckpointPending | RStaleInput | ROverload | RDraining | RFatal

definition recoverable :: "reason_code list" where
  "recoverable = [RStaleInput, ROverload]"

fun reason_as_str :: "reason_code \<Rightarrow> string" where
  "reason_as_str RStarting = ''starting''"
| "reason_as_str RCheckpointPending = ''checkpoint_pending''"
| "reason_as_str RStaleInput = ''stale_input''"
| "reason_as_str ROverload = ''overload''"
| "reason_as_str RDraining = ''draining''"
| "reason_as_str RFatal = ''fatal''"

datatype fatal_code = InitializationFailed | CheckpointInvalid | Unspecified

fun fatal_as_str :: "fatal_code \<Rightarrow> string" where
  "fatal_as_str InitializationFailed = ''initialization_failed''"
| "fatal_as_str CheckpointInvalid = ''checkpoint_invalid''"
| "fatal_as_str Unspecified = ''unspecified''"

section \<open>Snapshot data\<close>

record checkpoint_identity =
  ci_id :: string
  ci_digest :: "string option"

record fatal_state =
  fs_code :: fatal_code
  fs_detail :: string

record input_freshness =
  if_age_ms :: "u64 option"
  if_stale :: bool

record queue_pressure =
  qp_depth :: u64
  qp_capacity :: u64
  qp_ratio :: "f64 option"
  qp_overloaded :: bool

record runtime_counters =
  rc_ticks :: u64
  rc_accepted_batches :: u64
  rc_rejected_batches :: u64
  rc_receive_errors :: u64
  rc_emit_errors :: u64
  rc_dropped_spikes :: u64
  rc_diagnostic_emissions :: u64
  rc_suppressed_diagnostics :: u64

definition counters_default :: runtime_counters where
  "counters_default =
     \<lparr> rc_ticks = 0, rc_accepted_batches = 0, rc_rejected_batches = 0, rc_receive_errors = 0,
       rc_emit_errors = 0, rc_dropped_spikes = 0, rc_diagnostic_emissions = 0,
       rc_suppressed_diagnostics = 0 \<rparr>"

definition merged_monotonic :: "runtime_counters \<Rightarrow> runtime_counters \<Rightarrow> runtime_counters" where
  "merged_monotonic self nxt =
     \<lparr> rc_ticks = max (rc_ticks self) (rc_ticks nxt),
       rc_accepted_batches = max (rc_accepted_batches self) (rc_accepted_batches nxt),
       rc_rejected_batches = max (rc_rejected_batches self) (rc_rejected_batches nxt),
       rc_receive_errors = max (rc_receive_errors self) (rc_receive_errors nxt),
       rc_emit_errors = max (rc_emit_errors self) (rc_emit_errors nxt),
       rc_dropped_spikes = max (rc_dropped_spikes self) (rc_dropped_spikes nxt),
       rc_diagnostic_emissions =
         max (rc_diagnostic_emissions self) (rc_diagnostic_emissions nxt),
       rc_suppressed_diagnostics =
         max (rc_suppressed_diagnostics self) (rc_suppressed_diagnostics nxt) \<rparr>"

record health_snapshot =
  sn_live :: bool
  sn_ready :: bool
  sn_phase :: health_phase
  sn_reasons :: "reason_code list"
  sn_last_successful_tick_ms :: "u64 option"
  sn_tick_age_ms :: "u64 option"
  sn_checkpoint :: "checkpoint_identity option"
  sn_input_freshness :: input_freshness
  sn_queue_pressure :: queue_pressure
  sn_fatal :: "fatal_state option"
  sn_counters :: runtime_counters
  sn_observed_at_ms :: u64

section \<open>Prometheus text\<close>

definition nl :: string where
  "nl = [CHR 0x0A]"

definition dquote :: string where
  "dquote = [CHR 0x22]"

definition show_bool01 :: "bool \<Rightarrow> string" where
  "show_bool01 b = (if b then ''1'' else ''0'')"

definition counter_metrics :: "runtime_counters \<Rightarrow> (string \<times> string \<times> u64) list" where
  "counter_metrics c =
     [ (''brainstem_ticks_total'', ''Ticks that stepped the network.'', rc_ticks c),
       (''brainstem_accepted_batches_total'', ''Backend batches accepted into ingress.'',
        rc_accepted_batches c),
       (''brainstem_rejected_batches_total'',
        ''Batches rejected (backend-flagged, receive failure, or non-finite).'',
        rc_rejected_batches c),
       (''brainstem_receive_errors_total'',
        ''Backend receive failures, including rate-limited repeats.'', rc_receive_errors c),
       (''brainstem_emit_errors_total'',
        ''Spike emission failures, including rate-limited repeats.'', rc_emit_errors c),
       (''brainstem_dropped_spikes_total'',
        ''Spikes discarded because their IDs did not fit the wire type.'', rc_dropped_spikes c),
       (''brainstem_diagnostic_emissions_total'',
        ''Tick diagnostics emitted after rate limiting.'', rc_diagnostic_emissions c),
       (''brainstem_suppressed_diagnostics_total'',
        ''Recurring diagnostic occurrences suppressed by rate limiting.'',
        rc_suppressed_diagnostics c) ]"

definition push_metric_header :: "string \<Rightarrow> string \<Rightarrow> string \<Rightarrow> string \<Rightarrow> string" where
  "push_metric_header out nm help kind =
     out @ ''# HELP '' @ nm @ '' '' @ help @ nl @ ''# TYPE '' @ nm @ '' '' @ kind @ nl"

definition push_sample :: "string \<Rightarrow> string \<Rightarrow> string \<Rightarrow> string" where
  "push_sample out nm v = out @ nm @ '' '' @ v @ nl"

definition push_gauge :: "string \<Rightarrow> string \<Rightarrow> string \<Rightarrow> string \<Rightarrow> string" where
  "push_gauge out nm help v = push_sample (push_metric_header out nm help ''gauge'') nm v"

definition push_optional_gauge :: "string \<Rightarrow> string \<Rightarrow> string \<Rightarrow> u64 option \<Rightarrow> string" where
  "push_optional_gauge out nm help v =
     (case v of Some x \<Rightarrow> push_gauge out nm help (show_u64 x)
              | None \<Rightarrow> push_gauge out nm help ''NaN'')"

definition write_probe_gauges :: "string \<Rightarrow> health_snapshot \<Rightarrow> string" where
  "write_probe_gauges out snap =
     (let out = push_gauge out ''brainstem_live''
                  ''1 if the process health reporter is running.'' (show_bool01 (sn_live snap))
      in push_gauge out ''brainstem_ready''
           ''1 if initialized, checkpoint-valid, not draining, not fatal.''
           (show_bool01 (sn_ready snap)))"

definition phase_gauge_line :: "health_phase \<Rightarrow> health_phase \<Rightarrow> string" where
  "phase_gauge_line current phase =
     ''brainstem_phase{phase='' @ dquote @ phase_as_str phase @ dquote @ ''} ''
       @ show_bool01 (current = phase) @ nl"

definition write_phase_gauges :: "string \<Rightarrow> health_phase \<Rightarrow> string" where
  "write_phase_gauges out current = foldl (\<lambda>acc p. acc @ phase_gauge_line current p) out phase_all"

definition degraded_gauge_line :: "reason_code list \<Rightarrow> reason_code \<Rightarrow> string" where
  "degraded_gauge_line reasons reason =
     ''brainstem_degraded{reason='' @ dquote @ reason_as_str reason @ dquote @ ''} ''
       @ show_bool01 (reason \<in> set reasons) @ nl"

definition write_degraded_gauges :: "string \<Rightarrow> reason_code list \<Rightarrow> string" where
  "write_degraded_gauges out reasons =
     foldl (\<lambda>acc r. acc @ degraded_gauge_line reasons r) out recoverable"

definition write_labeled_gauges :: "string \<Rightarrow> health_snapshot \<Rightarrow> string" where
  "write_labeled_gauges out snap =
     (let out = out @ ''# HELP brainstem_phase 1 for the current health phase.'' @ nl;
          out = out @ ''# TYPE brainstem_phase gauge'' @ nl;
          out = write_phase_gauges out (sn_phase snap);
          out = out @ ''# HELP brainstem_degraded Recoverable degradation by stable reason code.'' @ nl;
          out = out @ ''# TYPE brainstem_degraded gauge'' @ nl
      in write_degraded_gauges out (sn_reasons snap))"

definition write_runtime_gauges :: "string \<Rightarrow> health_snapshot \<Rightarrow> string" where
  "write_runtime_gauges out snap =
     (let out = push_gauge out ''brainstem_fatal''
                  ''1 if this process has entered a sticky fatal state.''
                  (show_bool01 (sn_fatal snap \<noteq> None));
          out = push_optional_gauge out ''brainstem_last_successful_tick_ms''
                  ''Milliseconds from process start until the last successful tick (not tick age); NaN if none yet.''
                  (sn_last_successful_tick_ms snap);
          out = push_optional_gauge out ''brainstem_tick_age_ms''
                  ''Milliseconds since the last successful tick; NaN if none yet.''
                  (sn_tick_age_ms snap);
          out = push_optional_gauge out ''brainstem_input_age_ms''
                  ''Age of last ingress (or checkpoint, if none) in milliseconds; NaN if none yet.''
                  (if_age_ms (sn_input_freshness snap));
          out = push_gauge out ''brainstem_queue_depth'' ''Ingress queue depth.''
                  (show_u64 (qp_depth (sn_queue_pressure snap)))
      in push_gauge out ''brainstem_queue_capacity'' ''Ingress queue capacity.''
           (show_u64 (qp_capacity (sn_queue_pressure snap))))"

definition write_runtime_counters :: "string \<Rightarrow> runtime_counters \<Rightarrow> string" where
  "write_runtime_counters out c =
     foldl (\<lambda>acc (nm, help, v). push_sample (push_metric_header acc nm help ''counter'') nm (show_u64 v))
       out (counter_metrics c)"

definition prometheus_text :: "health_snapshot \<Rightarrow> string" where
  "prometheus_text snap =
     (let out = [];
          out = write_probe_gauges out snap;
          out = write_labeled_gauges out snap;
          out = write_runtime_gauges out snap
      in write_runtime_counters out (sn_counters snap))"

section \<open>Lemmas\<close>

definition counters_le :: "runtime_counters \<Rightarrow> runtime_counters \<Rightarrow> bool" where
  "counters_le a b \<longleftrightarrow>
     rc_ticks a \<le> rc_ticks b \<and> rc_accepted_batches a \<le> rc_accepted_batches b \<and>
     rc_rejected_batches a \<le> rc_rejected_batches b \<and> rc_receive_errors a \<le> rc_receive_errors b \<and>
     rc_emit_errors a \<le> rc_emit_errors b \<and> rc_dropped_spikes a \<le> rc_dropped_spikes b \<and>
     rc_diagnostic_emissions a \<le> rc_diagnostic_emissions b \<and>
     rc_suppressed_diagnostics a \<le> rc_suppressed_diagnostics b"

lemma counters_le_refl [simp]: "counters_le a a"
  by (simp add: counters_le_def)

lemma counters_le_trans: "counters_le a b \<Longrightarrow> counters_le b c \<Longrightarrow> counters_le a c"
  by (auto simp: counters_le_def)

lemma merged_monotonic_upper:
  "counters_le a (merged_monotonic a b)" "counters_le b (merged_monotonic a b)"
  by (auto simp: counters_le_def merged_monotonic_def)

lemma merged_monotonic_least:
  "counters_le a c \<Longrightarrow> counters_le b c \<Longrightarrow> counters_le (merged_monotonic a b) c"
  by (auto simp: counters_le_def merged_monotonic_def)

lemma merged_monotonic_commute: "merged_monotonic a b = merged_monotonic b a"
  by (simp add: merged_monotonic_def max.commute)

lemma merged_monotonic_absorb: "counters_le a b \<Longrightarrow> merged_monotonic a b = b"
  by (auto simp: counters_le_def merged_monotonic_def max_def)

lemma phase_as_str_inj: "phase_as_str p = phase_as_str q \<longleftrightarrow> p = q"
  by (cases p; cases q) simp_all

lemma phase_all_complete: "p \<in> set phase_all" and phase_all_distinct: "distinct phase_all"
  by (cases p) (simp_all add: phase_all_def)

text \<open>The fields \<open>prometheus_text\<close> does not read.\<close>

lemma prometheus_text_cong:
  assumes "sn_live s = sn_live t" "sn_ready s = sn_ready t" "sn_phase s = sn_phase t"
    "sn_reasons s = sn_reasons t"
    "sn_last_successful_tick_ms s = sn_last_successful_tick_ms t"
    "sn_tick_age_ms s = sn_tick_age_ms t"
    "if_age_ms (sn_input_freshness s) = if_age_ms (sn_input_freshness t)"
    "qp_depth (sn_queue_pressure s) = qp_depth (sn_queue_pressure t)"
    "qp_capacity (sn_queue_pressure s) = qp_capacity (sn_queue_pressure t)"
    "(sn_fatal s = None) = (sn_fatal t = None)"
    "sn_counters s = sn_counters t"
  shows "prometheus_text s = prometheus_text t"
  using assms
  by (simp only: prometheus_text_def write_probe_gauges_def write_labeled_gauges_def
      write_runtime_gauges_def Let_def)

lemma write_phase_gauges_eq:
  "write_phase_gauges out current = out @ concat (map (phase_gauge_line current) phase_all)"
proof -
  have "foldl (\<lambda>acc p. acc @ f p) out ps = out @ concat (map f ps)" for f :: "health_phase \<Rightarrow> string" and ps
    by (induction ps arbitrary: out) simp_all
  then show ?thesis by (simp add: write_phase_gauges_def)
qed

text \<open>
  The metrics text never discloses error details or the checkpoint path: two snapshots
  that differ only in the fatal detail and code and in the checkpoint identity give the
  same bytes, and exactly one phase gauge shows 1.
\<close>

theorem prometheus_text_private:
  "prometheus_text (s\<lparr>sn_fatal := Some f, sn_checkpoint := c\<rparr>) =
     prometheus_text (s\<lparr>sn_fatal := Some f', sn_checkpoint := c'\<rparr>) \<and>
   write_phase_gauges out p =
     out @ concat (map (\<lambda>q. ''brainstem_phase{phase='' @ dquote @ phase_as_str q @ dquote @ ''} ''
       @ (if q = p then ''1'' else ''0'') @ nl) phase_all) \<and>
   length (filter (\<lambda>q. q = p) phase_all) = 1"
proof (intro conjI)
  show "prometheus_text (s\<lparr>sn_fatal := Some f, sn_checkpoint := c\<rparr>) =
     prometheus_text (s\<lparr>sn_fatal := Some f', sn_checkpoint := c'\<rparr>)"
    by (rule prometheus_text_cong) simp_all
  have "phase_gauge_line p = (\<lambda>q. ''brainstem_phase{phase='' @ dquote @ phase_as_str q @ dquote @ ''} ''
       @ (if q = p then ''1'' else ''0'') @ nl)"
    by (rule ext) (auto simp: phase_gauge_line_def show_bool01_def)
  then show "write_phase_gauges out p =
     out @ concat (map (\<lambda>q. ''brainstem_phase{phase='' @ dquote @ phase_as_str q @ dquote @ ''} ''
       @ (if q = p then ''1'' else ''0'') @ nl) phase_all)"
    by (simp only: write_phase_gauges_eq)
  show "length (filter (\<lambda>q. q = p) phase_all) = 1"
    by (cases p) (simp_all add: phase_all_def)
qed

end
