(* ===== verification/Health.thy ===== *)
theory Health
  imports Health_Types "HOL-Library.Sublist"
begin

text \<open>
  \<open>src/health/machine.rs\<close>, \<open>clock.rs\<close> and \<open>handle.rs\<close>: the health state machine, its
  clock and the lock-protected handle. The clock reading that \<open>apply\<close> and \<open>snapshot\<close>
  take from \<open>self.clock.now()\<close> is an argument; the pending lock of the handle is a flag.
\<close>

section \<open>Clock\<close>

record fake_clock =
  fc_origin :: instant
  fc_offset_nanos :: u64

definition fake_clock_advance :: "fake_clock \<Rightarrow> duration \<Rightarrow> fake_clock" where
  "fake_clock_advance c d =
     (let add = u64_clamp d in c\<lparr>fc_offset_nanos := sat_add (fc_offset_nanos c) add\<rparr>)"

definition fake_clock_now :: "fake_clock \<Rightarrow> instant" where
  "fake_clock_now c = fc_origin c + unat (fc_offset_nanos c)"

section \<open>Limits\<close>

record health_limits =
  hl_stale_after :: duration
  hl_overload_high :: f64
  hl_overload_low :: f64

definition health_limits_default :: health_limits where
  "health_limits_default =
     \<lparr> hl_stale_after = 500 * 1000000, hl_overload_high = f64_lit (90 / 100),
       hl_overload_low = f64_lit (70 / 100) \<rparr>"

definition finite_or :: "f64 \<Rightarrow> f64 \<Rightarrow> f64" where
  "finite_or v fallback = (if is_finite v then v else fallback)"

definition in_unit :: "f64 \<Rightarrow> bool" where
  "in_unit v \<longleftrightarrow> f_le f_zero v \<and> f_le v f_one"

definition sanitized :: "health_limits \<Rightarrow> health_limits" where
  "sanitized l =
     (let high = finite_or (hl_overload_high l) (f64_lit (90 / 100));
          low = finite_or (hl_overload_low l) (f64_lit (70 / 100))
      in if in_unit high \<and> in_unit low \<and> f_lt low high
         then \<lparr> hl_stale_after = hl_stale_after l, hl_overload_high = high, hl_overload_low = low \<rparr>
         else \<lparr> hl_stale_after = hl_stale_after l, hl_overload_high = f64_lit (90 / 100),
                hl_overload_low = f64_lit (70 / 100) \<rparr>)"

section \<open>Machine\<close>

datatype health_event =
    ProcessStarted
  | InitializationCompleted
  | InitializationFailedEv string
  | CheckpointValidated checkpoint_identity
  | CheckpointRejected string
  | TickSucceeded
  | IngressObserved
  | QueuePressure u64 u64
  | CountersPublished runtime_counters
  | BeginDrain
  | FatalEv fatal_code string

record health_machine =
  hm_limits :: health_limits
  hm_started :: bool
  hm_initialized :: bool
  hm_checkpoint_ok :: bool
  hm_draining :: bool
  hm_started_at :: "instant option"
  hm_checkpoint_at :: "instant option"
  hm_last_tick :: "instant option"
  hm_last_ingress :: "instant option"
  hm_checkpoint :: "checkpoint_identity option"
  hm_queue_depth :: u64
  hm_queue_capacity :: u64
  hm_overloaded :: bool
  hm_counters :: runtime_counters
  hm_fatal :: "fatal_state option"

definition health_new :: "health_limits \<Rightarrow> health_machine" where
  "health_new l =
     \<lparr> hm_limits = sanitized l, hm_started = False, hm_initialized = False,
       hm_checkpoint_ok = False, hm_draining = False, hm_started_at = None,
       hm_checkpoint_at = None, hm_last_tick = None, hm_last_ingress = None,
       hm_checkpoint = None, hm_queue_depth = 0, hm_queue_capacity = 0,
       hm_overloaded = False, hm_counters = counters_default, hm_fatal = None \<rparr>"

definition enter_fatal :: "fatal_code \<Rightarrow> string \<Rightarrow> health_machine \<Rightarrow> health_machine" where
  "enter_fatal code detail m =
     (if hm_fatal m \<noteq> None then m
      else m\<lparr>hm_fatal := Some \<lparr> fs_code = code, fs_detail = detail \<rparr>, hm_checkpoint_ok := False\<rparr>)"

definition fatal_if_started :: "fatal_code \<Rightarrow> string \<Rightarrow> health_machine \<Rightarrow> health_machine" where
  "fatal_if_started code detail m = (if hm_started m then enter_fatal code detail m else m)"

definition mark_started :: "instant \<Rightarrow> health_machine \<Rightarrow> health_machine" where
  "mark_started now m =
     (if \<not> hm_started m then m\<lparr>hm_started := True, hm_started_at := Some now\<rparr> else m)"

definition mark_initialized :: "health_machine \<Rightarrow> health_machine" where
  "mark_initialized m =
     (if hm_started m \<and> hm_fatal m = None \<and> \<not> hm_draining m then m\<lparr>hm_initialized := True\<rparr> else m)"

definition apply_boot :: "health_event \<Rightarrow> instant \<Rightarrow> health_machine \<Rightarrow> health_machine" where
  "apply_boot ev now m =
     (case ev of
        ProcessStarted \<Rightarrow> mark_started now m
      | InitializationCompleted \<Rightarrow> mark_initialized m
      | InitializationFailedEv detail \<Rightarrow> fatal_if_started InitializationFailed detail m
      | _ \<Rightarrow> m)"

definition can_accept_checkpoint :: "health_machine \<Rightarrow> bool" where
  "can_accept_checkpoint m \<longleftrightarrow>
     hm_started m \<and> hm_fatal m = None \<and> \<not> hm_draining m \<and> hm_initialized m"

definition apply_checkpoint :: "health_event \<Rightarrow> instant \<Rightarrow> health_machine \<Rightarrow> health_machine" where
  "apply_checkpoint ev now m =
     (case ev of
        CheckpointValidated identity \<Rightarrow>
          (if can_accept_checkpoint m
           then m\<lparr>hm_checkpoint := Some identity, hm_checkpoint_ok := True,
                   hm_checkpoint_at := Some now\<rparr>
           else m)
      | CheckpointRejected detail \<Rightarrow> fatal_if_started CheckpointInvalid detail m
      | _ \<Rightarrow> m)"

definition apply_terminal :: "health_event \<Rightarrow> health_machine \<Rightarrow> health_machine" where
  "apply_terminal ev m =
     (case ev of
        BeginDrain \<Rightarrow> (if hm_fatal m = None then m\<lparr>hm_draining := True\<rparr> else m)
      | FatalEv code detail \<Rightarrow> enter_fatal code detail m
      | _ \<Rightarrow> m)"

definition apply_lifecycle :: "health_event \<Rightarrow> instant \<Rightarrow> health_machine \<Rightarrow> health_machine" where
  "apply_lifecycle ev now m =
     (case ev of
        ProcessStarted \<Rightarrow> apply_boot ev now m
      | InitializationCompleted \<Rightarrow> apply_boot ev now m
      | InitializationFailedEv _ \<Rightarrow> apply_boot ev now m
      | CheckpointValidated _ \<Rightarrow> apply_checkpoint ev now m
      | CheckpointRejected _ \<Rightarrow> apply_checkpoint ev now m
      | BeginDrain \<Rightarrow> apply_terminal ev m
      | FatalEv _ _ \<Rightarrow> apply_terminal ev m
      | _ \<Rightarrow> m)"

definition next_overload :: "bool \<Rightarrow> u64 \<Rightarrow> u64 \<Rightarrow> f64 \<Rightarrow> f64 \<Rightarrow> bool" where
  "next_overload currently depth capacity high low =
     (if capacity = 0 then False
      else let ratio = f64_div (u64_as_f64 depth) (u64_as_f64 capacity)
           in if currently then f_lt low ratio else f_le high ratio)"

definition apply_runtime :: "health_event \<Rightarrow> instant \<Rightarrow> health_machine \<Rightarrow> health_machine" where
  "apply_runtime ev now m =
     (case ev of
        TickSucceeded \<Rightarrow> m\<lparr>hm_last_tick := Some now\<rparr>
      | IngressObserved \<Rightarrow> m\<lparr>hm_last_ingress := Some now\<rparr>
      | CountersPublished nxt \<Rightarrow> m\<lparr>hm_counters := merged_monotonic (hm_counters m) nxt\<rparr>
      | QueuePressure depth capacity \<Rightarrow>
          m\<lparr>hm_queue_depth := depth, hm_queue_capacity := capacity,
            hm_overloaded := next_overload (hm_overloaded m) depth capacity
              (hl_overload_high (hm_limits m)) (hl_overload_low (hm_limits m))\<rparr>
      | _ \<Rightarrow> m)"

definition health_apply :: "health_event \<Rightarrow> instant \<Rightarrow> health_machine \<Rightarrow> health_machine" where
  "health_apply ev now m =
     (case ev of
        TickSucceeded \<Rightarrow> apply_runtime ev now m
      | IngressObserved \<Rightarrow> apply_runtime ev now m
      | QueuePressure _ _ \<Rightarrow> apply_runtime ev now m
      | CountersPublished _ \<Rightarrow> apply_runtime ev now m
      | _ \<Rightarrow> apply_lifecycle ev now m)"

section \<open>Snapshot\<close>

definition duration_ms :: "duration \<Rightarrow> u64" where
  "duration_ms d = u64_clamp (d div 1000000)"

definition hm_is_initialized :: "health_machine \<Rightarrow> bool" where
  "hm_is_initialized m \<longleftrightarrow> hm_started m \<and> hm_initialized m \<and> hm_checkpoint_ok m"

definition hm_is_serving :: "health_machine \<Rightarrow> bool" where
  "hm_is_serving m \<longleftrightarrow> \<not> hm_draining m \<and> hm_fatal m = None"

definition hm_is_ready :: "health_machine \<Rightarrow> bool" where
  "hm_is_ready m \<longleftrightarrow> hm_is_initialized m \<and> hm_is_serving m"

definition input_age_ms :: "instant \<Rightarrow> health_machine \<Rightarrow> u64 option" where
  "input_age_ms now m =
     map_option (\<lambda>t. duration_ms (now - t)) (or_else (hm_last_ingress m) (hm_checkpoint_at m))"

definition queue_ratio :: "health_machine \<Rightarrow> f64 option" where
  "queue_ratio m =
     (if hm_queue_capacity m = 0 then None
      else Some (f64_div (u64_as_f64 (hm_queue_depth m)) (u64_as_f64 (hm_queue_capacity m))))"

definition queue_pressure_of :: "health_machine \<Rightarrow> queue_pressure" where
  "queue_pressure_of m =
     \<lparr> qp_depth = hm_queue_depth m, qp_capacity = hm_queue_capacity m,
       qp_ratio = queue_ratio m, qp_overloaded = hm_overloaded m \<rparr>"

definition boot_reasons :: "health_machine \<Rightarrow> reason_code list" where
  "boot_reasons m =
     (if \<not> hm_initialized m then [RStarting]
      else if \<not> hm_checkpoint_ok m then [RCheckpointPending] else [])"

definition push_runtime_reasons :: "health_machine \<Rightarrow> reason_code list \<Rightarrow> bool \<Rightarrow> reason_code list" where
  "push_runtime_reasons m reasons stale =
     reasons @ (if hm_draining m then [RDraining] else []) @ (if stale then [RStaleInput] else [])
       @ (if hm_overloaded m then [ROverload] else [])"

definition reasons_of :: "health_machine \<Rightarrow> bool \<Rightarrow> reason_code list" where
  "reasons_of m stale =
     (if hm_fatal m \<noteq> None then [RFatal] else push_runtime_reasons m (boot_reasons m) stale)"

definition terminal_phase :: "health_machine \<Rightarrow> health_phase option" where
  "terminal_phase m =
     (if hm_fatal m \<noteq> None then Some Fatal else if hm_draining m then Some Draining else None)"

definition checkpoint_phase :: "health_machine \<Rightarrow> bool \<Rightarrow> health_phase" where
  "checkpoint_phase m stale =
     (if \<not> hm_checkpoint_ok m then LoadingCheckpoint
      else if stale \<or> hm_overloaded m then Degraded else Running)"

definition operational_phase :: "health_machine \<Rightarrow> bool \<Rightarrow> health_phase" where
  "operational_phase m stale = (if \<not> hm_initialized m then Starting else checkpoint_phase m stale)"

definition phase_of :: "health_machine \<Rightarrow> bool \<Rightarrow> health_phase" where
  "phase_of m stale =
     (case terminal_phase m of Some p \<Rightarrow> p | None \<Rightarrow> operational_phase m stale)"

definition compute_stale :: "instant \<Rightarrow> health_machine \<Rightarrow> bool" where
  "compute_stale now m =
     (if \<not> hm_initialized m \<or> \<not> hm_checkpoint_ok m then False
      else case or_else (hm_last_ingress m) (hm_checkpoint_at m) of
             Some baseline \<Rightarrow> now - baseline \<ge> hl_stale_after (hm_limits m)
           | None \<Rightarrow> False)"

definition snapshot :: "instant \<Rightarrow> health_machine \<Rightarrow> health_snapshot" where
  "snapshot now m =
     (let origin = (case hm_started_at m of Some t \<Rightarrow> t | None \<Rightarrow> now);
          ms = (\<lambda>t. duration_ms (t - origin));
          stale = compute_stale now m
      in \<lparr> sn_live = hm_started m, sn_ready = hm_is_ready m, sn_phase = phase_of m stale,
           sn_reasons = reasons_of m stale,
           sn_last_successful_tick_ms = map_option ms (hm_last_tick m),
           sn_tick_age_ms = map_option (\<lambda>t. duration_ms (now - t)) (hm_last_tick m),
           sn_checkpoint = hm_checkpoint m,
           sn_input_freshness = \<lparr> if_age_ms = input_age_ms now m, if_stale = stale \<rparr>,
           sn_queue_pressure = queue_pressure_of m, sn_fatal = hm_fatal m,
           sn_counters = hm_counters m, sn_observed_at_ms = ms now \<rparr>)"

section \<open>Handle\<close>

record health_handle =
  hh_inner :: health_machine
  hh_writer :: bool
  hh_poisoned :: bool

definition handle_from_machine :: "health_machine \<Rightarrow> health_handle" where
  "handle_from_machine m = \<lparr> hh_inner = m, hh_writer = False, hh_poisoned = False \<rparr>"

definition handle_started :: "health_limits \<Rightarrow> instant \<Rightarrow> health_handle" where
  "handle_started l now =
     (let machine = health_apply ProcessStarted now (health_new l) in handle_from_machine machine)"

text \<open>\<open>apply\<close> waits for the write lock; a poisoned lock is entered all the same.\<close>

definition handle_apply :: "health_event \<Rightarrow> instant \<Rightarrow> health_handle \<Rightarrow> health_handle" where
  "handle_apply ev now h = h\<lparr>hh_inner := health_apply ev now (hh_inner h)\<rparr>"

definition handle_snapshot :: "instant \<Rightarrow> health_handle \<Rightarrow> health_snapshot" where
  "handle_snapshot now h = snapshot now (hh_inner h)"

definition try_snapshot :: "instant \<Rightarrow> health_handle \<Rightarrow> health_snapshot option" where
  "try_snapshot now h =
     (if hh_writer h then None
      else if hh_poisoned h then Some (snapshot now (hh_inner h))
      else Some (snapshot now (hh_inner h)))"

section \<open>Step functions over timed events\<close>

definition health_step :: "instant \<times> health_event \<Rightarrow> health_machine \<Rightarrow> health_machine" where
  "health_step te m = health_apply (snd te) (fst te) m"

definition health_run :: "(instant \<times> health_event) list \<Rightarrow> health_machine \<Rightarrow> health_machine" where
  "health_run = fold health_step"

lemmas health_apply_defs =
  health_apply_def apply_runtime_def apply_lifecycle_def apply_boot_def apply_checkpoint_def
  apply_terminal_def mark_started_def mark_initialized_def fatal_if_started_def enter_fatal_def
  can_accept_checkpoint_def

lemmas snapshot_defs =
  snapshot_def phase_of_def terminal_phase_def operational_phase_def checkpoint_phase_def
  reasons_of_def boot_reasons_def push_runtime_reasons_def hm_is_ready_def hm_is_initialized_def
  hm_is_serving_def

section \<open>Limits are always usable\<close>

definition limits_ok :: "health_limits \<Rightarrow> bool" where
  "limits_ok l \<longleftrightarrow> in_unit (hl_overload_high l) \<and> in_unit (hl_overload_low l) \<and>
     f_lt (hl_overload_low l) (hl_overload_high l)"

lemma limits_ok_sanitized: "limits_ok (sanitized l)"
  by (auto simp: sanitized_def limits_ok_def Let_def f64_lit_90 f64_lit_70 in_unit_def f_zero_def
      f_one_def)

lemma sanitized_id: "limits_ok l \<Longrightarrow> sanitized l = l"
proof -
  assume ok: "limits_ok l"
  then have "is_finite (hl_overload_high l)" "is_finite (hl_overload_low l)"
    by (cases "hl_overload_high l"; cases "hl_overload_low l";
        simp add: limits_ok_def in_unit_def f_zero_def f_one_def)+
  with ok show ?thesis by (simp add: sanitized_def limits_ok_def finite_or_def)
qed

section \<open>The well-formedness invariant\<close>

definition health_inv :: "health_machine \<Rightarrow> bool" where
  "health_inv m \<longleftrightarrow>
     limits_ok (hm_limits m) \<and>
     (hm_started m \<longleftrightarrow> hm_started_at m \<noteq> None) \<and>
     (hm_initialized m \<longrightarrow> hm_started m) \<and>
     (hm_checkpoint_ok m \<longrightarrow>
        hm_initialized m \<and> hm_fatal m = None \<and> hm_checkpoint m \<noteq> None \<and>
        hm_checkpoint_at m \<noteq> None)"

lemma health_inv_new: "health_inv (health_new l)"
  by (simp add: health_inv_def health_new_def limits_ok_sanitized)

lemma health_inv_apply: "health_inv m \<Longrightarrow> health_inv (health_apply ev now m)"
  by (cases ev) (auto simp: health_inv_def health_apply_defs)

interpretation health_sys: event_system health_step health_inv
  by unfold_locales (simp add: health_step_def health_inv_apply)

section \<open>Latches\<close>

definition health_terminal :: "health_machine \<Rightarrow> bool" where
  "health_terminal m \<longleftrightarrow> hm_draining m \<or> hm_fatal m \<noteq> None"

lemma health_apply_fatal: "hm_fatal m = Some f \<Longrightarrow> hm_fatal (health_apply ev now m) = Some f"
  by (cases ev) (auto simp: health_apply_defs)

lemma health_apply_draining: "hm_draining m \<Longrightarrow> hm_draining (health_apply ev now m)"
  by (cases ev) (auto simp: health_apply_defs)

lemma health_apply_started: "hm_started m \<Longrightarrow> hm_started (health_apply ev now m)"
  by (cases ev) (auto simp: health_apply_defs)

lemma health_apply_started_at:
  "hm_started m \<Longrightarrow> hm_started_at (health_apply ev now m) = hm_started_at m"
  by (cases ev) (auto simp: health_apply_defs)

lemma health_apply_limits [frame_simps]: "hm_limits (health_apply ev now m) = hm_limits m"
  by (cases ev) (auto simp: health_apply_defs)

interpretation fatal_latch: latched_system health_step "\<lambda>m. hm_fatal m = Some f" for f
  by unfold_locales (simp add: health_step_def health_apply_fatal)

interpretation drain_latch: latched_system health_step hm_draining
  by unfold_locales (simp add: health_step_def health_apply_draining)

interpretation live_latch: latched_system health_step hm_started
  by unfold_locales (simp add: health_step_def health_apply_started)

interpretation terminal_latch: latched_system health_step health_terminal
  by unfold_locales
    (auto simp: health_step_def health_terminal_def health_apply_draining dest: health_apply_fatal)

lemma health_apply_counters:
  "counters_le (hm_counters m) (hm_counters (health_apply ev now m))"
  by (cases ev) (auto simp: health_apply_defs merged_monotonic_upper)

interpretation counters_grow: monotone_system health_step hm_counters counters_le
  by unfold_locales (auto simp: health_step_def health_apply_counters intro: counters_le_trans)

section \<open>Snapshot coherence\<close>

lemma stale_cases:
  "health_inv m \<Longrightarrow> compute_stale now m \<Longrightarrow> hm_initialized m \<and> hm_checkpoint_ok m"
  by (auto simp: compute_stale_def split: if_splits)

lemma ready_phase:
  assumes "health_inv m"
  shows "sn_ready (snapshot now m) \<longleftrightarrow> sn_phase (snapshot now m) \<in> {Running, Degraded}"
  using assms by (auto simp: snapshot_defs Let_def health_inv_def)

lemma snapshot_ready: "sn_ready (snapshot now m) = hm_is_ready m"
  by (simp add: snapshot_def Let_def)

lemma terminal_not_ready: "health_terminal m \<Longrightarrow> \<not> hm_is_ready m"
  by (auto simp: health_terminal_def hm_is_ready_def hm_is_serving_def)

section \<open>Overload hysteresis\<close>

lemma limits_ok_high: "limits_ok l \<Longrightarrow> \<not> f_le (hl_overload_high l) f_zero"
  using f_le_lt_trans f_lt_not_le by (metis in_unit_def limits_ok_def)

lemma next_overload_full:
  assumes "limits_ok l" and "c \<noteq> 0"
  shows "next_overload b c c (hl_overload_high l) (hl_overload_low l)"
  using assms f_lt_le_trans
  by (auto simp: next_overload_def f64_div_self limits_ok_def in_unit_def)

lemma next_overload_empty:
  assumes "limits_ok l"
  shows "\<not> next_overload b 0 c (hl_overload_high l) (hl_overload_low l)"
  using assms limits_ok_high [OF assms] f_lt_not_le
  by (auto simp: next_overload_def f64_div_zero limits_ok_def in_unit_def)

lemma next_overload_mono:
  assumes "d \<le> d'" and "next_overload b d c hi lo"
  shows "next_overload b d' c hi lo"
  using assms f64_div_mono [of d d' c]
  by (auto simp: next_overload_def Let_def split: if_splits
      intro: f_lt_le_trans f_le_trans)

text \<open>Once overloaded, the flag is kept at least as long as it would be entered afresh.\<close>

lemma next_overload_hysteresis:
  assumes "limits_ok l"
    and "next_overload False d c (hl_overload_high l) (hl_overload_low l)"
  shows "next_overload True d c (hl_overload_high l) (hl_overload_low l)"
  using assms f_lt_le_trans
  by (auto simp: next_overload_def limits_ok_def Let_def split: if_splits)

section \<open>The order of start-up\<close>

text \<open>What the flags of a reachable machine say about the events that were applied.\<close>

definition saw :: "(health_event \<Rightarrow> bool) list \<Rightarrow> health_event list \<Rightarrow> bool" where
  "saw ps evs \<longleftrightarrow> (\<exists>xs. subseq xs evs \<and> list_all2 (\<lambda>p x. p x) ps xs)"

fun is_validated :: "health_event \<Rightarrow> bool" where
  "is_validated (CheckpointValidated _) = True"
| "is_validated _ = False"

lemma saw_snoc:
  "saw ps evs \<Longrightarrow> saw ps (evs @ [e])"
  "saw ps evs \<Longrightarrow> p e \<Longrightarrow> saw (ps @ [p]) (evs @ [e])"
proof -
  assume "saw ps evs"
  then obtain xs where xs: "subseq xs evs" "list_all2 (\<lambda>p x. p x) ps xs" by (auto simp: saw_def)
  then have "subseq xs (evs @ [e])" using list_emb_append_mono by (metis append_Nil2 list_emb_Nil)
  with xs(2) show "saw ps (evs @ [e])" by (auto simp: saw_def)
  assume "p e"
  with xs have "subseq (xs @ [e]) (evs @ [e])" "list_all2 (\<lambda>p x. p x) (ps @ [p]) (xs @ [e])"
    by (auto intro: list_all2_appendI)
  then show "saw (ps @ [p]) (evs @ [e])" unfolding saw_def by blast
qed

definition boot_trace :: "health_machine \<Rightarrow> health_event list \<Rightarrow> bool" where
  "boot_trace m evs \<longleftrightarrow>
     (hm_started m \<longrightarrow> saw [(=) ProcessStarted] evs) \<and>
     (hm_initialized m \<longrightarrow> saw [(=) ProcessStarted, (=) InitializationCompleted] evs) \<and>
     (hm_checkpoint_ok m \<longrightarrow>
        saw [(=) ProcessStarted, (=) InitializationCompleted, is_validated] evs) \<and>
     (hm_draining m \<or> BeginDrain \<notin> set evs \<or> hm_fatal m \<noteq> None)"

lemma boot_trace_step:
  assumes "boot_trace m evs"
  shows "boot_trace (health_apply ev now m) (evs @ [ev])"
  using assms saw_snoc(2) [of "[]" evs "(=) ProcessStarted" ev]
    saw_snoc(2) [of "[(=) ProcessStarted]" evs "(=) InitializationCompleted" ev]
    saw_snoc(2) [of "[(=) ProcessStarted, (=) InitializationCompleted]" evs is_validated ev]
  by (cases ev) (auto simp: boot_trace_def health_apply_defs saw_snoc(1) saw_def [of "[]"])

lemma boot_trace_run: "boot_trace (fold health_step es (health_new l)) (map snd es)"
proof (induction es rule: rev_induct)
  case Nil
  show ?case by (simp add: boot_trace_def health_new_def)
next
  case (snoc e es)
  from boot_trace_step [OF this, of "snd e" "fst e"] show ?case by (simp add: health_step_def)
qed

section \<open>Properties\<close>

text \<open>
  C31: On every machine reachable from \<open>HealthMachine::new\<close>, at every clock reading, the parts
  of a snapshot agree: it is ready exactly in phases running and degraded, the reason list
  is empty exactly when it is running, a degraded snapshot has only recoverable reasons, and
  the phase is fatal exactly when a fatal state is published, which is then the only reason.
\<close>

theorem snapshot_coherent:
  "let s = snapshot now (fold health_step es (health_new l))
   in (sn_ready s \<longleftrightarrow> sn_phase s \<in> {Running, Degraded}) \<and>
      (sn_reasons s = [] \<longleftrightarrow> sn_phase s = Running) \<and>
      (sn_phase s = Degraded \<longrightarrow> set (sn_reasons s) \<subseteq> {RStaleInput, ROverload}) \<and>
      (sn_phase s = Fatal \<longleftrightarrow> sn_fatal s \<noteq> None) \<and>
      (sn_phase s = Fatal \<longleftrightarrow> sn_reasons s = [RFatal])"
proof -
  have "health_inv (fold health_step es (health_new l))"
    by (rule health_sys.run_inv) (rule health_inv_new)
  then show ?thesis
    by (auto simp: snapshot_defs Let_def health_inv_def compute_stale_def split: if_splits option.splits)
qed

theorem snapshot_coherent_witness:
  "let s = snapshot 5 (fold health_step [(1, ProcessStarted), (2, BeginDrain)] (health_new health_limits_default))
   in sn_phase s = Draining \<and> \<not> sn_ready s"
proof -
  let ?m = "fold health_step [(1, ProcessStarted), (2, BeginDrain)] (health_new health_limits_default)"
  have "sn_phase (snapshot 5 ?m) = Draining"
    by (simp add: snapshot_defs health_step_def health_apply_defs health_new_def Let_def)
  with snapshot_coherent [of 5 "[(1, ProcessStarted), (2, BeginDrain)]" health_limits_default]
  show ?thesis by (simp add: Let_def)
qed

text \<open>
  C23: The daemon is ready only after start, initialization and a validated checkpoint were
  applied, in that order, and never when a drain was requested at any point of the run.
\<close>

theorem ready_needs_boot_order:
  assumes "sn_ready (snapshot now (fold health_step es (health_new l)))"
  shows "saw [(=) ProcessStarted, (=) InitializationCompleted, is_validated] (map snd es) \<and>
    BeginDrain \<notin> snd ` set es"
  using assms boot_trace_run [of es l]
  by (auto simp: snapshot_ready hm_is_ready_def hm_is_initialized_def hm_is_serving_def boot_trace_def)

theorem ready_needs_boot_order_witness:
  "let es = [(1, ProcessStarted), (2, InitializationCompleted),
             (3, CheckpointValidated \<lparr> ci_id = ''fresh'', ci_digest = None \<rparr>)]
   in sn_ready (snapshot 9 (fold health_step es (health_new health_limits_default))) \<and>
      BeginDrain \<notin> snd ` set es"
proof -
  let ?es = "[(1, ProcessStarted), (2, InitializationCompleted),
             (3, CheckpointValidated \<lparr> ci_id = ''fresh'', ci_digest = None \<rparr>)]"
  have r: "sn_ready (snapshot 9 (fold health_step ?es (health_new health_limits_default)))"
    by (simp add: snapshot_defs health_step_def health_apply_defs health_new_def Let_def)
  with ready_needs_boot_order [OF r] show ?thesis unfolding Let_def by blast
qed

text \<open>
  C19: A fatal state is sticky and the first one wins: later events of any kind change neither
  the code nor the detail that is published, and the phase stays fatal and not ready.
\<close>

theorem fatal_sticky:
  assumes "hm_fatal m = None"
  shows "let s = snapshot now (fold health_step ((t, FatalEv code detail) # es) m)
     in sn_fatal s = Some \<lparr> fs_code = code, fs_detail = detail \<rparr> \<and> sn_phase s = Fatal \<and> \<not> sn_ready s"
proof -
  have "hm_fatal (health_step (t, FatalEv code detail) m) = Some \<lparr> fs_code = code, fs_detail = detail \<rparr>"
    using assms by (simp add: health_step_def health_apply_defs)
  then have "hm_fatal (fold health_step ((t, FatalEv code detail) # es) m) =
      Some \<lparr> fs_code = code, fs_detail = detail \<rparr>"
    using fatal_latch.run_tripped by simp
  then show ?thesis by (auto simp: snapshot_defs Let_def)
qed

theorem fatal_sticky_witness:
  "hm_fatal (health_new health_limits_default) = None \<and>
   (let s = snapshot 9 (fold health_step
      [(1, FatalEv Unspecified ''boom''), (2, FatalEv CheckpointInvalid ''later''), (3, ProcessStarted)]
      (health_new health_limits_default))
    in sn_fatal s = Some \<lparr> fs_code = Unspecified, fs_detail = ''boom'' \<rparr>)"
  using fatal_sticky [of "health_new health_limits_default" 9 1 Unspecified "''boom''"
      "[(2, FatalEv CheckpointInvalid ''later''), (3, ProcessStarted)]"]
  by (simp add: health_new_def Let_def)

text \<open>
  Published counters never go down over any run, however the published values jump, and
  a published counter is never below the value published last.
\<close>

theorem counters_never_decrease:
  "counters_le (hm_counters m) (hm_counters (fold health_step es m)) \<and>
   counters_le c (hm_counters (fold health_step ((t, CountersPublished c) # es) m))"
proof
  show "counters_le (hm_counters m) (hm_counters (fold health_step es m))"
    by (rule counters_grow.run_le)
  have "counters_le c (hm_counters (health_step (t, CountersPublished c) m))"
    by (simp add: health_step_def health_apply_defs merged_monotonic_upper)
  then show "counters_le c (hm_counters (fold health_step ((t, CountersPublished c) # es) m))"
    using counters_le_trans counters_grow.run_le by fastforce
qed

text \<open>
  Overload detection under any limits the constructor was given (they are sanitized): a
  full queue is overloaded and an empty one is not, a deeper queue is overloaded whenever a
  shallower one is, and a machine that is already overloaded needs no more depth to stay so
  than a fresh one needs to enter.
\<close>

theorem overload_hysteresis:
  assumes "hm_limits m = sanitized l"
  shows "(c \<noteq> 0 \<longrightarrow> hm_overloaded (health_apply (QueuePressure c c) now m)) \<and>
    \<not> hm_overloaded (health_apply (QueuePressure 0 c) now m) \<and>
    (d \<le> d' \<longrightarrow> hm_overloaded (health_apply (QueuePressure d c) now m) \<longrightarrow>
       hm_overloaded (health_apply (QueuePressure d' c) now m)) \<and>
    (hm_overloaded (health_apply (QueuePressure d c) now (m\<lparr>hm_overloaded := False\<rparr>)) \<longrightarrow>
       hm_overloaded (health_apply (QueuePressure d c) now (m\<lparr>hm_overloaded := True\<rparr>)))"
  using assms limits_ok_sanitized [of l] next_overload_full [of "sanitized l"]
    next_overload_empty [of "sanitized l"] next_overload_mono next_overload_hysteresis [of "sanitized l"]
  by (auto simp: health_apply_defs)

theorem overload_hysteresis_witness:
  "hm_limits (health_new health_limits_default) = sanitized health_limits_default \<and>
   hm_overloaded (health_apply (QueuePressure 8 8) 0 (health_new health_limits_default))"
  using overload_hysteresis [of "health_new health_limits_default" health_limits_default 8 0]
  by (simp add: health_new_def)

text \<open>
  Input freshness: a machine that just observed input is not stale before
  \<open>stale_after\<close> has passed, and an otherwise healthy one is degraded exactly from then on.
\<close>

theorem freshness_window:
  assumes "hm_is_ready m" and "\<not> hm_overloaded m"
  shows "sn_phase (snapshot now (health_apply IngressObserved t m)) =
    (if now - t < hl_stale_after (hm_limits m) then Running else Degraded)"
  using assms
  by (auto simp: snapshot_defs health_apply_defs compute_stale_def Let_def)

theorem freshness_window_witness:
  "let m = (health_new health_limits_default)\<lparr>hm_started := True, hm_initialized := True, hm_checkpoint_ok := True\<rparr>
   in hm_is_ready m \<and> sn_phase (snapshot 600000000 (health_apply IngressObserved 7 m)) = Degraded"
proof -
  let ?m = "(health_new health_limits_default)\<lparr>hm_started := True, hm_initialized := True, hm_checkpoint_ok := True\<rparr>"
  have r: "hm_is_ready ?m" "\<not> hm_overloaded ?m"
    by (simp_all add: hm_is_ready_def hm_is_initialized_def hm_is_serving_def health_new_def)
  have "hl_stale_after (hm_limits ?m) = 500000000"
    by (simp add: health_new_def sanitized_def health_limits_default_def Let_def)
  with freshness_window [OF r, of 600000000 7] r show ?thesis by (simp add: Let_def)
qed

end
