(* ===== verification/Net_Addr.thy ===== *)
theory Net_Addr
  imports Prelude
begin

text \<open>
  The parts of Rust's standard library that configuration checking calls: the textual
  parsers of \<open>IpAddr\<close>, \<open>Ipv6Addr\<close> and \<open>SocketAddr\<close> (\<open>core::net::parser\<close>), the
  components of a Unix \<open>Path\<close>, and UTF-8 validation (\<open>str::from_utf8\<close>). A parser takes the
  remaining input and returns a value with what is left; \<open>None\<close> leaves the input untouched,
  as \<open>read_atomically\<close> does.
\<close>

section \<open>Addresses\<close>

type_synonym 'a parser = "string \<Rightarrow> ('a \<times> string) option"

definition to_digit :: "nat \<Rightarrow> char \<Rightarrow> nat option" where
  "to_digit radix c =
     (let n = (of_char c :: nat);
          d = (if 48 \<le> n \<and> n \<le> 57 then n - 48
               else if 97 \<le> n \<and> n \<le> 122 then n - 87
               else if 65 \<le> n \<and> n \<le> 90 then n - 55 else radix)
      in if d < radix then Some d else None)"

text \<open>The run of digits at the front of the input, with their values.\<close>

fun digit_run :: "nat \<Rightarrow> string \<Rightarrow> nat list \<times> string" where
  "digit_run radix [] = ([], [])"
| "digit_run radix (c # s) =
     (case to_digit radix c of
        Some d \<Rightarrow> (case digit_run radix s of (ds, r) \<Rightarrow> (d # ds, r))
      | None \<Rightarrow> ([], c # s))"

definition digits_value :: "nat \<Rightarrow> nat list \<Rightarrow> nat" where
  "digits_value radix ds = foldl (\<lambda>n d. n * radix + d) 0 ds"

definition read_number :: "nat \<Rightarrow> nat option \<Rightarrow> bool \<Rightarrow> nat \<Rightarrow> nat parser" where
  "read_number radix max_digits allow_zero_prefix bound s =
     (case digit_run radix s of (ds, r) \<Rightarrow>
        if option_all (\<lambda>m. length ds \<le> m) max_digits \<and> ds \<noteq> [] \<and>
           (allow_zero_prefix \<or> hd s \<noteq> CHR ''0'' \<or> length ds \<le> 1) \<and>
           digits_value radix ds < bound
        then Some (digits_value radix ds, r) else None)"

definition read_given_char :: "char \<Rightarrow> unit parser" where
  "read_given_char c s = (case s of [] \<Rightarrow> None | d # r \<Rightarrow> if c = d then Some ((), r) else None)"

definition read_separator :: "char \<Rightarrow> nat \<Rightarrow> 'a parser \<Rightarrow> 'a parser" where
  "read_separator sep index p s =
     (if index > 0 then (case read_given_char sep s of Some (_, r) \<Rightarrow> p r | None \<Rightarrow> None) else p s)"

fun read_octets :: "nat \<Rightarrow> nat \<Rightarrow> nat list parser" where
  "read_octets i 0 s = Some ([], s)"
| "read_octets i (Suc n) s =
     (case read_separator (CHR ''.'') i (read_number 10 (Some 3) False 256) s of
        Some (v, r) \<Rightarrow>
          (case read_octets (Suc i) n r of Some (vs, r') \<Rightarrow> Some (v # vs, r') | None \<Rightarrow> None)
      | None \<Rightarrow> None)"

definition read_ipv4_addr :: "nat list parser" where
  "read_ipv4_addr s = read_octets 0 4 s"

text \<open>\<open>read_groups p groups\<close>: \<open>left\<close> groups are still to be filled out of \<open>limit\<close>, \<open>i\<close> are
  done. Returns the groups, whether an embedded IPv4 tail was read, and the rest.\<close>

fun read_groups :: "nat \<Rightarrow> nat \<Rightarrow> string \<Rightarrow> nat list \<times> bool \<times> string" where
  "read_groups i 0 s = ([], False, s)"
| "read_groups i (Suc n) s =
     (case (if 0 < n then read_separator (CHR '':'') i read_ipv4_addr s else None) of
        Some (v4, r) \<Rightarrow> ([v4 ! 0 * 256 + v4 ! 1, v4 ! 2 * 256 + v4 ! 3], True, r)
      | None \<Rightarrow>
          (case read_separator (CHR '':'') i (read_number 16 (Some 4) True 65536) s of
             Some (g, r) \<Rightarrow> (case read_groups (Suc i) n r of (gs, v4, r') \<Rightarrow> (g # gs, v4, r'))
           | None \<Rightarrow> ([], False, s)))"

definition read_ipv6_addr :: "nat list parser" where
  "read_ipv6_addr s =
     (case read_groups 0 8 s of (head, head_ipv4, r) \<Rightarrow>
        if length head = 8 then Some (head, r)
        else if head_ipv4 then None
        else (case read_given_char (CHR '':'') r of
               None \<Rightarrow> None
             | Some (_, r) \<Rightarrow>
                 (case read_given_char (CHR '':'') r of
                    None \<Rightarrow> None
                  | Some (_, r) \<Rightarrow>
                      (case read_groups 0 (8 - (length head + 1)) r of (tail, _, r) \<Rightarrow>
                         Some (head @ replicate (8 - length head - length tail) 0 @ tail, r)))))"

definition read_ip_addr :: "nat list parser" where
  "read_ip_addr s = (case read_ipv4_addr s of Some x \<Rightarrow> Some x | None \<Rightarrow> read_ipv6_addr s)"

definition read_port :: "nat parser" where
  "read_port s =
     (case read_given_char (CHR '':'') s of
        Some (_, r) \<Rightarrow> read_number 10 None True 65536 r | None \<Rightarrow> None)"

definition read_scope_id :: "nat parser" where
  "read_scope_id s =
     (case read_given_char (CHR ''%'') s of
        Some (_, r) \<Rightarrow> read_number 10 None True (2 ^ 32) r | None \<Rightarrow> None)"

definition read_socket_addr_v4 :: "(nat list \<times> nat) parser" where
  "read_socket_addr_v4 s =
     (case read_ipv4_addr s of
        Some (ip, r) \<Rightarrow> (case read_port r of Some (port, r) \<Rightarrow> Some ((ip, port), r) | None \<Rightarrow> None)
      | None \<Rightarrow> None)"

definition read_socket_addr_v6 :: "(nat list \<times> nat) parser" where
  "read_socket_addr_v6 s =
     (case read_given_char (CHR ''['') s of
        None \<Rightarrow> None
      | Some (_, r) \<Rightarrow>
          (case read_ipv6_addr r of
             None \<Rightarrow> None
           | Some (ip, r) \<Rightarrow>
               (let r = (case read_scope_id r of Some (_, r') \<Rightarrow> r' | None \<Rightarrow> r)
                in case read_given_char (CHR '']'') r of
                     None \<Rightarrow> None
                   | Some (_, r) \<Rightarrow>
                       (case read_port r of Some (port, r) \<Rightarrow> Some ((ip, port), r) | None \<Rightarrow> None))))"

definition read_socket_addr :: "(nat list \<times> nat) parser" where
  "read_socket_addr s =
     (case read_socket_addr_v4 s of Some x \<Rightarrow> Some x | None \<Rightarrow> read_socket_addr_v6 s)"

text \<open>\<open>parse_with\<close>: the parser has to use the whole input.\<close>

definition parse_with :: "'a parser \<Rightarrow> string \<Rightarrow> 'a option" where
  "parse_with p s = (case p s of Some (v, []) \<Rightarrow> Some v | _ \<Rightarrow> None)"

definition parse_ip_addr :: "string \<Rightarrow> nat list option" where
  "parse_ip_addr s = parse_with read_ip_addr s"

definition parse_ipv6_addr :: "string \<Rightarrow> nat list option" where
  "parse_ipv6_addr s = parse_with read_ipv6_addr s"

definition parse_socket_addr :: "string \<Rightarrow> (nat list \<times> nat) option" where
  "parse_socket_addr s = parse_with read_socket_addr s"

section \<open>Paths\<close>

text \<open>
  A path is its list of components; Rust compares paths this way, and a Unix file system
  resolves spellings that differ only in repeated slashes or inner dots alike.
\<close>

datatype component = RootDir | CurDir | ParentDir | Normal string

type_synonym path = "component list"

definition component_of :: "string \<Rightarrow> component" where
  "component_of s = (if s = ''..'' then ParentDir else if s = ''.'' then CurDir else Normal s)"

definition path_of :: "string \<Rightarrow> path" where
  "path_of s =
     (let parts = filter (\<lambda>x. x \<noteq> []) (split_on (CHR 0x2F) s);
          absolute = (s \<noteq> [] \<and> hd s = CHR 0x2F)
      in if absolute then RootDir # map component_of (filter (\<lambda>x. x \<noteq> ''.'') parts)
         else case parts of
                [] \<Rightarrow> []
              | p # ps \<Rightarrow> component_of p # map component_of (filter (\<lambda>x. x \<noteq> ''.'') ps))"

definition is_absolute :: "path \<Rightarrow> bool" where
  "is_absolute p \<longleftrightarrow> p \<noteq> [] \<and> hd p = RootDir"

definition join :: "path \<Rightarrow> string \<Rightarrow> path" where
  "join p s = (let q = path_of s in if is_absolute q then q else p @ q)"

definition parent :: "path \<Rightarrow> path option" where
  "parent p = (if p = [] \<or> p = [RootDir] then None else Some (butlast p))"

definition file_name :: "path \<Rightarrow> string option" where
  "file_name p = (if p = [] then None else case last p of Normal n \<Rightarrow> Some n | _ \<Rightarrow> None)"

text \<open>The extension is what follows the last dot of the name, unless that dot starts it.\<close>

definition extension :: "path \<Rightarrow> string option" where
  "extension p =
     (case file_name p of
        None \<Rightarrow> None
      | Some n \<Rightarrow>
          (let after = rev (takeWhile (\<lambda>c. c \<noteq> CHR ''.'') (rev n))
           in if CHR ''.'' \<in> set n \<and> length after + 1 < length n then Some after else None))"

fun component_str :: "component \<Rightarrow> string" where
  "component_str RootDir = []"
| "component_str CurDir = ''.''"
| "component_str ParentDir = ''..''"
| "component_str (Normal n) = n"

definition path_display :: "path \<Rightarrow> string" where
  "path_display p =
     (if p = [RootDir] then [CHR 0x2F]
      else concat (map (\<lambda>(i, c). (if i = 0 then [] else [CHR 0x2F]) @ component_str c)
             (zip [0..<length p] p)))"

section \<open>UTF-8\<close>

definition in_range :: "nat \<Rightarrow> nat \<Rightarrow> char \<Rightarrow> bool" where
  "in_range a b c \<longleftrightarrow> a \<le> (of_char c :: nat) \<and> of_char c \<le> b"

definition utf8_cont :: "char \<Rightarrow> bool" where
  "utf8_cont c = in_range 0x80 0xBF c"

fun valid_utf8 :: "string \<Rightarrow> bool" where
  "valid_utf8 [] = True"
| "valid_utf8 (a # s) =
     (if in_range 0 0x7F a then valid_utf8 s
      else if in_range 0xC2 0xDF a
      then (case s of b # s' \<Rightarrow> utf8_cont b \<and> valid_utf8 s' | [] \<Rightarrow> False)
      else if in_range 0xE0 0xEF a
      then (case s of
              b # c # s' \<Rightarrow>
                (if in_range 0xE0 0xE0 a then in_range 0xA0 0xBF b
                 else if in_range 0xED 0xED a then in_range 0x80 0x9F b
                 else utf8_cont b) \<and> utf8_cont c \<and> valid_utf8 s'
            | _ \<Rightarrow> False)
      else if in_range 0xF0 0xF4 a
      then (case s of
              b # c # d # s' \<Rightarrow>
                (if in_range 0xF0 0xF0 a then in_range 0x90 0xBF b
                 else if in_range 0xF4 0xF4 a then in_range 0x80 0x8F b
                 else utf8_cont b) \<and> utf8_cont c \<and> utf8_cont d \<and> valid_utf8 s'
            | _ \<Rightarrow> False)
      else False)"

end
