(* ===== verification/Config.thy ===== *)
theory Config
  imports Net_Addr Ingress "HOL-Library.AList"
begin

text \<open>
  \<open>src/config.rs\<close>, \<open>src/registry.rs\<close> and \<open>src/logging.rs\<close>: the daemon configuration and
  its validation, the service registry, and the choice of the log filter. TOML parsing and
  \<open>EnvFilter\<close> belong to other crates and are arguments; so is the file system, a record of
  what the process can observe of it. Error values carry the data their message shows.
\<close>

section \<open>Service registry\<close>

record service_config =
  sv_name :: string
  sv_enabled :: bool

definition service_named :: "string \<Rightarrow> service_config" where
  "service_named nm = \<lparr> sv_name = nm, sv_enabled = True \<rparr>"

text \<open>A \<open>HashMap\<close> as an association list; its iteration order means nothing.\<close>

type_synonym service_registry = "(string \<times> service_config) list"

definition registry_new :: service_registry where
  "registry_new = []"

definition register_one :: "service_config \<Rightarrow> service_registry \<Rightarrow> service_registry" where
  "register_one cfg services =
     (if sv_enabled cfg then AList.update (sv_name cfg) cfg services
      else AList.delete (sv_name cfg) services)"

definition from_configs :: "service_config list \<Rightarrow> service_registry" where
  "from_configs configs = fold register_one configs registry_new"

definition registry_get :: "service_registry \<Rightarrow> string \<Rightarrow> service_config option" where
  "registry_get services nm = map_of services nm"

definition registry_len :: "service_registry \<Rightarrow> usize" where
  "registry_len services = length services"

definition registry_is_empty :: "service_registry \<Rightarrow> bool" where
  "registry_is_empty services \<longleftrightarrow> services = []"

definition registry_contains :: "service_registry \<Rightarrow> string \<Rightarrow> bool" where
  "registry_contains services nm \<longleftrightarrow> map_of services nm \<noteq> None"

section \<open>Log filter\<close>

definition log_level_valid :: "string \<Rightarrow> bool" where
  "log_level_valid level \<longleftrightarrow> level \<in> {''error'', ''warn'', ''info'', ''debug'', ''trace''}"

datatype filter_diagnostic = InvalidRustLog string string string

record 'f resolved_filter =
  rf_filter :: 'f
  rf_fallback_diagnostic :: "filter_diagnostic option"

section \<open>Daemon configuration\<close>

definition MAX_NETWORK_INPUTS :: usize where
  "MAX_NETWORK_INPUTS = 1048576"

datatype runtime_mode = Live | Simulation

record daemon_config =
  dc_tick_rate_hz :: u32
  dc_log_level :: string
  dc_spine_sub_port :: u16
  dc_spine_pub_port :: u16
  dc_spine_pub_bind_host :: string
  dc_spine_pub_sndhwm :: int
  dc_spine_pub_linger_ms :: int
  dc_spine_pub_send_empty_batches :: bool
  dc_model_path :: path
  dc_lif_count :: usize
  dc_izh_count :: usize
  dc_channels :: usize
  dc_runtime_mode :: runtime_mode
  dc_services :: "service_config list"
  dc_ingress :: ingress_config
  dc_control_bind :: "string option"

datatype config_error =
    TickRateOutOfRange u32
  | NeuronCountOverflow usize usize
  | NoNeurons
  | TooManyNeurons usize usize
  | DimensionOverflow usize usize usize
  | TooManyInputs usize
  | IngressInvalid ingress_config_error
  | ChannelsOutOfRange usize usize
  | LiveNeedsLifOnly usize
  | InvalidLogLevel string
  | InvalidBindHost string
  | SndhwmNotPositive
  | LingerNegative
  | InvalidControlBind string
  | AbsolutePathWithParentDir path
  | ConfigReadFailed path string
  | ConfigParseFailed path string
  | ConfigInvalid path config_error

definition validate_log_level :: "string \<Rightarrow> config_error + unit" where
  "validate_log_level level = (if log_level_valid level then Inr () else Inl (InvalidLogLevel level))"

definition resolve_filter ::
  "(string \<Rightarrow> 'f) \<Rightarrow> (string \<Rightarrow> string + 'f) \<Rightarrow> string \<Rightarrow> string option
     \<Rightarrow> config_error + 'f resolved_filter" where
  "resolve_filter env_new env_try_new toml_level rust_log =
     bind_res (validate_log_level toml_level) (\<lambda>_.
       case rust_log of
         Some v \<Rightarrow>
           (case env_try_new v of
              Inr f \<Rightarrow> Inr \<lparr> rf_filter = f, rf_fallback_diagnostic = None \<rparr>
            | Inl err \<Rightarrow> Inr \<lparr> rf_filter = env_new toml_level,
                rf_fallback_diagnostic = Some (InvalidRustLog v err toml_level) \<rparr>)
       | None \<Rightarrow> Inr \<lparr> rf_filter = env_new toml_level, rf_fallback_diagnostic = None \<rparr>)"

definition validate_dimensions :: "daemon_config \<Rightarrow> config_error + unit" where
  "validate_dimensions c =
     (case usize_checked_add (dc_lif_count c) (dc_izh_count c) of
        None \<Rightarrow> Inl (NeuronCountOverflow (dc_lif_count c) (dc_izh_count c))
      | Some n \<Rightarrow>
          (if n = 0 then Inl NoNeurons
           else if n > 65535 then Inl (TooManyNeurons (dc_lif_count c) (dc_izh_count c))
           else (case usize_checked_mul n (dc_channels c) of
                   None \<Rightarrow> Inl (DimensionOverflow (dc_lif_count c) (dc_izh_count c) (dc_channels c))
                 | Some inputs \<Rightarrow>
                     (if inputs > MAX_NETWORK_INPUTS then Inl (TooManyInputs inputs) else Inr ()))))"

definition is_dns_label :: "string \<Rightarrow> bool" where
  "is_dns_label label \<longleftrightarrow>
     label \<noteq> [] \<and> length label \<le> 63 \<and> hd label \<noteq> CHR ''-'' \<and> last label \<noteq> CHR ''-'' \<and>
     list_all (\<lambda>b. is_ascii_alphanumeric b \<or> b = CHR ''-'') label"

definition is_dns_hostname :: "string \<Rightarrow> bool" where
  "is_dns_hostname host \<longleftrightarrow>
     (let nm = (case strip_suffix ''.'' host of Some n \<Rightarrow> n | None \<Rightarrow> host);
          numeric_only = list_all (\<lambda>b. is_ascii_digit b \<or> b = CHR ''.'') nm
      in nm \<noteq> [] \<and> \<not> numeric_only \<and> length nm \<le> 253 \<and>
         list_all is_dns_label (split_on (CHR ''.'') nm))"

definition is_bracketed_ipv6 :: "string \<Rightarrow> bool" where
  "is_bracketed_ipv6 host \<longleftrightarrow>
     (case Option.bind (strip_prefix ''['' host) (strip_suffix '']'') of
        Some s \<Rightarrow> parse_ipv6_addr s \<noteq> None | None \<Rightarrow> False)"

definition validate_pub_bind_host :: "string \<Rightarrow> config_error + unit" where
  "validate_pub_bind_host host =
     (let ip = (parse_ip_addr host \<noteq> None \<or> is_bracketed_ipv6 host)
      in if ip \<or> host = ''*'' then Inr ()
         else if is_dns_hostname host then Inr ()
         else Inl (InvalidBindHost host))"

definition validate_pub_socket_opts :: "daemon_config \<Rightarrow> config_error + unit" where
  "validate_pub_socket_opts c =
     (if dc_spine_pub_sndhwm c \<le> 0 then Inl SndhwmNotPositive
      else if dc_spine_pub_linger_ms c < 0 then Inl LingerNegative
      else Inr ())"

definition validate_control_bind :: "string option \<Rightarrow> config_error + unit" where
  "validate_control_bind bind =
     (case bind of
        Some b \<Rightarrow> (if parse_socket_addr b \<noteq> None then Inr () else Inl (InvalidControlBind b))
      | None \<Rightarrow> Inr ())"

definition daemon_config_validate :: "daemon_config \<Rightarrow> config_error + unit" where
  "daemon_config_validate c =
     bind_res (ensure (1 \<le> dc_tick_rate_hz c \<and> dc_tick_rate_hz c \<le> 1000000)
                 (TickRateOutOfRange (dc_tick_rate_hz c))) (\<lambda>_.
     bind_res (validate_dimensions c) (\<lambda>_.
     bind_res (map_err IngressInvalid (ingress_config_validate (dc_ingress c))) (\<lambda>_.
     bind_res (ensure (\<not> (dc_channels c = 0 \<or> dc_channels c > ic_max_payload_len (dc_ingress c)))
                 (ChannelsOutOfRange (ic_max_payload_len (dc_ingress c)) (dc_channels c))) (\<lambda>_.
     bind_res (ensure (\<not> (dc_runtime_mode c = Live \<and> dc_izh_count c \<noteq> 0))
                 (LiveNeedsLifOnly (dc_izh_count c))) (\<lambda>_.
     bind_res (validate_log_level (dc_log_level c)) (\<lambda>_.
     bind_res (validate_pub_bind_host (dc_spine_pub_bind_host c)) (\<lambda>_.
     bind_res (validate_pub_socket_opts c) (\<lambda>_.
     validate_control_bind (dc_control_bind c)))))))))"

section \<open>Loading\<close>

record filesystem =
  fs_try_exists :: "path \<Rightarrow> string + bool"
  fs_is_dir :: "path \<Rightarrow> bool"
  fs_is_file :: "path \<Rightarrow> bool"
  fs_read :: "path \<Rightarrow> string + string"

text \<open>\<open>fs::read_to_string\<close> is a read followed by UTF-8 validation.\<close>

definition read_to_string :: "filesystem \<Rightarrow> path \<Rightarrow> string + string" where
  "read_to_string fs p =
     bind_res (fs_read fs p) (\<lambda>s.
       if valid_utf8 s then Inr s else Inl ''stream did not contain valid UTF-8'')"

definition daemon_config_load ::
  "filesystem \<Rightarrow> (string \<Rightarrow> string + daemon_config) \<Rightarrow> path \<Rightarrow> config_error + daemon_config" where
  "daemon_config_load fs toml path =
     (if is_absolute path \<and> ParentDir \<in> set path then Inl (AbsolutePathWithParentDir path)
      else bind_res (map_err (ConfigReadFailed path) (read_to_string fs path)) (\<lambda>data.
           bind_res (map_err (ConfigParseFailed path) (toml data)) (\<lambda>cfg.
           bind_res (map_err (ConfigInvalid path) (daemon_config_validate cfg)) (\<lambda>_.
           Inr cfg))))"

definition pub_endpoint :: "string \<Rightarrow> u16 \<Rightarrow> string" where
  "pub_endpoint host port =
     (if CHR '':'' \<in> set host \<and> \<not> (host \<noteq> [] \<and> hd host = CHR ''['')
      then ''tcp://['' @ host @ '']:'' @ show_nat (unat port)
      else ''tcp://'' @ host @ '':'' @ show_nat (unat port))"

section \<open>Lemmas\<close>

lemma validate_dimensions_ok:
  "validate_dimensions c = Inr () \<longleftrightarrow>
     dc_lif_count c + dc_izh_count c \<in> {1..65535} \<and>
     (dc_lif_count c + dc_izh_count c) * dc_channels c \<le> MAX_NETWORK_INPUTS"
  by (auto simp: validate_dimensions_def usize_checked_add_def usize_checked_mul_def usize_max_def
      MAX_NETWORK_INPUTS_def)

lemma validate_control_bind_ok:
  "validate_control_bind b = Inr () \<longleftrightarrow> option_all (\<lambda>b. parse_socket_addr b \<noteq> None) b"
  by (cases b) (simp_all add: validate_control_bind_def)

lemma validate_log_level_ok: "validate_log_level l = Inr () \<longleftrightarrow> log_level_valid l"
  by (simp add: validate_log_level_def)

lemma validate_pub_socket_opts_ok:
  "validate_pub_socket_opts c = Inr () \<longleftrightarrow> 0 < dc_spine_pub_sndhwm c \<and> 0 \<le> dc_spine_pub_linger_ms c"
  by (auto simp: validate_pub_socket_opts_def)

lemma validate_pub_bind_host_ok:
  "validate_pub_bind_host h = Inr () \<longleftrightarrow>
     parse_ip_addr h \<noteq> None \<or> is_bracketed_ipv6 h \<or> h = ''*'' \<or> is_dns_hostname h"
  by (auto simp: validate_pub_bind_host_def Let_def)

section \<open>What the host parsers accept\<close>

lemma digit_run_split:
  "digit_run radix s = (ds, r) \<Longrightarrow>
     \<exists>p. s = p @ r \<and> length p = length ds \<and> list_all (\<lambda>c. to_digit radix c \<noteq> None) p"
proof (induction radix s arbitrary: ds r rule: digit_run.induct)
  case (2 radix c s)
  show ?case
  proof (cases "to_digit radix c")
    case (Some d)
    obtain ds' r' where d: "digit_run radix s = (ds', r')" by fastforce
    with "2.IH" [OF Some d] obtain p where "s = p @ r'" "length p = length ds'"
      "list_all (\<lambda>c. to_digit radix c \<noteq> None) p" by blast
    with "2.prems" Some d show ?thesis by (intro exI [of _ "c # p"]) auto
  qed (use "2.prems" in simp)
qed simp

lemma to_digit_special [simp]: "to_digit 10 (CHR '':'') = None" "to_digit 10 (CHR ''['') = None"
  "to_digit 16 (CHR ''['') = None"
  by (simp_all add: to_digit_def)

lemma list_all_notin: "list_all P xs \<Longrightarrow> \<not> P c \<Longrightarrow> c \<notin> set xs"
  by (auto simp: list_all_iff)

lemma read_number_split:
  assumes "read_number 10 m z b s = Some (v, r)"
  shows "\<exists>p. s = p @ r \<and> CHR '':'' \<notin> set p"
proof -
  obtain ds r' where d: "digit_run 10 s = (ds, r')" by fastforce
  with assms have "r' = r" by (auto simp: read_number_def split: if_splits)
  with digit_run_split [OF d] show ?thesis using list_all_notin to_digit_special(1) by fastforce
qed

lemma read_octets_split:
  "read_octets i n s = Some (vs, r) \<Longrightarrow> \<exists>p. s = p @ r \<and> CHR '':'' \<notin> set p"
proof (induction i n s arbitrary: vs r rule: read_octets.induct)
  case (2 i n s)
  from "2.prems" obtain v r1 vs' where
    a: "read_separator (CHR ''.'') i (read_number 10 (Some 3) False 256) s = Some (v, r1)" and
    b: "read_octets (Suc i) n r1 = Some (vs', r)"
    by (auto split: option.splits)
  obtain p where p: "s = p @ r1" "CHR '':'' \<notin> set p"
  proof (cases "i > 0")
    case True
    with a obtain s' where s': "s = CHR ''.'' # s'" "read_number 10 (Some 3) False 256 s' = Some (v, r1)"
      by (auto simp: read_separator_def read_given_char_def split: option.splits list.splits if_splits)
    from read_number_split [OF s'(2)] obtain p where "s' = p @ r1" "CHR '':'' \<notin> set p" by blast
    with s'(1) show thesis by (intro that [of "CHR ''.'' # p"]) auto
  next
    case False
    with a have "read_number 10 (Some 3) False 256 s = Some (v, r1)" by (simp add: read_separator_def)
    from read_number_split [OF this] that show thesis by blast
  qed
  from "2.IH" [OF a refl b] obtain p' where "r1 = p' @ r" "CHR '':'' \<notin> set p'" by blast
  with p show ?case by (intro exI [of _ "p @ p'"]) auto
qed simp

lemma ipv4_no_colon: "read_ipv4_addr s = Some (v, []) \<Longrightarrow> CHR '':'' \<notin> set s"
  using read_octets_split by (fastforce simp: read_ipv4_addr_def)

lemma read_number_bracket: "read_number 10 m z b (CHR ''['' # s) = None"
    "read_number 16 m z b (CHR ''['' # s) = None"
  by (simp_all add: read_number_def)

lemma ip_not_bracketed: "parse_ip_addr (CHR ''['' # s) = None"
proof -
  have "read_octets 0 (Suc 3) (CHR ''['' # s) = None"
    by (simp only: read_octets.simps) (simp add: read_separator_def read_number_bracket)
  then have four: "read_ipv4_addr (CHR ''['' # s) = None" by (simp add: read_ipv4_addr_def)
  have "read_groups 0 (Suc 7) (CHR ''['' # s) = ([], False, CHR ''['' # s)"
    by (simp only: read_groups.simps) (simp add: four read_separator_def read_number_bracket)
  then have "read_ipv6_addr (CHR ''['' # s) = None"
    by (simp add: read_ipv6_addr_def read_given_char_def)
  with four show ?thesis by (simp add: parse_ip_addr_def parse_with_def read_ip_addr_def)
qed

lemma split_on_concat: "c \<in> set s \<Longrightarrow> c \<noteq> d \<Longrightarrow> \<exists>p \<in> set (split_on d s). c \<in> set p"
  by (induction s) (auto split: list.splits)

lemma dns_label_colon: "is_dns_label l \<Longrightarrow> CHR '':'' \<notin> set l"
  by (auto simp: is_dns_label_def list_all_iff is_ascii_alphanumeric_def is_ascii_digit_def
      is_ascii_alphabetic_def)

lemma dns_no_colon:
  assumes "is_dns_hostname h"
  shows "CHR '':'' \<notin> set h"
proof
  assume c: "CHR '':'' \<in> set h"
  let ?n = "case strip_suffix ''.'' h of Some n \<Rightarrow> n | None \<Rightarrow> h"
  from c have "CHR '':'' \<in> set ?n"
    by (auto simp: strip_suffix_Some split: option.splits)
  then obtain l where "l \<in> set (split_on (CHR ''.'') ?n)" "CHR '':'' \<in> set l"
    using split_on_concat [of "CHR '':''" ?n "CHR ''.''"] by auto
  with assms dns_label_colon show False by (auto simp: is_dns_hostname_def Let_def list_all_iff)
qed

text \<open>One step of the group and octet loops, for evaluating them on concrete text.\<close>

lemma read_groups_Suc: "n = Suc m \<Longrightarrow> read_groups i n s =
     (case (if 0 < m then read_separator (CHR '':'') i read_ipv4_addr s else None) of
        Some (v4, r) \<Rightarrow> ([v4 ! 0 * 256 + v4 ! 1, v4 ! 2 * 256 + v4 ! 3], True, r)
      | None \<Rightarrow>
          (case read_separator (CHR '':'') i (read_number 16 (Some 4) True 65536) s of
             Some (g, r) \<Rightarrow> (case read_groups (Suc i) m r of (gs, v4, r') \<Rightarrow> (g # gs, v4, r'))
           | None \<Rightarrow> ([], False, s)))"
  by simp

lemma read_octets_Suc: "n = Suc m \<Longrightarrow> read_octets i n s =
     (case read_separator (CHR ''.'') i (read_number 10 (Some 3) False 256) s of
        Some (v, r) \<Rightarrow>
          (case read_octets (Suc i) m r of Some (vs, r') \<Rightarrow> Some (v # vs, r') | None \<Rightarrow> None)
      | None \<Rightarrow> None)"
  by simp

lemma localhost_v6: "parse_ipv6_addr ''::1'' \<noteq> None"
proof -
  have four: "read_octets 0 4 ''::1'' = None" "read_octets 0 4 ''1'' = None"
    unfolding read_octets_Suc [of 4 3, simplified]
    by (simp_all add: read_octets_Suc [of 3 2] read_separator_def read_given_char_def read_number_def to_digit_def
        digits_value_def)
  have h: "read_groups 0 8 ''::1'' = ([], False, ''::1'')"
    using four by (simp add: read_groups_Suc [of 8 7] read_separator_def read_ipv4_addr_def read_number_def to_digit_def)
  have t: "read_groups 0 7 ''1'' = ([1], False, [])"
    using four by (simp add: read_groups_Suc [of 7 6] read_groups_Suc [of 6 5] read_separator_def read_ipv4_addr_def
        read_given_char_def read_number_def to_digit_def digits_value_def)
  show ?thesis
    by (simp add: parse_ipv6_addr_def parse_with_def read_ipv6_addr_def h t read_given_char_def)
qed

section \<open>Properties\<close>

text \<open>
  C36: \<open>DaemonConfig::validate\<close> accepts exactly the configurations in the documented ranges:
  tick rate, neuron count, dense network size, ingress limits, channel width, LIF-only live
  mode, log level, PUB host syntax, finite PUB socket bounds and a numeric control address.
  No overflow of \<open>usize\<close> can slip through.
\<close>

theorem daemon_config_validate_iff:
  "daemon_config_validate c = Inr () \<longleftrightarrow>
     unat (dc_tick_rate_hz c) \<in> {1..1000000} \<and>
     dc_lif_count c + dc_izh_count c \<in> {1..65535} \<and>
     (dc_lif_count c + dc_izh_count c) * dc_channels c \<le> MAX_NETWORK_INPUTS \<and>
     is_ok (ingress_new (dc_ingress c)) \<and>
     dc_channels c \<in> {1..ic_max_payload_len (dc_ingress c)} \<and>
     (dc_runtime_mode c = Live \<longrightarrow> dc_izh_count c = 0) \<and>
     log_level_valid (dc_log_level c) \<and>
     (parse_ip_addr (dc_spine_pub_bind_host c) \<noteq> None \<or> is_bracketed_ipv6 (dc_spine_pub_bind_host c) \<or>
      dc_spine_pub_bind_host c = ''*'' \<or> is_dns_hostname (dc_spine_pub_bind_host c)) \<and>
     0 < dc_spine_pub_sndhwm c \<and> 0 \<le> dc_spine_pub_linger_ms c \<and>
     option_all (\<lambda>b. parse_socket_addr b \<noteq> None) (dc_control_bind c)"
proof -
  have tick: "1 \<le> t \<and> t \<le> 1000000 \<longleftrightarrow> unat t \<in> {1..1000000}" for t :: u32
    by (auto simp: word_le_nat_alt)
  have ing: "is_ok (ingress_new (dc_ingress c)) \<longleftrightarrow> ingress_config_validate (dc_ingress c) = Inr ()"
    by (auto simp: ingress_new_def Let_def)
  have chan: "\<not> (dc_channels c = 0 \<or> dc_channels c > ic_max_payload_len (dc_ingress c)) \<longleftrightarrow>
      dc_channels c \<in> {1..ic_max_payload_len (dc_ingress c)}" by auto
  show ?thesis
    unfolding daemon_config_validate_def bind_unit map_err_Inr ensure_Inr tick chan ing
      validate_dimensions_ok validate_log_level_ok validate_pub_bind_host_ok
      validate_pub_socket_opts_ok validate_control_bind_ok conj_assoc de_Morgan_conj not_not
      imp_conv_disj ..
qed

theorem daemon_config_validate_iff_witness:
  "let c = (\<lambda>lif izh.
     \<lparr> dc_tick_rate_hz = 1000, dc_log_level = ''info'', dc_spine_sub_port = 5555, dc_spine_pub_port = 5556,
       dc_spine_pub_bind_host = ''*'', dc_spine_pub_sndhwm = 1000, dc_spine_pub_linger_ms = 0,
       dc_spine_pub_send_empty_batches = True, dc_model_path = [], dc_lif_count = lif, dc_izh_count = izh,
       dc_channels = 16, dc_runtime_mode = Live, dc_services = [], dc_ingress = ingress_config_default,
       dc_control_bind = None \<rparr>)
   in daemon_config_validate (c 4 0) = Inr () \<and> daemon_config_validate (c 0 4) \<noteq> Inr ()"
proof -
  have "is_ok (ingress_new ingress_config_default)" "ic_max_payload_len ingress_config_default = 4096"
    using validate_defaults(1) by (auto simp: ingress_new_def Let_def) (simp add: ingress_config_default_def)
  then show ?thesis
    by (simp add: daemon_config_validate_iff MAX_NETWORK_INPUTS_def log_level_valid_def Let_def)
qed

text \<open>
  For every host the validation accepts, \<open>pub_endpoint\<close> gives an address ZeroMQ can
  parse: a host with a colon appears in exactly one pair of brackets and what the brackets
  hold is an IPv6 address or came from the whole host literal; any other host appears as is.
\<close>

theorem pub_endpoint_wellformed:
  assumes "validate_pub_bind_host h = Inr ()"
  shows "(if CHR '':'' \<in> set h
     then \<exists>a. parse_ipv6_addr a \<noteq> None \<and> h \<in> {a, ''['' @ a @ '']''} \<and>
            pub_endpoint h port = ''tcp://['' @ a @ '']:'' @ show_nat (unat port)
     else pub_endpoint h port = ''tcp://'' @ h @ '':'' @ show_nat (unat port))"
proof (cases "CHR '':'' \<in> set h")
  case False
  then show ?thesis by (simp add: pub_endpoint_def)
next
  case True
  then have "h \<noteq> ''*''" "\<not> is_dns_hostname h" using dns_no_colon by auto
  with assms consider (ip) "parse_ip_addr h \<noteq> None" | (br) "is_bracketed_ipv6 h"
    by (auto simp: validate_pub_bind_host_ok)
  then show ?thesis
  proof cases
    case ip
    then have "parse_ipv6_addr h \<noteq> None"
      using True ipv4_no_colon
      by (auto simp: parse_ip_addr_def parse_ipv6_addr_def parse_with_def read_ip_addr_def
          split: option.splits prod.splits list.splits)
    moreover have "\<not> (h \<noteq> [] \<and> hd h = CHR ''['')"
      using ip ip_not_bracketed by (cases h) auto
    ultimately show ?thesis using True by (auto simp: pub_endpoint_def intro!: exI [of _ h])
  next
    case br
    then obtain a where "h = ''['' @ a @ '']''" "parse_ipv6_addr a \<noteq> None"
      by (auto simp: is_bracketed_ipv6_def strip_prefix_Some strip_suffix_Some bind_eq_Some_conv
          split: option.splits)
    then show ?thesis using True by (auto simp: pub_endpoint_def intro!: exI [of _ a])
  qed
qed

theorem pub_endpoint_wellformed_witness:
  "validate_pub_bind_host ''[::1]'' = Inr () \<and>
   pub_endpoint ''[::1]'' 7 = ''tcp://['' @ ''::1'' @ '']:'' @ show_nat 7"
proof -
  have ok: "validate_pub_bind_host ''[::1]'' = Inr ()"
    using localhost_v6
    by (simp add: validate_pub_bind_host_ok is_bracketed_ipv6_def strip_suffix_def)
  from pub_endpoint_wellformed [OF ok, of 7] ok show ?thesis by (auto simp: pub_endpoint_def)
qed

text \<open>
  The registry built from a list of service entries maps a name to its last entry when
  that entry is enabled and to nothing when it is disabled or there is none: a later
  \<open>enabled = false\<close> revokes, and no name is registered twice.
\<close>

theorem from_configs_last_wins:
  "registry_get (from_configs cfgs) nm =
     (case find (\<lambda>c. sv_name c = nm) (rev cfgs) of
        Some c \<Rightarrow> if sv_enabled c then Some c else None
      | None \<Rightarrow> None) \<and>
   distinct (map fst (from_configs cfgs))"
proof (induction cfgs rule: rev_induct)
  case Nil
  show ?case by (simp add: from_configs_def registry_new_def registry_get_def)
next
  case (snoc c cfgs)
  have "from_configs (cfgs @ [c]) = register_one c (from_configs cfgs)" by (simp add: from_configs_def)
  with snoc show ?case
    by (auto simp: registry_get_def register_one_def update_conv' delete_conv' distinct_update
        distinct_delete)
qed

end
