(* ===== verification/Checkpoint.thy ===== *)
theory Checkpoint
  imports Config
begin

text \<open>
  \<open>src/checkpoint/mod.rs\<close>: resolution, parsing and validation of a Spikenaut sidecar
  checkpoint and the restore of a network from it. The network type belongs to the
  \<open>neuromod\<close> crate: of a \<open>SpikingNetwork\<close> the record keeps the fields the daemon reads or
  writes and an opaque rest \<open>'r\<close>; its constructor and methods are fields of a
  \<open>neuromod_api\<close> argument. JSON decoding and SHA-256 are arguments as well (\<open>decoders\<close>).
\<close>

section \<open>Data of other crates\<close>

record lif_neuron =
  ln_weights :: "f32 list"
  ln_membrane_potential :: f32
  ln_threshold :: f32
  ln_base_threshold :: f32
  ln_decay_rate :: f32
  ln_last_spike :: bool

record 'r stdp_config =
  st_reward_lr :: f32
  st_rest :: 'r

record 'r spiking_network =
  nw_neurons :: "lif_neuron list"
  nw_iz_count :: usize
  nw_num_channels :: usize
  nw_stdp_config :: "'r stdp_config"
  nw_rest :: 'r

record neuro_modulators =
  nm_dopamine :: f32
  nm_serotonin :: f32
  nm_acetylcholine :: f32
  nm_norepinephrine :: f32

record 'r neuromod_api =
  na_with_dimensions :: "usize \<Rightarrow> usize \<Rightarrow> usize \<Rightarrow> 'r spiking_network"
  na_set_rm_stdp_config :: "'r stdp_config \<Rightarrow> 'r spiking_network \<Rightarrow> 'r spiking_network"
  na_default_modulators :: neuro_modulators
  na_step :: "f32 list \<Rightarrow> neuro_modulators \<Rightarrow> 'r spiking_network
     \<Rightarrow> (string + usize list) \<times> 'r spiking_network"

section \<open>Sidecar documents\<close>

datatype output_weights_field = OwAbsent | OwPresent

record sidecar_neuron =
  sc_decay_rate :: f64
  sc_membrane_potential :: f64
  sc_threshold :: f64
  sc_last_spike :: bool
  sc_weights :: "f64 list"
  sc_output_weights :: output_weights_field

record sidecar_document =
  sd_source :: "string option"
  sd_encoder :: "string option"
  sd_q88 :: "string option"
  sd_frozen_lineage :: "string option"
  sd_neurons :: "sidecar_neuron list"

record hub_config =
  hc_model_type :: "string option"
  hc_n_neurons :: "usize option"
  hc_n_channels :: "usize option"

record decoders =
  de_sidecar :: "string \<Rightarrow> string + sidecar_document"
  de_hub :: "string \<Rightarrow> string + hub_config"
  de_sha256 :: "string \<Rightarrow> u8 list"

definition SCHEMA_ID :: string where
  "SCHEMA_ID = ''spikenaut-sidecar-json/v1''"

definition SIMULATION_SCHEMA_ID :: string where
  "SIMULATION_SCHEMA_ID = ''simulation/blank''"

definition HUB_MODEL_TYPE :: string where
  "HUB_MODEL_TYPE = ''spikenaut-snn''"

definition ALLOWED_SOURCES :: "string list" where
  "ALLOWED_SOURCES = [''spikenaut_julia'']"

definition ALLOWED_Q88 :: "string list" where
  "ALLOWED_Q88 = [''signed'']"

definition BLANK_WEIGHT_ABS_MAX :: f32 where
  "BLANK_WEIGHT_ABS_MAX = f32_lit (1 / 1000000)"

record model_provenance =
  mp_schema_id :: string
  mp_source_path :: path
  mp_content_sha256 :: string
  mp_model_id :: string
  mp_encoder :: "string option"
  mp_source :: "string option"
  mp_frozen_lineage :: "string option"

datatype param_name = DecayRate usize | MembranePotential usize | Threshold usize | Weight usize usize

datatype checkpoint_error =
    InvalidConfig config_error
  | CheckpointNotFound path
  | CheckpointQueryFailed path string
  | DirectoryWithoutSidecar path
  | MemDumpRejected
  | HubConfigWithoutSidecar path
  | CheckpointReadFailed path string
  | CheckpointNotUtf8 path
  | SidecarParseFailed path string
  | NeuronsEmpty
  | SourceIncompatible string
  | SourceMissing
  | Q88Incompatible string
  | EncoderEmpty
  | OutputWeightsPresent usize
  | HubReadFailed path string
  | HubParseFailed path string
  | HubModelType string path
  | HubNeuronCount usize usize
  | HubChannelCount usize usize
  | EmptyWeightRow
  | RaggedWeightRow usize usize usize
  | LifCountMismatch usize usize
  | ChannelMismatch usize usize
  | NotFinite param_name f64
  | OverflowsF32 param_name f64
  | DecayOutsideUnit param_name f64
  | BlankCheckpoint f32
  | RestoreMismatch usize usize

section \<open>Resolving the sidecar path\<close>

definition sidecar_in_directory :: "filesystem \<Rightarrow> path \<Rightarrow> path option" where
  "sidecar_in_directory fs dir =
     (let direct = join dir ''snn_model.json'' in
      if fs_is_file fs direct then Some direct
      else let nested = join dir ''dataset/merged_v2/snn_model.json'' in
           if fs_is_file fs nested then Some nested else None)"

definition is_mem_dump :: "path \<Rightarrow> bool" where
  "is_mem_dump p =
     (case extension p of Some ext \<Rightarrow> eq_ignore_ascii_case ext ''mem'' | None \<Rightarrow> False)"

definition is_hub_config :: "path \<Rightarrow> bool" where
  "is_hub_config p = (file_name p = Some ''config.json'')"

definition resolve_from_hub_config :: "filesystem \<Rightarrow> path \<Rightarrow> checkpoint_error + path" where
  "resolve_from_hub_config fs config_path =
     (let root = (case parent config_path of Some p \<Rightarrow> p | None \<Rightarrow> config_path);
          nested = join root ''dataset/merged_v2/snn_model.json''
      in if fs_is_file fs nested then Inr nested
         else let sibling = join root ''snn_model.json'' in
              if fs_is_file fs sibling then Inr sibling
              else Inl (HubConfigWithoutSidecar config_path))"

definition resolve_sidecar_path :: "filesystem \<Rightarrow> path \<Rightarrow> checkpoint_error + path" where
  "resolve_sidecar_path fs model_path =
     (case fs_try_exists fs model_path of
        Inr False \<Rightarrow> Inl (CheckpointNotFound model_path)
      | Inl err \<Rightarrow> Inl (CheckpointQueryFailed model_path err)
      | Inr True \<Rightarrow>
          (if fs_is_dir fs model_path
           then (case sidecar_in_directory fs model_path of
                   Some p \<Rightarrow> Inr p | None \<Rightarrow> Inl (DirectoryWithoutSidecar model_path))
           else if is_mem_dump model_path then Inl MemDumpRejected
           else if is_hub_config model_path then resolve_from_hub_config fs model_path
           else Inr model_path))"

definition find_hub_config :: "filesystem \<Rightarrow> path \<Rightarrow> path option" where
  "find_hub_config fs sidecar_path =
     Option.bind (parent sidecar_path) (\<lambda>dir.
       let sibling = join dir ''config.json'' in
       if fs_is_file fs sibling then Some sibling
       else Option.bind (file_name dir) (\<lambda>nm.
         if nm = ''merged_v2''
         then Option.bind (parent dir) (\<lambda>up. Option.bind (parent up) (\<lambda>root.
                let hub = join root ''config.json'' in if fs_is_file fs hub then Some hub else None))
         else None))"

section \<open>Validation\<close>

definition parse_sidecar_file ::
  "filesystem \<Rightarrow> decoders \<Rightarrow> path \<Rightarrow> checkpoint_error + string \<times> sidecar_document" where
  "parse_sidecar_file fs de sidecar_path =
     bind_res (map_err (CheckpointReadFailed sidecar_path) (fs_read fs sidecar_path)) (\<lambda>bytes.
     bind_res (ensure (valid_utf8 bytes) (CheckpointNotUtf8 sidecar_path)) (\<lambda>_.
     bind_res (map_err (SidecarParseFailed sidecar_path) (de_sidecar de bytes)) (\<lambda>document.
     Inr (bytes, document))))"

definition require_allowed_source :: "string option \<Rightarrow> checkpoint_error + unit" where
  "require_allowed_source source =
     (case source of
        Some s \<Rightarrow> (if s \<in> set ALLOWED_SOURCES then Inr () else Inl (SourceIncompatible s))
      | None \<Rightarrow> Inl SourceMissing)"

definition validate_schema :: "sidecar_document \<Rightarrow> checkpoint_error + unit" where
  "validate_schema d =
     bind_res (ensure (sd_neurons d \<noteq> []) NeuronsEmpty) (\<lambda>_.
     bind_res (require_allowed_source (sd_source d)) (\<lambda>_.
     bind_res (case sd_q88 d of
                 Some q \<Rightarrow> (if q \<notin> set ALLOWED_Q88 then Inl (Q88Incompatible q) else Inr ())
               | None \<Rightarrow> Inr ()) (\<lambda>_.
     case sd_encoder d of
       Some e \<Rightarrow> (if e = [] then Inl EncoderEmpty else Inr ())
     | None \<Rightarrow> Inr ())))"

definition reject_output_weights :: "sidecar_document \<Rightarrow> checkpoint_error + unit" where
  "reject_output_weights d =
     for_each_res (\<lambda>(i, n). if sc_output_weights n = OwPresent then Inl (OutputWeightsPresent i) else Inr ())
       (zip [0..<length (sd_neurons d)] (sd_neurons d))"

text \<open>\<open>neurons[0]\<close> panics on an empty list; \<open>validate_schema\<close> runs first and excludes it.\<close>

definition weight_width :: "sidecar_document \<Rightarrow> checkpoint_error + usize" where
  "weight_width d =
     (let expected = length (sc_weights (hd (sd_neurons d)))
      in if expected = 0 then Inl EmptyWeightRow
         else bind_res
           (for_each_res (\<lambda>(i, n). if length (sc_weights n) \<noteq> expected
                                   then Inl (RaggedWeightRow i (length (sc_weights n)) expected) else Inr ())
              (zip [0..<length (sd_neurons d)] (sd_neurons d)))
           (\<lambda>_. Inr expected))"

definition validate_hub_config ::
  "filesystem \<Rightarrow> decoders \<Rightarrow> path \<Rightarrow> sidecar_document \<Rightarrow> checkpoint_error + unit" where
  "validate_hub_config fs de path d =
     bind_res (map_err (HubReadFailed path) (read_to_string fs path)) (\<lambda>text.
     bind_res (map_err (HubParseFailed path) (de_hub de text)) (\<lambda>hub.
     bind_res (case hc_model_type hub of
                 Some t \<Rightarrow> (if t \<noteq> HUB_MODEL_TYPE then Inl (HubModelType t path) else Inr ())
               | None \<Rightarrow> Inr ()) (\<lambda>_.
     bind_res (case hc_n_neurons hub of
                 Some n \<Rightarrow> (if n \<noteq> length (sd_neurons d) then Inl (HubNeuronCount n (length (sd_neurons d)))
                            else Inr ())
               | None \<Rightarrow> Inr ()) (\<lambda>_.
     case hc_n_channels hub of
       Some c \<Rightarrow> bind_res (weight_width d) (\<lambda>w. if c \<noteq> w then Inl (HubChannelCount c w) else Inr ())
     | None \<Rightarrow> Inr ()))))"

definition validate_ingress_contract :: "daemon_config \<Rightarrow> usize \<Rightarrow> usize \<Rightarrow> checkpoint_error + unit" where
  "validate_ingress_contract cfg lif_count channels =
     (if dc_lif_count cfg \<noteq> lif_count then Inl (LifCountMismatch lif_count (dc_lif_count cfg))
      else if dc_channels cfg \<noteq> channels then Inl (ChannelMismatch channels (dc_channels cfg))
      else Inr ())"

definition require_finite :: "f64 \<Rightarrow> param_name \<Rightarrow> checkpoint_error + unit" where
  "require_finite v ctx =
     (if \<not> is_finite v then Inl (NotFinite ctx v)
      else if \<not> is_finite (f64_as_f32 v) then Inl (OverflowsF32 ctx v)
      else Inr ())"

definition require_finite_unit_interval :: "f64 \<Rightarrow> param_name \<Rightarrow> checkpoint_error + unit" where
  "require_finite_unit_interval v ctx =
     bind_res (require_finite v ctx) (\<lambda>_.
       ensure (f_lt f_zero v \<and> f_lt v f_one) (DecayOutsideUnit ctx v))"

definition validate_neuron :: "nat \<times> sidecar_neuron \<Rightarrow> checkpoint_error + unit" where
  "validate_neuron = (\<lambda>(i, n).
     bind_res (require_finite_unit_interval (sc_decay_rate n) (DecayRate i)) (\<lambda>_.
     bind_res (require_finite (sc_membrane_potential n) (MembranePotential i)) (\<lambda>_.
     bind_res (require_finite (sc_threshold n) (Threshold i)) (\<lambda>_.
     for_each_res (\<lambda>(j, w). require_finite w (Weight i j))
       (zip [0..<length (sc_weights n)] (sc_weights n))))))"

definition validate_finite_parameters :: "sidecar_document \<Rightarrow> checkpoint_error + unit" where
  "validate_finite_parameters d =
     for_each_res validate_neuron (zip [0..<length (sd_neurons d)] (sd_neurons d))"

definition max_abs_weight :: "sidecar_document \<Rightarrow> f32" where
  "max_abs_weight d =
     foldl (\<lambda>m n. foldl (\<lambda>m w. f_max m (f64_as_f32 (f_abs w))) m (sc_weights n)) f_zero (sd_neurons d)"

definition validate_nonblank_weights :: "sidecar_document \<Rightarrow> checkpoint_error + unit" where
  "validate_nonblank_weights d =
     (let max_abs = max_abs_weight d
      in if f_le max_abs BLANK_WEIGHT_ABS_MAX then Inl (BlankCheckpoint max_abs) else Inr ())"

definition validate_live_document ::
  "filesystem \<Rightarrow> decoders \<Rightarrow> daemon_config \<Rightarrow> sidecar_document \<Rightarrow> path \<Rightarrow> checkpoint_error + unit" where
  "validate_live_document fs de cfg d sidecar_path =
     bind_res (validate_schema d) (\<lambda>_.
     bind_res (reject_output_weights d) (\<lambda>_.
     bind_res (case find_hub_config fs sidecar_path of
                 Some hub \<Rightarrow> validate_hub_config fs de hub d | None \<Rightarrow> Inr ()) (\<lambda>_.
     bind_res (weight_width d) (\<lambda>channels.
     bind_res (validate_ingress_contract cfg (length (sd_neurons d)) channels) (\<lambda>_.
     bind_res (validate_finite_parameters d) (\<lambda>_.
     validate_nonblank_weights d))))))"

section \<open>Restore\<close>

definition restore_neuron :: "lif_neuron \<Rightarrow> sidecar_neuron \<Rightarrow> lif_neuron" where
  "restore_neuron dst src =
     dst\<lparr>ln_weights := map f64_as_f32 (sc_weights src),
         ln_membrane_potential := f64_as_f32 (sc_membrane_potential src),
         ln_threshold := f64_as_f32 (sc_threshold src),
         ln_base_threshold := f64_as_f32 (sc_threshold src),
         ln_decay_rate := f64_as_f32 (sc_decay_rate src),
         ln_last_spike := sc_last_spike src\<rparr>"

definition apply_sidecar ::
  "'r neuromod_api \<Rightarrow> 'r spiking_network \<Rightarrow> sidecar_document \<Rightarrow> checkpoint_error + 'r spiking_network" where
  "apply_sidecar na network d =
     (if length (nw_neurons network) \<noteq> length (sd_neurons d)
      then Inl (RestoreMismatch (length (nw_neurons network)) (length (sd_neurons d)))
      else let network = network\<lparr>nw_neurons := map2 restore_neuron (nw_neurons network) (sd_neurons d)\<rparr>
           in Inr (na_set_rm_stdp_config na ((nw_stdp_config network)\<lparr>st_reward_lr := f_zero\<rparr>) network))"

definition restore_spiking_network ::
  "'r neuromod_api \<Rightarrow> daemon_config \<Rightarrow> sidecar_document \<Rightarrow> checkpoint_error + 'r spiking_network" where
  "restore_spiking_network na cfg d =
     apply_sidecar na (na_with_dimensions na (dc_lif_count cfg) (dc_izh_count cfg) (dc_channels cfg)) d"

definition HEX :: string where
  "HEX = ''0123456789abcdef''"

definition hex_lower :: "u8 list \<Rightarrow> string" where
  "hex_lower bytes = concat (map (\<lambda>b. [HEX ! unat (drop_bit 4 b), HEX ! unat (and b 0x0F)]) bytes)"

definition hex_sha256 :: "decoders \<Rightarrow> string \<Rightarrow> string" where
  "hex_sha256 de bytes = hex_lower (de_sha256 de bytes)"

definition model_id :: "sidecar_document \<Rightarrow> path \<Rightarrow> string" where
  "model_id d sidecar_path =
     (case (case sd_frozen_lineage d of Some l \<Rightarrow> (if l \<noteq> [] then Some l else None) | None \<Rightarrow> None) of
        Some lineage \<Rightarrow> ''spikenaut-snn:'' @ lineage
      | None \<Rightarrow>
          (case (sd_source d, sd_encoder d) of
             (Some source, Some encoder) \<Rightarrow> ''spikenaut-snn:'' @ source @ '':'' @ encoder
           | _ \<Rightarrow> ''spikenaut-snn:'' @ path_display sidecar_path))"

definition provenance_of :: "decoders \<Rightarrow> sidecar_document \<Rightarrow> path \<Rightarrow> string \<Rightarrow> model_provenance" where
  "provenance_of de d sidecar_path bytes =
     \<lparr> mp_schema_id = SCHEMA_ID, mp_source_path = sidecar_path,
       mp_content_sha256 = hex_sha256 de bytes, mp_model_id = model_id d sidecar_path,
       mp_encoder = sd_encoder d, mp_source = sd_source d,
       mp_frozen_lineage = sd_frozen_lineage d \<rparr>"

definition blank_simulation_network ::
  "'r neuromod_api \<Rightarrow> daemon_config \<Rightarrow> 'r spiking_network \<times> model_provenance" where
  "blank_simulation_network na cfg =
     (na_with_dimensions na (dc_lif_count cfg) (dc_izh_count cfg) (dc_channels cfg),
      \<lparr> mp_schema_id = SIMULATION_SCHEMA_ID, mp_source_path = [Normal ''<simulation>''],
        mp_content_sha256 = ''none'', mp_model_id = ''simulation/blank'', mp_encoder = None,
        mp_source = None, mp_frozen_lineage = None \<rparr>)"

definition load_live_checkpoint ::
  "filesystem \<Rightarrow> decoders \<Rightarrow> 'r neuromod_api \<Rightarrow> daemon_config
     \<Rightarrow> checkpoint_error + 'r spiking_network \<times> model_provenance" where
  "load_live_checkpoint fs de na cfg =
     bind_res (resolve_sidecar_path fs (dc_model_path cfg)) (\<lambda>sidecar_path.
     bind_res (parse_sidecar_file fs de sidecar_path) (\<lambda>(bytes, d).
     bind_res (validate_live_document fs de cfg d sidecar_path) (\<lambda>_.
     bind_res (restore_spiking_network na cfg d) (\<lambda>network.
     Inr (network, provenance_of de d sidecar_path bytes)))))"

definition restore_network ::
  "filesystem \<Rightarrow> decoders \<Rightarrow> 'r neuromod_api \<Rightarrow> daemon_config
     \<Rightarrow> checkpoint_error + 'r spiking_network \<times> model_provenance" where
  "restore_network fs de na cfg =
     bind_res (map_err InvalidConfig (daemon_config_validate cfg)) (\<lambda>_.
       case dc_runtime_mode cfg of
         Simulation \<Rightarrow> Inr (blank_simulation_network na cfg)
       | Live \<Rightarrow> load_live_checkpoint fs de na cfg)"

section \<open>Lemmas\<close>

lemma for_each_indexed_ok:
  "for_each_res f (zip [0..<length xs] xs) = Inr () \<longleftrightarrow> (\<forall>i < length xs. is_ok (f (i, xs ! i)))"
proof -
  have "set (zip [0..<length xs] xs) = (\<lambda>i. (i, xs ! i)) ` {..<length xs}"
    by (auto simp: set_zip) (metis add.left_neutral nth_upt)
  then show ?thesis by (auto simp: for_each_res_ok)
qed

lemma for_each_plain_ok:
  "(\<And>i x. is_ok (f (i, x)) = P x) \<Longrightarrow>
     for_each_res f (zip [0..<length xs] xs) = Inr () \<longleftrightarrow> (\<forall>x \<in> set xs. P x)"
  by (auto simp: for_each_indexed_ok in_set_conv_nth) (metis nth_mem)

lemma reject_output_weights_ok:
  "reject_output_weights d = Inr () \<longleftrightarrow> (\<forall>n \<in> set (sd_neurons d). sc_output_weights n = OwAbsent)"
  unfolding reject_output_weights_def
  by (rule for_each_plain_ok) (use output_weights_field.exhaust in auto)

lemma weight_width_ok:
  "sd_neurons d \<noteq> [] \<Longrightarrow> weight_width d = Inr w \<longleftrightarrow>
     0 < w \<and> (\<forall>n \<in> set (sd_neurons d). length (sc_weights n) = w)"
proof -
  assume ne: "sd_neurons d \<noteq> []"
  let ?e = "length (sc_weights (hd (sd_neurons d)))"
  let ?f = "\<lambda>(i :: nat, n). if length (sc_weights n) \<noteq> ?e
    then Inl (RaggedWeightRow i (length (sc_weights n)) ?e) else Inr ()"
  have "for_each_res ?f (zip [0..<length (sd_neurons d)] (sd_neurons d)) = Inr () \<longleftrightarrow>
      (\<forall>n \<in> set (sd_neurons d). length (sc_weights n) = ?e)"
    by (rule for_each_plain_ok) auto
  moreover have "hd (sd_neurons d) \<in> set (sd_neurons d)" using ne by simp
  ultimately show ?thesis
    by (auto simp: weight_width_def Let_def bind_res_Inr)
qed

lemma require_finite_ok:
  "require_finite v c = Inr () \<longleftrightarrow> is_finite v \<and> is_finite (f64_as_f32 v)"
  by (auto simp: require_finite_def)

definition neuron_ok :: "sidecar_neuron \<Rightarrow> bool" where
  "neuron_ok n \<longleftrightarrow>
     is_finite (f64_as_f32 (sc_decay_rate n)) \<and> f_lt f_zero (sc_decay_rate n) \<and>
     f_lt (sc_decay_rate n) f_one \<and>
     is_finite (f64_as_f32 (sc_membrane_potential n)) \<and> is_finite (f64_as_f32 (sc_threshold n)) \<and>
     list_all (\<lambda>w. is_finite (f64_as_f32 w)) (sc_weights n)"

lemma finite_f32: "is_finite (f64_as_f32 v) \<Longrightarrow> is_finite v"
  by (cases v) auto

lemma validate_neuron_ok: "is_ok (validate_neuron (i, n)) = neuron_ok n"
proof -
  have w: "for_each_res (\<lambda>(j, w). require_finite w (Weight i j))
       (zip [0..<length (sc_weights n)] (sc_weights n)) = Inr () \<longleftrightarrow>
      (\<forall>w \<in> set (sc_weights n). is_finite (f64_as_f32 w))"
    by (rule for_each_plain_ok) (use finite_f32 in \<open>auto simp: is_ok_iff require_finite_ok\<close>)
  have unit: "is_ok r \<longleftrightarrow> r = Inr ()" for r :: "checkpoint_error + unit" by (cases r) auto
  show ?thesis
    unfolding unit validate_neuron_def neuron_ok_def prod.case bind_unit w
    using finite_f32
    by (auto simp: require_finite_unit_interval_def bind_unit require_finite_ok list_all_iff)
qed

lemma validate_finite_parameters_ok:
  "validate_finite_parameters d = Inr () \<longleftrightarrow> list_all neuron_ok (sd_neurons d)"
  unfolding validate_finite_parameters_def list_all_iff
  by (rule for_each_plain_ok) (rule validate_neuron_ok)

lemma foldl_keeps: "P a \<Longrightarrow> (\<And>a x. P a \<Longrightarrow> x \<in> set xs \<Longrightarrow> P (f a x)) \<Longrightarrow> P (foldl f a xs)"
  by (induction xs arbitrary: a) auto

lemma blank_max_nonneg: "f_le f_zero BLANK_WEIGHT_ABS_MAX"
  by (simp add: BLANK_WEIGHT_ABS_MAX_def f32_lit_def round_f32_def fl_round_def f_zero_def
      round_mag_nonneg Let_def)

lemma nonblank_weight:
  assumes "validate_nonblank_weights d = Inr ()"
  shows "\<exists>n \<in> set (sd_neurons d). \<exists>w \<in> set (sc_weights n). \<not> f_le (f64_as_f32 (f_abs w)) BLANK_WEIGHT_ABS_MAX"
proof (rule ccontr)
  let ?P = "\<lambda>v. f_le v BLANK_WEIGHT_ABS_MAX"
  assume "\<not> ?thesis"
  then have all: "?P (f64_as_f32 (f_abs w))" if "n \<in> set (sd_neurons d)" "w \<in> set (sc_weights n)" for n w
    using that by blast
  have "?P (max_abs_weight d)"
    unfolding max_abs_weight_def
    by (intro foldl_keeps [where P = ?P]) (auto simp: f_max_def blank_max_nonneg all)
  with assms show False by (simp add: validate_nonblank_weights_def Let_def)
qed

lemma f64_as_f32_abs: "f64_as_f32 (f_abs v) = f_abs (f64_as_f32 v)"
  by (cases v) (simp_all add: round_f32_def fl_round_def Let_def)

lemma validate_schema_ok:
  "validate_schema d = Inr () \<longleftrightarrow>
     sd_neurons d \<noteq> [] \<and> sd_source d = Some ''spikenaut_julia'' \<and>
     option_all (\<lambda>q. q = ''signed'') (sd_q88 d) \<and> option_all (\<lambda>e. e \<noteq> []) (sd_encoder d)"
  unfolding validate_schema_def bind_unit ensure_Inr
  by (cases "sd_source d"; cases "sd_q88 d"; cases "sd_encoder d")
    (auto simp: require_allowed_source_def ALLOWED_SOURCES_def ALLOWED_Q88_def)

text \<open>What the whole of \<open>validate_live_document\<close> guarantees.\<close>

definition live_document_ok :: "daemon_config \<Rightarrow> sidecar_document \<Rightarrow> bool" where
  "live_document_ok cfg d \<longleftrightarrow>
     sd_source d = Some ''spikenaut_julia'' \<and>
     length (sd_neurons d) = dc_lif_count cfg \<and>
     list_all (\<lambda>n. length (sc_weights n) = dc_channels cfg \<and> neuron_ok n \<and>
       sc_output_weights n = OwAbsent) (sd_neurons d) \<and>
     list_ex (\<lambda>n. list_ex (\<lambda>w. \<not> f_le (f64_as_f32 (f_abs w)) BLANK_WEIGHT_ABS_MAX) (sc_weights n))
       (sd_neurons d)"

lemma validate_live_document_sound:
  assumes "validate_live_document fs de cfg d p = Inr ()"
  shows "live_document_ok cfg d"
proof -
  from assms obtain w where
    schema: "validate_schema d = Inr ()" and ow: "reject_output_weights d = Inr ()" and
    w: "weight_width d = Inr w" and c: "validate_ingress_contract cfg (length (sd_neurons d)) w = Inr ()" and
    fin: "validate_finite_parameters d = Inr ()" and nb: "validate_nonblank_weights d = Inr ()"
    by (auto simp: validate_live_document_def bind_res_Inr)
  have ne: "sd_neurons d \<noteq> []" using schema by (simp add: validate_schema_ok)
  have "dc_lif_count cfg = length (sd_neurons d)" "dc_channels cfg = w"
    using c by (simp_all add: validate_ingress_contract_def split: if_splits)
  with schema ow w fin nonblank_weight [OF nb] show ?thesis
    unfolding live_document_ok_def
    by (auto simp: validate_schema_ok reject_output_weights_ok weight_width_ok [OF ne]
        validate_finite_parameters_ok list_all_iff list_ex_iff)
qed

section \<open>Properties\<close>

definition restored_neuron_ok :: "daemon_config \<Rightarrow> lif_neuron \<Rightarrow> bool" where
  "restored_neuron_ok cfg n \<longleftrightarrow>
     length (ln_weights n) = dc_channels cfg \<and> list_all is_finite (ln_weights n) \<and>
     is_finite (ln_membrane_potential n) \<and> is_finite (ln_threshold n) \<and>
     ln_base_threshold n = ln_threshold n \<and> is_finite (ln_decay_rate n)"

lemma restore_neuron_ok:
  "neuron_ok src \<Longrightarrow> length (sc_weights src) = dc_channels cfg \<Longrightarrow>
     restored_neuron_ok cfg (restore_neuron dst src)"
  by (auto simp: restored_neuron_ok_def restore_neuron_def neuron_ok_def list_all_iff)

lemma map2_all: "length xs = length ys \<Longrightarrow> (\<And>x y. y \<in> set ys \<Longrightarrow> P (f x y)) \<Longrightarrow> list_all P (map2 f xs ys)"
  by (induction xs ys rule: list_induct2) auto

lemma map2_ex:
  "length xs = length ys \<Longrightarrow> y \<in> set ys \<Longrightarrow> (\<And>x. P (f x y)) \<Longrightarrow> list_ex P (map2 f xs ys)"
  by (induction xs ys rule: list_induct2) auto

text \<open>
  C5: Live mode fails closed: when \<open>restore_network\<close> returns a network in live mode, it was
  read from an existing sidecar of the allowed source, has the configured number of neurons
  and input channels, all its parameters are finite after narrowing to \<open>f32\<close>, at least one
  weight is above the blank threshold, learning is frozen, and the provenance names the
  sidecar schema and the digest of the bytes that were read.
\<close>

theorem live_restore_sound:
  assumes keep: "\<forall>c n. nw_neurons (na_set_rm_stdp_config na c n) = nw_neurons n \<and>
      nw_stdp_config (na_set_rm_stdp_config na c n) = c"
    and "dc_runtime_mode cfg = Live"
    and "restore_network fs de na cfg = Inr (net, prov)"
  shows "length (nw_neurons net) = dc_lif_count cfg \<and>
    list_all (restored_neuron_ok cfg) (nw_neurons net) \<and>
    list_ex (\<lambda>n. list_ex (\<lambda>w. \<not> f_le (f_abs w) BLANK_WEIGHT_ABS_MAX) (ln_weights n)) (nw_neurons net) \<and>
    st_reward_lr (nw_stdp_config net) = f_zero \<and>
    mp_schema_id prov = SCHEMA_ID \<and> mp_source prov = Some ''spikenaut_julia'' \<and>
    (\<exists>bytes. resolve_sidecar_path fs (dc_model_path cfg) = Inr (mp_source_path prov) \<and>
       fs_read fs (mp_source_path prov) = Inr bytes \<and>
       mp_content_sha256 prov = hex_sha256 de bytes)"
proof -
  from assms(2,3) have "load_live_checkpoint fs de na cfg = Inr (net, prov)"
    by (auto simp: restore_network_def bind_res_Inr)
  then obtain p bytes d where
    res: "resolve_sidecar_path fs (dc_model_path cfg) = Inr p" and
    parse: "parse_sidecar_file fs de p = Inr (bytes, d)" and
    val: "validate_live_document fs de cfg d p = Inr ()" and
    rest: "restore_spiking_network na cfg d = Inr net" and
    prov: "prov = provenance_of de d p bytes"
    by (auto simp: load_live_checkpoint_def bind_res_Inr)
  have ok: "live_document_ok cfg d" using val by (rule validate_live_document_sound)
  let ?net = "na_with_dimensions na (dc_lif_count cfg) (dc_izh_count cfg) (dc_channels cfg)"
  from rest have len: "length (nw_neurons ?net) = length (sd_neurons d)" and
    n: "nw_neurons net = map2 restore_neuron (nw_neurons ?net) (sd_neurons d)" and
    lr: "st_reward_lr (nw_stdp_config net) = f_zero"
    using keep by (auto simp: restore_spiking_network_def apply_sidecar_def Let_def split: if_splits)
  have "list_all (restored_neuron_ok cfg) (nw_neurons net)"
    unfolding n using ok
    by (intro map2_all [OF len] restore_neuron_ok) (auto simp: live_document_ok_def list_all_iff)
  moreover obtain m where "m \<in> set (sd_neurons d)"
      "list_ex (\<lambda>w. \<not> f_le (f64_as_f32 (f_abs w)) BLANK_WEIGHT_ABS_MAX) (sc_weights m)"
    using ok by (auto simp: live_document_ok_def list_ex_iff)
  then have "list_ex (\<lambda>n. list_ex (\<lambda>w. \<not> f_le (f_abs w) BLANK_WEIGHT_ABS_MAX) (ln_weights n)) (nw_neurons net)"
    unfolding n by (intro map2_ex [OF len]) (auto simp: restore_neuron_def list_ex_iff f64_as_f32_abs)
  moreover have "fs_read fs p = Inr bytes" using parse by (auto simp: parse_sidecar_file_def bind_res_Inr)
  ultimately show ?thesis
    using ok n len lr res by (simp add: prov provenance_of_def live_document_ok_def)
qed

lemma blank_value: "BLANK_WEIGHT_ABS_MAX = Fin False (8796093 / 8796093022208)"
  using round_mag_eqI [of "- 20" "1 / 1000000" "- 43" "- 126" 24 8796093]
  by (simp add: BLANK_WEIGHT_ABS_MAX_def f32_lit_def round_f32_def fl_round_def power_int_def
      power_one_over)

lemma f32_half: "f64_as_f32 (Fin False (1 / 2)) = Fin False (1 / 2)"
  using round_mag_eqI [of "- 1" "1 / 2" "- 24" "- 126" 24 8388608]
  by (simp add: round_f32_def fl_round_def power_int_def power_one_over)

lemma f32_one [simp]: "f64_as_f32 f_one = f_one"
  by (simp add: f_one_def round_f32_def fl_round_def)

lemma f32_zero [simp]: "f64_as_f32 f_zero = f_zero"
  by (simp add: f_zero_def round_f32_def fl_round_def round_mag_def)

subsection \<open>A concrete checkpoint\<close>

definition demo_cfg :: daemon_config where
  "demo_cfg =
     \<lparr> dc_tick_rate_hz = 1000, dc_log_level = ''info'', dc_spine_sub_port = 5555, dc_spine_pub_port = 5556,
       dc_spine_pub_bind_host = ''*'', dc_spine_pub_sndhwm = 1000, dc_spine_pub_linger_ms = 0,
       dc_spine_pub_send_empty_batches = True, dc_model_path = [Normal ''m.json''], dc_lif_count = 1,
       dc_izh_count = 0, dc_channels = 1, dc_runtime_mode = Live, dc_services = [],
       dc_ingress = ingress_config_default, dc_control_bind = None \<rparr>"

definition demo_neuron :: "f64 \<Rightarrow> sidecar_neuron" where
  "demo_neuron decay =
     \<lparr> sc_decay_rate = decay, sc_membrane_potential = f_zero, sc_threshold = f_one,
       sc_last_spike = False, sc_weights = [f_one], sc_output_weights = OwAbsent \<rparr>"

definition demo_doc :: "f64 \<Rightarrow> sidecar_document" where
  "demo_doc decay =
     \<lparr> sd_source = Some ''spikenaut_julia'', sd_encoder = None, sd_q88 = None, sd_frozen_lineage = None,
       sd_neurons = [demo_neuron decay] \<rparr>"

definition demo_fs :: filesystem where
  "demo_fs =
     \<lparr> fs_try_exists = (\<lambda>_. Inr True), fs_is_dir = (\<lambda>_. False), fs_is_file = (\<lambda>_. False),
       fs_read = (\<lambda>_. Inr ''x'') \<rparr>"

definition demo_decoders :: "f64 \<Rightarrow> decoders" where
  "demo_decoders decay =
     \<lparr> de_sidecar = (\<lambda>_. Inr (demo_doc decay)), de_hub = (\<lambda>_. Inl []), de_sha256 = (\<lambda>_. [0xAB]) \<rparr>"

definition demo_na :: "unit neuromod_api" where
  "demo_na =
     \<lparr> na_with_dimensions = (\<lambda>l i c. \<lparr> nw_neurons = replicate l \<lparr> ln_weights = replicate c f_zero,
           ln_membrane_potential = f_zero, ln_threshold = f_one, ln_base_threshold = f_one,
           ln_decay_rate = f_one, ln_last_spike = False \<rparr>, nw_iz_count = i, nw_num_channels = c,
           nw_stdp_config = \<lparr> st_reward_lr = f_one, st_rest = () \<rparr>, nw_rest = () \<rparr>),
       na_set_rm_stdp_config = (\<lambda>c n. n\<lparr>nw_stdp_config := c\<rparr>),
       na_default_modulators = \<lparr> nm_dopamine = f_zero, nm_serotonin = f_zero, nm_acetylcholine = f_zero,
           nm_norepinephrine = f_zero \<rparr>,
       na_step = (\<lambda>xs m n. (Inr [0], n)) \<rparr>"

lemma demo_na_keeps: "\<forall>c n. nw_neurons (na_set_rm_stdp_config demo_na c n) = nw_neurons n \<and>
    nw_stdp_config (na_set_rm_stdp_config demo_na c n) = c"
  by (simp add: demo_na_def)

lemma demo_cfg_fields [simp]:
  "dc_lif_count demo_cfg = 1" "dc_izh_count demo_cfg = 0" "dc_channels demo_cfg = 1"
  "dc_model_path demo_cfg = [Normal ''m.json'']" "dc_runtime_mode demo_cfg = Live"
  "dc_ingress demo_cfg = ingress_config_default" "dc_control_bind demo_cfg = None"
  by (simp_all add: demo_cfg_def)

lemma demo_cfg_valid: "daemon_config_validate demo_cfg = Inr ()"
proof -
  have "ic_max_payload_len ingress_config_default = 4096" by (simp add: ingress_config_default_def)
  then show ?thesis
    unfolding daemon_config_validate_def bind_unit ensure_Inr map_err_Inr
    by (simp add: validate_dimensions_ok MAX_NETWORK_INPUTS_def validate_defaults
        validate_log_level_ok log_level_valid_def validate_pub_bind_host_ok validate_pub_socket_opts_ok
        validate_control_bind_ok) (simp add: demo_cfg_def)
qed

lemma demo_restore:
  assumes "f_lt f_zero decay" "f_lt decay f_one" "is_finite (f64_as_f32 decay)"
  shows "\<exists>net prov. restore_network demo_fs (demo_decoders decay) demo_na demo_cfg = Inr (net, prov) \<and>
    map ln_decay_rate (nw_neurons net) = [f64_as_f32 decay] \<and> map ln_weights (nw_neurons net) = [[f_one]] \<and>
    nw_iz_count net = 0 \<and> nw_num_channels net = 1 \<and> mp_schema_id prov = SCHEMA_ID"
proof -
  have res: "resolve_sidecar_path demo_fs [Normal ''m.json''] = Inr [Normal ''m.json'']"
    by (simp add: resolve_sidecar_path_def demo_fs_def is_mem_dump_def extension_def file_name_def
        eq_ignore_ascii_case_def is_hub_config_def)
  have parse: "parse_sidecar_file demo_fs (demo_decoders decay) [Normal ''m.json''] = Inr (''x'', demo_doc decay)"
    by (simp add: parse_sidecar_file_def demo_fs_def demo_decoders_def in_range_def)
  have hub: "find_hub_config demo_fs [Normal ''m.json''] = None"
    by (simp add: find_hub_config_def demo_fs_def parent_def file_name_def)
  have "neuron_ok (demo_neuron decay)"
    using assms by (simp add: neuron_ok_def demo_neuron_def) (simp add: f_zero_def f_one_def)
  then have fin: "validate_finite_parameters (demo_doc decay) = Inr ()"
    by (simp add: validate_finite_parameters_ok demo_doc_def)
  have "max_abs_weight (demo_doc decay) = f_one"
    by (simp add: max_abs_weight_def demo_doc_def demo_neuron_def f_max_def f_zero_def f_one_def
        round_f32_def fl_round_def)
  then have nb: "validate_nonblank_weights (demo_doc decay) = Inr ()"
    by (simp add: validate_nonblank_weights_def blank_value f_one_def)
  have w: "weight_width (demo_doc decay) = Inr 1"
    by (simp add: weight_width_def demo_doc_def demo_neuron_def)
  have val: "validate_live_document demo_fs (demo_decoders decay) demo_cfg (demo_doc decay) [Normal ''m.json''] = Inr ()"
    unfolding validate_live_document_def hub option.case bind_unit
    using fin nb
    by (simp add: w bind_unit) (simp add: validate_schema_ok reject_output_weights_ok
        validate_ingress_contract_def demo_doc_def demo_neuron_def)
  show ?thesis
    using res parse val demo_cfg_valid
    by (simp add: restore_network_def load_live_checkpoint_def restore_spiking_network_def apply_sidecar_def
        demo_na_def demo_doc_def demo_neuron_def restore_neuron_def provenance_of_def)
qed

theorem live_restore_sound_witness:
  "\<exists>net prov. restore_network demo_fs (demo_decoders (Fin False (1 / 2))) demo_na demo_cfg = Inr (net, prov) \<and>
     length (nw_neurons net) = 1 \<and> mp_schema_id prov = SCHEMA_ID"
proof -
  obtain net prov where r: "restore_network demo_fs (demo_decoders (Fin False (1 / 2))) demo_na demo_cfg = Inr (net, prov)"
    using demo_restore [of "Fin False (1 / 2)"] f32_half by (auto simp: f_zero_def f_one_def)
  with live_restore_sound [OF demo_na_keeps _ r] show ?thesis by auto
qed


end
