(* ===== verification/Corpus_Ingress.thy ===== *)
theory Corpus_Ingress
  imports Packet
begin

text \<open>
  \<open>src/ingress/corpus.rs\<close>: validation of typed \<open>corpus-ipc\<close> messages. The message types
  belong to the \<open>corpus-ipc\<close> crate; only the fields and variants the daemon names are kept,
  and variants it always refuses carry no payload. \<open>serde_json::from_slice\<close> (\<open>decode\<close>) and
  \<open>StimulusBatch::validate\<close> (\<open>validate\<close>) are code of other crates: both are arguments.
  Bytes are characters.
\<close>

section \<open>Messages\<close>

record stimulus_batch =
  sb_values :: "f32 list"
  sb_valid_mask :: "bool list option"
  sb_batch_id :: u64
  sb_timestamp :: u64
  sb_session_id :: "string option"
  sb_metadata :: "(string \<rightharpoonup> string) option"

record neuromodulator_snapshot =
  ns_dopamine :: f32
  ns_cortisol :: f32
  ns_acetylcholine :: f32
  ns_tempo :: f32

record corpus_spike =
  cs_channel :: u16
  cs_time :: u32
  cs_strength :: f32

record spike_batch =
  pb_session_id :: "string option"
  pb_batch_id :: u64
  pb_timestamp :: u64
  pb_spikes :: "corpus_spike list"
  pb_metadata :: "(string \<rightharpoonup> string) option"

datatype ipc_message =
    IpcStimuli stimulus_batch
  | IpcNeuromodulators neuromodulator_snapshot
  | IpcSpikes spike_batch
  | IpcEmbeddings
  | IpcLoss
  | IpcConfigUpdate
  | IpcGradientUpdate
  | IpcEligibilityTraces
  | IpcTrainingComplete
  | IpcShutdown
  | IpcPing

definition STIMULUS_SCHEMA :: string where
  "STIMULUS_SCHEMA = ''corpus-ipc.stimulus.v1''"

record ingress_policy =
  pol_expected_channels :: usize
  pol_max_age :: "duration option"

definition ingress_policy_new :: "usize \<Rightarrow> duration option \<Rightarrow> ingress_policy" where
  "ingress_policy_new ch age = \<lparr> pol_expected_channels = ch, pol_max_age = age \<rparr>"

datatype ingress_error =
    EDeserialize string
  | EUnexpectedVariant string
  | EWidth usize usize
  | EStale u64 u64
  | EFuture u64 u64
  | ESchema string
  | EStimulus string

fun ingress_error_display :: "ingress_error \<Rightarrow> string" where
  "ingress_error_display (EDeserialize msg) = ''IPC schema deserialize error: '' @ msg"
| "ingress_error_display (EUnexpectedVariant nm) =
     ''unexpected IpcMessage variant on stimulus ingress: '' @ nm"
| "ingress_error_display (EWidth expected got) =
     ''stimulus width '' @ show_nat got @ '' does not match configured channels '' @ show_nat expected"
| "ingress_error_display (EStale age max_age) =
     ''stimulus is stale: age '' @ show_u64 age @ '' ns exceeds '' @ show_u64 max_age @ '' ns''"
| "ingress_error_display (EFuture ts now) =
     ''stimulus timestamp '' @ show_u64 ts @ '' is in the future (now '' @ show_u64 now @ '')''"
| "ingress_error_display (ESchema msg) = ''stimulus schema incompatibility: '' @ msg"
| "ingress_error_display (EStimulus msg) = ''stimulus batch invalid: '' @ msg"

section \<open>Acceptance\<close>

definition require_stimulus_schema :: "stimulus_batch \<Rightarrow> ingress_error + unit" where
  "require_stimulus_schema batch =
     (case sb_metadata batch of
        Some custom \<Rightarrow>
          (case custom ''schema'' of
             Some schema \<Rightarrow>
               (if schema = STIMULUS_SCHEMA then Inr ()
                else Inl (ESchema (''unsupported schema '' @ [CHR 0x27] @ schema @ [CHR 0x27] @
                  '', expected '' @ STIMULUS_SCHEMA)))
           | None \<Rightarrow> Inl (ESchema ''missing metadata.custom.schema''))
      | None \<Rightarrow> Inl (ESchema ''missing batch metadata''))"

text \<open>\<open>max_age.as_nanos() as u64\<close> keeps the low 64 bits.\<close>

definition reject_stale_or_future :: "u64 \<Rightarrow> u64 \<Rightarrow> duration option \<Rightarrow> ingress_error + unit" where
  "reject_stale_or_future timestamp now_ns max_age =
     (case max_age of
        None \<Rightarrow> Inr ()
      | Some max_age \<Rightarrow>
          (if timestamp > now_ns then Inl (EFuture timestamp now_ns)
           else let max_age_ns = (of_nat max_age :: u64);
                    age_ns = now_ns - timestamp
                in if age_ns > max_age_ns then Inl (EStale age_ns max_age_ns) else Inr ()))"

definition accept_stimulus_batch ::
  "(stimulus_batch \<Rightarrow> string + unit) \<Rightarrow> stimulus_batch \<Rightarrow> ingress_policy \<Rightarrow> u64
     \<Rightarrow> ingress_error + ingress_packet" where
  "accept_stimulus_batch validate batch policy now_ns =
     bind_res (map_err EStimulus (validate batch)) (\<lambda>_.
     bind_res (require_stimulus_schema batch) (\<lambda>_.
     if pol_expected_channels policy \<noteq> 0 \<and> length (sb_values batch) \<noteq> pol_expected_channels policy
     then Inl (EWidth (pol_expected_channels policy) (length (sb_values batch)))
     else bind_res (reject_stale_or_future (sb_timestamp batch) now_ns (pol_max_age policy)) (\<lambda>_.
       Inr \<lparr> ip_stimuli = sb_values batch, ip_modulators = None,
             ip_valid_mask = sb_valid_mask batch, ip_batch_id = Some (sb_batch_id batch),
             ip_timestamp_ns = Some (sb_timestamp batch), ip_session_id = sb_session_id batch,
             ip_rejected = False \<rparr>)))"

definition accept_ipc_message ::
  "(stimulus_batch \<Rightarrow> string + unit) \<Rightarrow> ipc_message \<Rightarrow> ingress_policy \<Rightarrow> u64
     \<Rightarrow> ingress_error + ingress_packet" where
  "accept_ipc_message validate message policy now_ns =
     (case message of
        IpcStimuli batch \<Rightarrow> accept_stimulus_batch validate batch policy now_ns
      | IpcNeuromodulators s \<Rightarrow>
          Inr (packet_default\<lparr>ip_stimuli := [], ip_modulators :=
            Some [ns_dopamine s, ns_cortisol s, ns_acetylcholine s, ns_tempo s]\<rparr>)
      | IpcSpikes _ \<Rightarrow> Inl (EUnexpectedVariant ''Spikes'')
      | IpcEmbeddings \<Rightarrow> Inl (EUnexpectedVariant ''Embeddings'')
      | IpcLoss \<Rightarrow> Inl (EUnexpectedVariant ''Loss'')
      | IpcConfigUpdate \<Rightarrow> Inl (EUnexpectedVariant ''ConfigUpdate'')
      | IpcGradientUpdate \<Rightarrow> Inl (EUnexpectedVariant ''GradientUpdate'')
      | IpcEligibilityTraces \<Rightarrow> Inl (EUnexpectedVariant ''EligibilityTraces'')
      | IpcTrainingComplete \<Rightarrow> Inl (EUnexpectedVariant ''TrainingComplete'')
      | IpcShutdown \<Rightarrow> Inl (EUnexpectedVariant ''Shutdown'')
      | IpcPing \<Rightarrow> Inl (EUnexpectedVariant ''Ping''))"

definition accept_ipc_json ::
  "(string \<Rightarrow> string + ipc_message) \<Rightarrow> (stimulus_batch \<Rightarrow> string + unit) \<Rightarrow> string
     \<Rightarrow> ingress_policy \<Rightarrow> u64 \<Rightarrow> ingress_error + ingress_packet" where
  "accept_ipc_json decode validate bytes policy now_ns =
     bind_res (map_err EDeserialize (decode bytes)) (\<lambda>message.
       accept_ipc_message validate message policy now_ns)"

section \<open>Lemmas\<close>

lemma require_schema_ok:
  "require_stimulus_schema batch = Inr () \<longleftrightarrow>
     (\<exists>m. sb_metadata batch = Some m \<and> m ''schema'' = Some STIMULUS_SCHEMA)"
  by (auto simp: require_stimulus_schema_def split: option.splits)

lemma freshness_ok:
  "reject_stale_or_future ts now age = Inr () \<longleftrightarrow>
     (case age of None \<Rightarrow> True | Some a \<Rightarrow> ts \<le> now \<and> now - ts \<le> (of_nat a :: u64))"
  by (auto simp: reject_stale_or_future_def Let_def split: option.splits)

lemma accepted_modulators:
  assumes "accept_ipc_message validate m policy now = Inr p" and "ip_modulators p = Some ms"
  shows "\<exists>s. m = IpcNeuromodulators s" and "ip_stimuli p = []" and "length ms = NEUROMODULATOR_COUNT"
  using assms
  by (auto simp: accept_ipc_message_def accept_stimulus_batch_def bind_res_Inr
      NEUROMODULATOR_COUNT_def split: ipc_message.splits if_splits)

text \<open>
  A decoded message becomes an input packet with stimuli exactly when it is a stimulus
  batch that its own crate validates, carries the required schema token, has the configured
  width (any width when none is configured) and lies inside the freshness window; the packet
  then carries the batch's values, mask, id, timestamp and session unchanged, masked slots
  included. Every other variant except a modulator snapshot is refused.
\<close>

theorem accept_stimuli_iff:
  assumes "pol_max_age policy = Some age" and "age < 2 ^ 64"
  shows "accept_ipc_message validate m policy now = Inr p \<and> ip_modulators p = None \<longleftrightarrow>
    (\<exists>b. m = IpcStimuli b \<and> validate b = Inr () \<and>
       (\<exists>meta. sb_metadata b = Some meta \<and> meta ''schema'' = Some STIMULUS_SCHEMA) \<and>
       (pol_expected_channels policy = 0 \<or> length (sb_values b) = pol_expected_channels policy) \<and>
       unat (sb_timestamp b) \<le> unat now \<and> unat now - unat (sb_timestamp b) \<le> age \<and>
       p = \<lparr> ip_stimuli = sb_values b, ip_modulators = None, ip_valid_mask = sb_valid_mask b,
             ip_batch_id = Some (sb_batch_id b), ip_timestamp_ns = Some (sb_timestamp b),
             ip_session_id = sb_session_id b, ip_rejected = False \<rparr>)"
proof -
  have age: "ts \<le> now \<and> now - ts \<le> (of_nat age :: u64) \<longleftrightarrow>
      unat ts \<le> unat now \<and> unat now - unat ts \<le> age" for ts :: u64
    using assms(2) by (auto simp: word_le_nat_alt unat_sub unat_of_nat)
  have "accept_stimulus_batch validate b policy now = Inr p \<longleftrightarrow> validate b = Inr () \<and>
       (\<exists>meta. sb_metadata b = Some meta \<and> meta ''schema'' = Some STIMULUS_SCHEMA) \<and>
       (pol_expected_channels policy = 0 \<or> length (sb_values b) = pol_expected_channels policy) \<and>
       unat (sb_timestamp b) \<le> unat now \<and> unat now - unat (sb_timestamp b) \<le> age \<and>
       p = \<lparr> ip_stimuli = sb_values b, ip_modulators = None, ip_valid_mask = sb_valid_mask b,
             ip_batch_id = Some (sb_batch_id b), ip_timestamp_ns = Some (sb_timestamp b),
             ip_session_id = sb_session_id b, ip_rejected = False \<rparr>" for b
    by (auto simp: accept_stimulus_batch_def bind_res_Inr require_schema_ok freshness_ok assms(1) age)
  moreover have "accept_stimulus_batch validate b policy now = Inr p \<Longrightarrow> ip_modulators p = None" for b
    by (auto simp: accept_stimulus_batch_def bind_res_Inr split: if_splits)
  ultimately show ?thesis
    by (cases m) (auto simp: accept_ipc_message_def)
qed

theorem accept_stimuli_iff_witness:
  "let b = \<lparr> sb_values = [f_one], sb_valid_mask = None, sb_batch_id = 3, sb_timestamp = 100,
             sb_session_id = None, sb_metadata = Some (Map.empty(''schema'' \<mapsto> STIMULUS_SCHEMA)) \<rparr>
   in pol_max_age (ingress_policy_new 1 (Some 50)) = Some 50 \<and> (50::nat) < 2 ^ 64 \<and>
      (\<exists>p. accept_ipc_message (\<lambda>_. Inr ()) (IpcStimuli b) (ingress_policy_new 1 (Some 50)) 150 = Inr p \<and>
         ip_stimuli p = [f_one])"
proof -
  let ?b = "\<lparr> sb_values = [f_one], sb_valid_mask = None, sb_batch_id = 3, sb_timestamp = 100,
             sb_session_id = None, sb_metadata = Some (Map.empty(''schema'' \<mapsto> STIMULUS_SCHEMA)) \<rparr>"
  let ?p = "\<lparr> ip_stimuli = [f_one], ip_modulators = None, ip_valid_mask = None,
             ip_batch_id = Some 3, ip_timestamp_ns = Some 100,
             ip_session_id = None, ip_rejected = False \<rparr>"
  have pol: "pol_max_age (ingress_policy_new 1 (Some 50)) = Some 50" "(50::nat) < 2 ^ 64"
    by (simp_all add: ingress_policy_new_def)
  from accept_stimuli_iff [OF pol, of "\<lambda>_. Inr ()" "IpcStimuli ?b" 150 ?p]
  have "accept_ipc_message (\<lambda>_. Inr ()) (IpcStimuli ?b) (ingress_policy_new 1 (Some 50)) 150 = Inr ?p"
    by (simp add: ingress_policy_new_def)
  with pol show ?thesis by (simp add: Let_def)
qed

end
