(* ===== verification/Backend.thy ===== *)
theory Backend
  imports Corpus_Ingress
begin

text \<open>
  \<open>src/backend.rs\<close>: the stub and collecting backends and the ZeroMQ source and sink. The
  trait objects' methods are functions on an explicit state. Sockets belong to the \<open>zmq\<close>
  crate: a socket is a value of an arbitrary type \<open>'s\<close>, and its operations are the fields of
  a \<open>zmq_api\<close> argument. The wall clock of iteration \<open>k\<close> of the receive loop is \<open>clock k\<close>.
\<close>

section \<open>Always available backends\<close>

datatype backend_error =
    NotInitialized
  | ZmqSocketFailed string
  | ZmqSubscribeFailed string
  | ZmqRcvhwmFailed string
  | ZmqConnectFailed string string
  | ZmqRecvFailed string
  | ZmqSendFailed string
  | SerializeFailed string
  | MutexPoisoned

fun backend_error_display :: "backend_error \<Rightarrow> string" where
  "backend_error_display NotInitialized = ''ZMQ stimulus source not initialized''"
| "backend_error_display (ZmqSocketFailed e) = ''failed to create ZMQ SUB socket: '' @ e"
| "backend_error_display (ZmqSubscribeFailed e) = ''ZMQ subscribe: '' @ e"
| "backend_error_display (ZmqRcvhwmFailed e) = ''ZMQ rcvhwm: '' @ e"
| "backend_error_display (ZmqConnectFailed endpoint e) = ''ZMQ connect to '' @ endpoint @ '': '' @ e"
| "backend_error_display (ZmqRecvFailed e) = ''ZMQ recv failed: '' @ e"
| "backend_error_display (ZmqSendFailed e) = ''ZMQ PUB send failed: '' @ e"
| "backend_error_display (SerializeFailed e) = e"
| "backend_error_display MutexPoisoned = ''ZMQ socket mutex poisoned''"

definition stub_next_ingress :: "unit \<Rightarrow> (backend_error + ingress_packet option) \<times> unit" where
  "stub_next_ingress u = (Inr (Some packet_default), u)"

definition stub_initialize :: "string option \<Rightarrow> unit \<Rightarrow> (backend_error + unit) \<times> unit" where
  "stub_initialize model u = (Inr (), u)"

definition noop_emit :: "spike_event list \<Rightarrow> duration \<Rightarrow> unit \<Rightarrow> (backend_error + unit) \<times> unit" where
  "noop_emit spikes t u = (Inr (), u)"

record collecting_sink =
  co_emitted :: "spike_event list list"

definition collecting_new :: collecting_sink where
  "collecting_new = \<lparr> co_emitted = [] \<rparr>"

definition collecting_emit ::
  "spike_event list \<Rightarrow> duration \<Rightarrow> collecting_sink \<Rightarrow> (backend_error + unit) \<times> collecting_sink" where
  "collecting_emit spikes t c = (Inr (), c\<lparr>co_emitted := co_emitted c @ [spikes]\<rparr>)"

section \<open>ZeroMQ source\<close>

datatype recv_result = RecvFrame string | RecvEagain | RecvError string

record 's zmq_api =
  za_socket :: "string + 's"
  za_subscribe :: "'s \<Rightarrow> string + 's"
  za_set_rcvhwm :: "nat \<Rightarrow> 's \<Rightarrow> string + 's"
  za_connect :: "string \<Rightarrow> 's \<Rightarrow> string + 's"
  za_recv :: "'s \<Rightarrow> recv_result \<times> 's"
  za_send :: "string \<Rightarrow> 's \<Rightarrow> (string + unit) \<times> 's"

definition CORPUS_IPC_ZMQ_READOUT_ENV :: string where
  "CORPUS_IPC_ZMQ_READOUT_ENV = ''CORPUS_IPC_ZMQ_READOUT_IPC''"

definition LEGACY_READOUT_ENV :: string where
  "LEGACY_READOUT_ENV = ''SPIKENAUT_ZMQ_READOUT_IPC''"

definition MAX_DRAIN_PER_TICK :: usize where
  "MAX_DRAIN_PER_TICK = 32"

record 's zmq_source =
  zs_socket :: "'s option"
  zs_channels :: usize
  zs_last_modulators :: "f32 list option"
  zs_max_age :: duration

definition zmq_with_channels :: "usize \<Rightarrow> 's zmq_source" where
  "zmq_with_channels ch =
     \<lparr> zs_socket = None, zs_channels = ch, zs_last_modulators = None, zs_max_age = 1000000000 \<rparr>"

definition zmq_source_new :: "'s zmq_source" where
  "zmq_source_new = zmq_with_channels 0"

definition with_max_age :: "duration \<Rightarrow> 's zmq_source \<Rightarrow> 's zmq_source" where
  "with_max_age age s = s\<lparr>zs_max_age := age\<rparr>"

definition zmq_source_connect ::
  "'s zmq_api \<Rightarrow> string \<Rightarrow> 's zmq_source \<Rightarrow> (backend_error + unit) \<times> 's zmq_source" where
  "zmq_source_connect api endpoint src =
     (case bind_res (map_err ZmqSocketFailed (za_socket api)) (\<lambda>k.
           bind_res (map_err ZmqSubscribeFailed (za_subscribe api k)) (\<lambda>k.
           bind_res (map_err ZmqRcvhwmFailed (za_set_rcvhwm api 16 k)) (\<lambda>k.
           map_err (ZmqConnectFailed endpoint) (za_connect api endpoint k)))) of
        Inl e \<Rightarrow> (Inl e, src)
      | Inr k \<Rightarrow> (Inr (), src\<lparr>zs_socket := Some k\<rparr>))"

definition readout_endpoint :: "(string \<rightharpoonup> string) \<Rightarrow> string" where
  "readout_endpoint env =
     (case or_else (env CORPUS_IPC_ZMQ_READOUT_ENV) (env LEGACY_READOUT_ENV) of
        Some e \<Rightarrow> e
      | None \<Rightarrow> ''tcp://127.0.0.1:5555'')"

definition zmq_source_initialize ::
  "'s zmq_api \<Rightarrow> (string \<rightharpoonup> string) \<Rightarrow> 's zmq_source \<Rightarrow> (backend_error + unit) \<times> 's zmq_source" where
  "zmq_source_initialize api env src =
     (if zs_socket src \<noteq> None then (Inr (), src)
      else zmq_source_connect api (readout_endpoint env) src)"

definition hold_modulators :: "f32 list \<Rightarrow> 's zmq_source \<Rightarrow> bool \<times> 's zmq_source" where
  "hold_modulators mods src =
     (if list_ex (\<lambda>v. \<not> is_finite v) mods then (False, src)
      else (True, src\<lparr>zs_last_modulators := Some mods\<rparr>))"

definition skip_ingress :: "bool \<Rightarrow> 's zmq_source \<Rightarrow> ingress_packet option" where
  "skip_ingress rejected src =
     (if \<not> rejected \<and> zs_last_modulators src = None then None
      else Some (packet_default\<lparr>ip_rejected := rejected, ip_modulators := zs_last_modulators src\<rparr>))"

definition attach_held_modulators :: "'s zmq_source \<Rightarrow> ingress_packet \<Rightarrow> ingress_packet" where
  "attach_held_modulators src p =
     (if ip_modulators p = None then p\<lparr>ip_modulators := zs_last_modulators src\<rparr> else p)"

definition hold_or_reject ::
  "f32 list \<Rightarrow> 's zmq_source \<Rightarrow> ingress_packet option option \<times> 's zmq_source" where
  "hold_or_reject mods src =
     (case hold_modulators mods src of
        (True, src') \<Rightarrow> (None, src')
      | (False, src') \<Rightarrow> (Some (skip_ingress True src'), src'))"

text \<open>The \<open>for _ in 0..MAX_DRAIN_PER_TICK\<close> loop; the argument counts the iterations left.\<close>

primrec next_ingress_loop ::
  "'s zmq_api \<Rightarrow> (string \<Rightarrow> string + ipc_message) \<Rightarrow> (stimulus_batch \<Rightarrow> string + unit) \<Rightarrow> (nat \<Rightarrow> u64)
     \<Rightarrow> ingress_policy \<Rightarrow> nat \<Rightarrow> 's zmq_source
     \<Rightarrow> (backend_error + ingress_packet option) \<times> 's zmq_source" where
  "next_ingress_loop api decode validate clock policy 0 src = (Inr (skip_ingress False src), src)"
| "next_ingress_loop api decode validate clock policy (Suc n) src =
     (case zs_socket src of
        None \<Rightarrow> (Inl NotInitialized, src)
      | Some k \<Rightarrow>
          (case za_recv api k of (recvd, k') \<Rightarrow>
             let src = src\<lparr>zs_socket := Some k'\<rparr>
             in (case recvd of
                  RecvFrame buf \<Rightarrow>
                    (case accept_ipc_json decode validate buf policy (clock n) of
                       Inr packet \<Rightarrow>
                         (if ip_stimuli packet = [] \<and> ip_modulators packet \<noteq> None
                          then (case hold_or_reject (the (ip_modulators packet)) src of
                                  (Some skip, src') \<Rightarrow> (Inr skip, src')
                                | (None, src') \<Rightarrow> next_ingress_loop api decode validate clock policy n src')
                          else (case ip_modulators packet of
                                  Some mods \<Rightarrow>
                                    (case hold_or_reject mods src of
                                       (Some skip, src') \<Rightarrow> (Inr skip, src')
                                     | (None, src') \<Rightarrow> (Inr (Some packet), src'))
                                | None \<Rightarrow> (Inr (Some (attach_held_modulators src packet)), src)))
                     | Inl e \<Rightarrow> (Inr (skip_ingress True src), src))
                | RecvEagain \<Rightarrow> (Inr (skip_ingress False src), src)
                | RecvError e \<Rightarrow> (Inl (ZmqRecvFailed e), src))))"

definition zmq_next_ingress ::
  "'s zmq_api \<Rightarrow> (string \<Rightarrow> string + ipc_message) \<Rightarrow> (stimulus_batch \<Rightarrow> string + unit) \<Rightarrow> (nat \<Rightarrow> u64)
     \<Rightarrow> 's zmq_source \<Rightarrow> (backend_error + ingress_packet option) \<times> 's zmq_source" where
  "zmq_next_ingress api decode validate clock src =
     (let policy = ingress_policy_new (zs_channels src) (Some (zs_max_age src))
      in next_ingress_loop api decode validate clock policy MAX_DRAIN_PER_TICK src)"

section \<open>ZeroMQ sink\<close>

record sink_send_stats =
  ss_attempted :: u64
  ss_suppressed :: u64
  ss_failed :: u64

record 's zmq_sink =
  zk_socket :: 's
  zk_poisoned :: bool
  zk_corpus_buf :: "corpus_spike list"
  zk_send_empty_batches :: bool
  zk_stats :: sink_send_stats

definition zmq_sink_with_policy :: "'s \<Rightarrow> bool \<Rightarrow> 's zmq_sink" where
  "zmq_sink_with_policy k send_empty =
     \<lparr> zk_socket = k, zk_poisoned = False, zk_corpus_buf = [], zk_send_empty_batches = send_empty,
       zk_stats = \<lparr> ss_attempted = 0, ss_suppressed = 0, ss_failed = 0 \<rparr> \<rparr>"

definition zmq_sink_new :: "'s \<Rightarrow> 's zmq_sink" where
  "zmq_sink_new k = zmq_sink_with_policy k True"

definition to_corpus_spike :: "spike_event \<Rightarrow> corpus_spike" where
  "to_corpus_spike e = \<lparr> cs_channel = se_channel e, cs_time = se_time e, cs_strength = se_strength e \<rparr>"

definition spike_message :: "spike_event list \<Rightarrow> duration \<Rightarrow> ipc_message" where
  "spike_message spikes batch_time =
     IpcSpikes \<lparr> pb_session_id = None, pb_batch_id = of_nat (batch_time div 1000000),
       pb_timestamp = of_nat batch_time, pb_spikes = map to_corpus_spike spikes, pb_metadata = None \<rparr>"

text \<open>\<open>encode\<close> is \<open>serde_json::to_vec\<close>. \<open>corpus_buf\<close> is left empty: its contents move into
  the message.\<close>

definition zmq_emit ::
  "'s zmq_api \<Rightarrow> (ipc_message \<Rightarrow> string + string) \<Rightarrow> spike_event list \<Rightarrow> duration \<Rightarrow> 's zmq_sink
     \<Rightarrow> (backend_error + unit) \<times> 's zmq_sink" where
  "zmq_emit api encode spikes batch_time z =
     (if spikes = [] \<and> \<not> zk_send_empty_batches z
      then (Inr (), z\<lparr>zk_stats := (zk_stats z)\<lparr>ss_suppressed := ss_suppressed (zk_stats z) + 1\<rparr>\<rparr>)
      else let z = z\<lparr>zk_corpus_buf := []\<rparr>
           in case encode (spike_message spikes batch_time) of
                Inl e \<Rightarrow> (Inl (SerializeFailed e), z)
              | Inr payload \<Rightarrow>
                  (if zk_poisoned z then (Inl MutexPoisoned, z)
                   else let z = z\<lparr>zk_stats := (zk_stats z)\<lparr>ss_attempted := ss_attempted (zk_stats z) + 1\<rparr>\<rparr>
                        in (case za_send api payload (zk_socket z) of (r, k') \<Rightarrow>
                             let z = z\<lparr>zk_socket := k'\<rparr>
                             in (case r of
                                  Inl e \<Rightarrow>
                                    (Inl (ZmqSendFailed e),
                                     z\<lparr>zk_stats := (zk_stats z)\<lparr>ss_failed := ss_failed (zk_stats z) + 1\<rparr>\<rparr>)
                                | Inr _ \<Rightarrow> (Inr (), z)))))"

section \<open>The contract of a stimulus source\<close>

definition finite_mods :: "ingress_packet \<Rightarrow> bool" where
  "finite_mods p = option_all (list_all is_finite) (ip_modulators p)"

text \<open>One call per tick; the list gives what each tick's call reads of the outside (clocks).\<close>

primrec polls :: "('c \<Rightarrow> 't \<Rightarrow> (backend_error + ingress_packet option) \<times> 't) \<Rightarrow> 'c list \<Rightarrow> 't
    \<Rightarrow> (backend_error + ingress_packet option) list" where
  "polls nxt [] s = []"
| "polls nxt (c # cs) s = (case nxt c s of (r, s') \<Rightarrow> r # polls nxt cs s')"

text \<open>
  What the tick loop may rely on of a source's modulators: whatever the source holds or
  replays is finite, for as many ticks as it is asked.
\<close>

locale modulator_source =
  fixes nxt :: "'c \<Rightarrow> 't \<Rightarrow> (backend_error + ingress_packet option) \<times> 't"
    and held :: "'t \<Rightarrow> f32 list option"
  assumes nxt_held: "option_all (list_all is_finite) (held s) \<Longrightarrow>
      option_all (list_all is_finite) (held (snd (nxt c s)))"
    and nxt_finite: "option_all (list_all is_finite) (held s) \<Longrightarrow> fst (nxt c s) = Inr (Some p) \<Longrightarrow>
      finite_mods p"
begin

lemma polls_finite:
  "option_all (list_all is_finite) (held s) \<Longrightarrow> Inr (Some p) \<in> set (polls nxt cs s) \<Longrightarrow> finite_mods p"
proof (induction cs arbitrary: s)
  case (Cons c cs)
  from Cons.prems(2) consider "fst (nxt c s) = Inr (Some p)" | "Inr (Some p) \<in> set (polls nxt cs (snd (nxt c s)))"
    by (auto simp: case_prod_beta)
  then show ?case
  proof cases
    case 1
    with Cons.prems(1) show ?thesis by (rule nxt_finite)
  next
    case 2
    with Cons.IH [OF nxt_held [OF Cons.prems(1)]] show ?thesis by simp
  qed
qed simp

end

interpretation stub_source: modulator_source "\<lambda>_ :: unit. stub_next_ingress" "\<lambda>_. None"
  by unfold_locales (auto simp: stub_next_ingress_def finite_mods_def packet_default_def)

lemma hold_or_reject_cases:
  "hold_or_reject mods src =
     (if list_all is_finite mods then (None, src\<lparr>zs_last_modulators := Some mods\<rparr>)
      else (Some (skip_ingress True src), src))"
  by (auto simp: hold_or_reject_def hold_modulators_def list_ex_iff list_all_iff)

lemma skip_ingress_finite:
  "option_all (list_all is_finite) (zs_last_modulators src) \<Longrightarrow> skip_ingress r src = Some p \<Longrightarrow>
     finite_mods p"
  by (auto simp: skip_ingress_def finite_mods_def packet_default_def split: if_splits)

lemma next_ingress_loop_finite:
  assumes "option_all (list_all is_finite) (zs_last_modulators src)"
  shows "option_all (list_all is_finite)
      (zs_last_modulators (snd (next_ingress_loop api dec val clock pol n src))) \<and>
    (fst (next_ingress_loop api dec val clock pol n src) = Inr (Some p) \<longrightarrow> finite_mods p)"
  using assms
proof (induction n arbitrary: src)
  case 0
  then show ?case using skip_ingress_finite by auto
next
  case (Suc n)
  show ?case
  proof (cases "zs_socket src")
    case (Some k)
    let ?src = "src\<lparr>zs_socket := Some (snd (za_recv api k))\<rparr>"
    have held: "option_all (list_all is_finite) (zs_last_modulators ?src)" using Suc.prems by simp
    note skip = skip_ingress_finite [OF held]
    have step: "option_all (list_all is_finite) (zs_last_modulators (?src\<lparr>zs_last_modulators := Some ms\<rparr>))"
      if "list_all is_finite ms" for ms using that by simp
    note IH = Suc.IH [OF step]
    show ?thesis
    proof (cases "fst (za_recv api k)")
      case (RecvFrame buf)
      then show ?thesis
        using Some held IH skip
        by (auto simp: case_prod_beta hold_or_reject_cases attach_held_modulators_def finite_mods_def
            Let_def split: sum.splits option.splits)
    qed (use Some held skip in \<open>simp_all add: case_prod_beta Let_def\<close>)
  qed (use Suc.prems in simp)
qed

interpretation zmq_src: modulator_source "zmq_next_ingress api dec val" zs_last_modulators
  for api dec val
  by unfold_locales (simp_all add: zmq_next_ingress_def Let_def next_ingress_loop_finite)

section \<open>Draining modulator frames\<close>

primrec recvs :: "'s zmq_api \<Rightarrow> nat \<Rightarrow> 's \<Rightarrow> recv_result list" where
  "recvs api 0 k = []"
| "recvs api (Suc n) k = fst (za_recv api k) # recvs api n (snd (za_recv api k))"

definition snapshot_mods :: "neuromodulator_snapshot \<Rightarrow> f32 list" where
  "snapshot_mods s = [ns_dopamine s, ns_cortisol s, ns_acetylcholine s, ns_tempo s]"

lemma accept_snapshot:
  "decode buf = Inr (IpcNeuromodulators s) \<Longrightarrow> accept_ipc_json decode validate buf pol now =
     Inr (packet_default\<lparr>ip_modulators := Some (snapshot_mods s)\<rparr>)"
  by (simp add: accept_ipc_json_def accept_ipc_message_def snapshot_mods_def packet_default_def)

lemma drain_modulators:
  assumes "list_all2 (\<lambda>b s. decode b = Inr (IpcNeuromodulators s) \<and> list_all is_finite (snapshot_mods s)) bufs snaps"
    and "recvs api (Suc (length bufs)) k = map RecvFrame bufs @ [RecvFrame buf]"
    and "zs_socket src = Some k"
    and "accept_ipc_json decode validate buf pol (clock n) = Inr p"
    and "ip_stimuli p \<noteq> []" and "ip_modulators p = None"
  shows "fst (next_ingress_loop api decode validate clock pol (length bufs + Suc n) src) =
    Inr (Some (p\<lparr>ip_modulators := (if snaps = [] then zs_last_modulators src
                                  else Some (snapshot_mods (last snaps)))\<rparr>))"
  using assms
proof (induction bufs snaps arbitrary: k src rule: list_all2_induct)
  case Nil
  then show ?case by (auto simp: case_prod_beta attach_held_modulators_def Let_def)
next
  case (Cons b bs s ss)
  let ?src = "src\<lparr>zs_socket := Some (snd (za_recv api k)), zs_last_modulators := Some (snapshot_mods s)\<rparr>"
  have f: "fst (za_recv api k) = RecvFrame b" using Cons.prems(1) by simp
  have "next_ingress_loop api decode validate clock pol (length (b # bs) + Suc n) src =
      next_ingress_loop api decode validate clock pol (length bs + Suc n) ?src"
    using Cons.hyps(1) Cons.prems(2) f
    by (simp add: case_prod_beta accept_snapshot hold_or_reject_cases packet_default_def)
  then show ?case
    using Cons.IH [of "snd (za_recv api k)" ?src] Cons.prems by simp
qed

section \<open>Properties\<close>

text \<open>
  However many ticks run and whatever bytes arrive, the ZeroMQ source never hands the
  tick loop a packet whose modulators contain a NaN or an infinity: such a frame is rejected
  before anything is cached, and only cached values are replayed.
\<close>

theorem zmq_modulators_finite:
  assumes "Inr (Some p) \<in> set (polls (zmq_next_ingress api decode validate) clocks
      ((zmq_with_channels ch)\<lparr>zs_socket := k\<rparr>))"
  shows "finite_mods p"
  using zmq_src.polls_finite [OF _ assms] by (simp add: zmq_with_channels_def)

definition list_api :: "recv_result list zmq_api" where
  "list_api =
     \<lparr> za_socket = Inr [], za_subscribe = Inr, za_set_rcvhwm = (\<lambda>_. Inr), za_connect = (\<lambda>_. Inr),
       za_recv = (\<lambda>k. case k of [] \<Rightarrow> (RecvEagain, []) | r # rs \<Rightarrow> (r, rs)),
       za_send = (\<lambda>_ k. (Inr (), k)) \<rparr>"

lemma drain_cap: "MAX_DRAIN_PER_TICK = Suc 31"
  by (simp add: MAX_DRAIN_PER_TICK_def)

definition nan_snapshot :: neuromodulator_snapshot where
  "nan_snapshot = \<lparr> ns_dopamine = NaN, ns_cortisol = f_zero, ns_acetylcholine = f_zero, ns_tempo = f_zero \<rparr>"

theorem zmq_modulators_finite_witness:
  "let p = packet_default\<lparr>ip_rejected := True\<rparr>
   in Inr (Some p) \<in> set (polls (zmq_next_ingress list_api (\<lambda>_. Inr (IpcNeuromodulators nan_snapshot)) (\<lambda>_. Inr ()))
        [\<lambda>_. 0] ((zmq_with_channels 1)\<lparr>zs_socket := Some [RecvFrame ''x'']\<rparr>)) \<and> finite_mods p"
proof -
  have mem: "Inr (Some (packet_default\<lparr>ip_rejected := True\<rparr>)) \<in> set (polls (zmq_next_ingress list_api
      (\<lambda>_. Inr (IpcNeuromodulators nan_snapshot)) (\<lambda>_. Inr ()))
        [\<lambda>_. 0] ((zmq_with_channels 1)\<lparr>zs_socket := Some [RecvFrame ''x'']\<rparr>))"
    unfolding polls.simps zmq_next_ingress_def drain_cap Let_def next_ingress_loop.simps
    by (simp add: list_api_def zmq_with_channels_def accept_snapshot hold_or_reject_cases snapshot_mods_def nan_snapshot_def
        skip_ingress_def packet_default_def)
  from zmq_modulators_finite [OF mem] mem show ?thesis by (simp only: Let_def)
qed

text \<open>
  Modulator frames do not delay a stimulus frame of the same tick: up to 31 finite
  modulator frames followed by an acceptable stimulus frame give that stimulus packet, with
  the newest modulators attached (or the ones already held when there were none).
\<close>

theorem zmq_drain_latest_modulators:
  assumes "list_all2 (\<lambda>b s. decode b = Inr (IpcNeuromodulators s) \<and> list_all is_finite (snapshot_mods s)) bufs snaps"
    and "length bufs < MAX_DRAIN_PER_TICK"
    and "recvs api (Suc (length bufs)) k = map RecvFrame bufs @ [RecvFrame buf]"
    and "zs_socket src = Some k"
    and "accept_ipc_json decode validate buf (ingress_policy_new (zs_channels src) (Some (zs_max_age src)))
           (clock (31 - length bufs)) = Inr p"
    and "ip_stimuli p \<noteq> []" and "ip_modulators p = None"
  shows "fst (zmq_next_ingress api decode validate clock src) =
    Inr (Some (p\<lparr>ip_modulators := (if snaps = [] then zs_last_modulators src
                                  else Some (snapshot_mods (last snaps)))\<rparr>))"
proof -
  have "MAX_DRAIN_PER_TICK = length bufs + Suc (31 - length bufs)"
    using assms(2) by (simp add: MAX_DRAIN_PER_TICK_def)
  then show ?thesis
    using drain_modulators [where clock = clock and n = "31 - length bufs", OF assms(1,3,4,5,6,7)]
    by (simp add: zmq_next_ingress_def Let_def)
qed

definition demo_decode :: "string \<Rightarrow> string + ipc_message" where
  "demo_decode b =
     (if b = ''m'' then Inr (IpcNeuromodulators \<lparr> ns_dopamine = f_one, ns_cortisol = f_zero,
        ns_acetylcholine = f_zero, ns_tempo = f_zero \<rparr>)
      else Inr (IpcStimuli \<lparr> sb_values = [f_one], sb_valid_mask = None, sb_batch_id = 3, sb_timestamp = 0,
        sb_session_id = None, sb_metadata = Some (Map.empty(''schema'' \<mapsto> STIMULUS_SCHEMA)) \<rparr>))"

theorem zmq_drain_latest_modulators_witness:
  "\<exists>p. fst (zmq_next_ingress list_api demo_decode (\<lambda>_. Inr ()) (\<lambda>_. 0)
       ((zmq_with_channels 1)\<lparr>zs_socket := Some [RecvFrame ''m'', RecvFrame ''s'']\<rparr>)) = Inr (Some p) \<and>
     ip_stimuli p = [f_one] \<and> ip_modulators p = Some [f_one, f_zero, f_zero, f_zero]"
proof -
  let ?src = "(zmq_with_channels 1)\<lparr>zs_socket := Some [RecvFrame ''m'', RecvFrame ''s'']\<rparr>"
  let ?s = "\<lparr> ns_dopamine = f_one, ns_cortisol = f_zero, ns_acetylcholine = f_zero, ns_tempo = f_zero \<rparr>"
  let ?p = "packet_default\<lparr>ip_stimuli := [f_one], ip_batch_id := Some 3, ip_timestamp_ns := Some 0\<rparr>"
  have fin: "list_all2 (\<lambda>b s. demo_decode b = Inr (IpcNeuromodulators s) \<and> list_all is_finite (snapshot_mods s)) [''m''] [?s]"
    by (simp add: demo_decode_def snapshot_mods_def f_one_def f_zero_def)
  have seq: "recvs list_api (Suc (length [''m''])) [RecvFrame ''m'', RecvFrame ''s''] =
      map RecvFrame [''m''] @ [RecvFrame ''s'']"
    by (simp add: list_api_def)
  have acc: "accept_ipc_json demo_decode (\<lambda>_. Inr ()) ''s''
      (ingress_policy_new (zs_channels ?src) (Some (zs_max_age ?src))) ((\<lambda>_. 0) (31 - length [''m''])) = Inr ?p"
    by (simp add: accept_ipc_json_def demo_decode_def accept_ipc_message_def accept_stimulus_batch_def
        require_stimulus_schema_def reject_stale_or_future_def ingress_policy_new_def
        zmq_with_channels_def packet_default_def)
  have "fst (zmq_next_ingress list_api demo_decode (\<lambda>_. Inr ()) (\<lambda>_. 0) ?src) =
      Inr (Some (?p\<lparr>ip_modulators := Some (snapshot_mods ?s)\<rparr>))"
    using zmq_drain_latest_modulators [where clock = "\<lambda>_. 0", OF fin _ seq _ acc]
    by (simp add: MAX_DRAIN_PER_TICK_def packet_default_def)
  then show ?thesis by (simp add: snapshot_mods_def packet_default_def)
qed

primrec emits ::
  "('k zmq_sink \<Rightarrow> (backend_error + unit) \<times> 'k zmq_sink) list \<Rightarrow> 'k zmq_sink
     \<Rightarrow> (backend_error + unit) list \<times> 'k zmq_sink" where
  "emits [] z = ([], z)"
| "emits (f # fs) z = (case f z of (r, z') \<Rightarrow> case emits fs z' of (rs, z'') \<Rightarrow> (r # rs, z''))"

definition is_send_failure :: "backend_error + unit \<Rightarrow> bool" where
  "is_send_failure r = (case r of Inl (ZmqSendFailed _) \<Rightarrow> True | _ \<Rightarrow> False)"

definition is_presend_failure :: "backend_error + unit \<Rightarrow> bool" where
  "is_presend_failure r = (case r of Inl (SerializeFailed _) \<Rightarrow> True | Inl MutexPoisoned \<Rightarrow> True | _ \<Rightarrow> False)"

lemma zmq_emit_stats:
  assumes "zmq_emit api encode spikes t z = (r, z')"
  shows "ss_attempted (zk_stats z') + ss_suppressed (zk_stats z') + (if is_presend_failure r then 1 else 0) =
      ss_attempted (zk_stats z) + ss_suppressed (zk_stats z) + 1"
    and "ss_failed (zk_stats z') = ss_failed (zk_stats z) + (if is_send_failure r then 1 else 0)"
  using assms
  by (auto simp: zmq_emit_def is_send_failure_def is_presend_failure_def Let_def case_prod_beta
      split: if_splits sum.splits)

text \<open>
  The sink's counters account for every emit: over any sequence of batches, attempted
  plus suppressed sends plus the emits that failed before reaching the socket add up to the
  number of emits, and the failed counter is the number of failed sends (modulo 2^64).
\<close>

theorem sink_accounting:
  "let out = emits (map (\<lambda>(spikes, t). zmq_emit api encode spikes t) batches) (zmq_sink_with_policy k b);
       st = zk_stats (snd out)
   in ss_attempted st + ss_suppressed st + of_nat (length (filter is_presend_failure (fst out))) =
        of_nat (length batches) \<and>
      ss_failed st = of_nat (length (filter is_send_failure (fst out)))"
proof -
  let ?out = "\<lambda>bs z. emits (map (\<lambda>(spikes, t). zmq_emit api encode spikes t) bs) z"
  have "ss_attempted (zk_stats (snd (?out batches z))) + ss_suppressed (zk_stats (snd (?out batches z)))
        + of_nat (length (filter is_presend_failure (fst (?out batches z)))) =
      ss_attempted (zk_stats z) + ss_suppressed (zk_stats z) + of_nat (length batches) \<and>
    ss_failed (zk_stats (snd (?out batches z))) =
      ss_failed (zk_stats z) + of_nat (length (filter is_send_failure (fst (?out batches z))))" for z
  proof (induction batches arbitrary: z)
    case (Cons x xs)
    obtain spikes t where x: "x = (spikes, t)" by fastforce
    obtain r z1 where e: "zmq_emit api encode spikes t z = (r, z1)" by fastforce
    from Cons.IH [of z1] zmq_emit_stats [OF e] show ?case
      by (simp add: x e case_prod_beta algebra_simps split: if_splits)
  qed simp
  from this [of "zmq_sink_with_policy k b"] show ?thesis
    by (simp add: Let_def zmq_sink_with_policy_def)
qed

end
