(* ===== verification/Tick.thy ===== *)
theory Tick
  imports Health Checkpoint Backend
begin

text \<open>
  The tick of \<open>src/daemon.rs\<close>: runtime counters, rate-limited diagnostics, input decoding,
  \<open>run_tick\<close> and \<open>run_tick_published\<close>. The trait objects are records of functions over an
  explicit state, their errors the text \<open>to_string\<close> gives. Every reading of a clock is a
  field of the tick's environment.
\<close>

section \<open>Backends as records of functions\<close>

record 's source_ops =
  so_next_ingress :: "'s \<Rightarrow> (string + ingress_packet option) \<times> 's"
  so_initialize :: "string option \<Rightarrow> 's \<Rightarrow> (string + unit) \<times> 's"
  so_shutdown :: "'s \<Rightarrow> (string + unit) \<times> 's"

record 'k sink_ops =
  si_emit :: "spike_event list \<Rightarrow> duration \<Rightarrow> 'k \<Rightarrow> (string + unit) \<times> 'k"
  si_flush :: "'k \<Rightarrow> (string + unit) \<times> 'k"

definition display_errors :: "(backend_error + 'a) \<times> 's \<Rightarrow> (string + 'a) \<times> 's" where
  "display_errors = (\<lambda>(r, s). (map_err backend_error_display r, s))"

text \<open>\<open>BackendPair::stub\<close> and the other built-in backends. \<open>shutdown\<close> and \<open>flush\<close> keep the
  traits' default, which does nothing.\<close>

definition stub_source_ops :: "unit source_ops" where
  "stub_source_ops =
     \<lparr> so_next_ingress = display_errors \<circ> stub_next_ingress,
       so_initialize = (\<lambda>m. display_errors \<circ> stub_initialize m),
       so_shutdown = (\<lambda>s. (Inr (), s)) \<rparr>"

definition noop_sink_ops :: "unit sink_ops" where
  "noop_sink_ops =
     \<lparr> si_emit = (\<lambda>sp t. display_errors \<circ> noop_emit sp t), si_flush = (\<lambda>k. (Inr (), k)) \<rparr>"

definition collecting_sink_ops :: "collecting_sink sink_ops" where
  "collecting_sink_ops =
     \<lparr> si_emit = (\<lambda>sp t. display_errors \<circ> collecting_emit sp t), si_flush = (\<lambda>k. (Inr (), k)) \<rparr>"

definition zmq_source_ops ::
  "'s zmq_api \<Rightarrow> (string \<rightharpoonup> string) \<Rightarrow> (string \<Rightarrow> string + ipc_message)
     \<Rightarrow> (stimulus_batch \<Rightarrow> string + unit) \<Rightarrow> (nat \<Rightarrow> u64) \<Rightarrow> 's zmq_source source_ops" where
  "zmq_source_ops api env decode validate clock =
     \<lparr> so_next_ingress = display_errors \<circ> zmq_next_ingress api decode validate clock,
       so_initialize = (\<lambda>m. display_errors \<circ> zmq_source_initialize api env),
       so_shutdown = (\<lambda>s. (Inr (), s)) \<rparr>"

definition zmq_sink_ops :: "'s zmq_api \<Rightarrow> (ipc_message \<Rightarrow> string + string) \<Rightarrow> 's zmq_sink sink_ops" where
  "zmq_sink_ops api encode =
     \<lparr> si_emit = (\<lambda>sp t. display_errors \<circ> zmq_emit api encode sp t), si_flush = (\<lambda>k. (Inr (), k)) \<rparr>"

section \<open>Counters and diagnostics\<close>

record runtime_stats =
  rs_ticks :: u64
  rs_accepted_batches :: u64
  rs_rejected_batches :: u64
  rs_receive_errors :: u64
  rs_emit_errors :: u64
  rs_dropped_spikes :: u64
  rs_diagnostic_emissions :: u64
  rs_suppressed_diagnostics :: u64
  rs_last_batch_id :: "u64 option"
  rs_last_valid_mask :: "bool list option"
  rs_loaded_checkpoint :: "model_provenance option"

definition runtime_stats_default :: runtime_stats where
  "runtime_stats_default =
     \<lparr> rs_ticks = 0, rs_accepted_batches = 0, rs_rejected_batches = 0, rs_receive_errors = 0,
       rs_emit_errors = 0, rs_dropped_spikes = 0, rs_diagnostic_emissions = 0,
       rs_suppressed_diagnostics = 0, rs_last_batch_id = None, rs_last_valid_mask = None,
       rs_loaded_checkpoint = None \<rparr>"

definition counters_of :: "runtime_stats \<Rightarrow> runtime_counters" where
  "counters_of s =
     \<lparr> rc_ticks = rs_ticks s, rc_accepted_batches = rs_accepted_batches s,
       rc_rejected_batches = rs_rejected_batches s, rc_receive_errors = rs_receive_errors s,
       rc_emit_errors = rs_emit_errors s, rc_dropped_spikes = rs_dropped_spikes s,
       rc_diagnostic_emissions = rs_diagnostic_emissions s,
       rc_suppressed_diagnostics = rs_suppressed_diagnostics s \<rparr>"

definition DIAGNOSTIC_INTERVAL :: u64 where
  "DIAGNOSTIC_INTERVAL = 1000"

definition DIAGNOSTIC_MIN_GAP :: duration where
  "DIAGNOSTIC_MIN_GAP = 1000000000"

definition NON_FINITE_DIAGNOSTIC_CATEGORY :: string where
  "NON_FINITE_DIAGNOSTIC_CATEGORY = ''rejected non-finite ingress''"

record occurrence_limiter =
  ol_interval :: u64
  ol_min_gap :: duration
  ol_occurrences :: u64
  ol_emitted :: u64
  ol_last_key :: "u64 option"
  ol_last_emitted_at :: "instant option"

definition limiter_new :: "u64 \<Rightarrow> duration \<Rightarrow> occurrence_limiter" where
  "limiter_new interval gap =
     \<lparr> ol_interval = interval, ol_min_gap = gap, ol_occurrences = 0, ol_emitted = 0,
       ol_last_key = None, ol_last_emitted_at = None \<rparr>"

text \<open>\<open>u64::is_multiple_of\<close>: zero has only itself as a multiple.\<close>

definition is_multiple_of :: "u64 \<Rightarrow> u64 \<Rightarrow> bool" where
  "is_multiple_of a b = (if b = 0 then a = 0 else a mod b = 0)"

definition limiter_record ::
  "u64 \<Rightarrow> instant \<Rightarrow> occurrence_limiter \<Rightarrow> u64 option \<times> occurrence_limiter" where
  "limiter_record key now l =
     (let l = (if ol_last_key l \<noteq> Some key
               then l\<lparr>ol_occurrences := 0, ol_emitted := 0, ol_last_key := Some key,
                      ol_last_emitted_at := None\<rparr>
               else l);
          l = l\<lparr>ol_occurrences := sat_add (ol_occurrences l) 1\<rparr>;
          count_due = (ol_occurrences l = 1 \<or> is_multiple_of (ol_occurrences l - 1) (ol_interval l));
          time_due = (case ol_last_emitted_at l of
                        None \<Rightarrow> True | Some prev \<Rightarrow> now - prev \<ge> ol_min_gap l)
      in if ol_occurrences l = 1 \<or> (count_due \<and> time_due)
         then (Some (sat_sub (ol_occurrences l) (ol_emitted l + 1)),
               l\<lparr>ol_emitted := ol_occurrences l, ol_last_emitted_at := Some now\<rparr>)
         else (None, l))"

definition diagnostic_key :: "string \<Rightarrow> u64" where
  "diagnostic_key message = foldl (\<lambda>hash byte. hash * 31 + of_nat (of_char byte)) 0 message"

record tick_diagnostics =
  td_receive :: occurrence_limiter
  td_emit :: occurrence_limiter
  td_dropped :: occurrence_limiter
  td_non_finite :: occurrence_limiter

definition tick_diagnostics_default :: tick_diagnostics where
  "tick_diagnostics_default =
     (let l = limiter_new DIAGNOSTIC_INTERVAL DIAGNOSTIC_MIN_GAP
      in \<lparr> td_receive = l, td_emit = l, td_dropped = l, td_non_finite = l \<rparr>)"

section \<open>Tick state\<close>

text \<open>Clock readings of one tick: the diagnostics clock by message kind, the health clock
  in order of the events, the wall clock after the step.\<close>

record tick_env =
  te_receive_at :: instant
  te_backend_gate_at :: instant
  te_drain_gate_at :: instant
  te_dropped_at :: instant
  te_emit_at :: instant
  te_health :: "nat \<Rightarrow> instant"
  te_wall :: duration

record ('s, 'k, 'r) tick_state =
  ts_source :: 's
  ts_network :: "'r spiking_network"
  ts_sink :: 'k
  ts_stimuli :: "f32 list"
  ts_spike_buf :: "spike_event list"
  ts_ingress :: bounded_ingress
  ts_health :: health_handle
  ts_stats :: runtime_stats
  ts_diag :: tick_diagnostics

definition note_emission :: "u64 option \<Rightarrow> runtime_stats \<Rightarrow> runtime_stats" where
  "note_emission r s =
     (case r of
        Some _ \<Rightarrow> s\<lparr>rs_diagnostic_emissions := sat_add (rs_diagnostic_emissions s) 1\<rparr>
      | None \<Rightarrow> s\<lparr>rs_suppressed_diagnostics := sat_add (rs_suppressed_diagnostics s) 1\<rparr>)"

section \<open>Receiving and admission\<close>

definition backend_non_finite :: "ingress_packet \<Rightarrow> non_finite_input option" where
  "backend_non_finite p = (if ip_rejected p then None else first_non_finite p)"

definition packet_carries_input :: "ingress_packet \<Rightarrow> bool" where
  "packet_carries_input p \<longleftrightarrow>
     ip_stimuli p \<noteq> [] \<or> (case ip_modulators p of Some ms \<Rightarrow> ms \<noteq> [] | None \<Rightarrow> False)"

definition observes_ingress :: "ingress_packet \<Rightarrow> bool" where
  "observes_ingress p \<longleftrightarrow> packet_carries_input p \<and> first_non_finite p = None"

definition record_non_finite_rejection ::
  "instant \<Rightarrow> runtime_stats \<times> tick_diagnostics \<Rightarrow> runtime_stats \<times> tick_diagnostics" where
  "record_non_finite_rejection now = (\<lambda>(s, d).
     let s = s\<lparr>rs_rejected_batches := rs_rejected_batches s + 1\<rparr>
     in case limiter_record (diagnostic_key NON_FINITE_DIAGNOSTIC_CATEGORY) now (td_non_finite d) of
          (r, l) \<Rightarrow> (note_emission r s, d\<lparr>td_non_finite := l\<rparr>))"

definition account_and_admit_backend_packet ::
  "ingress_packet \<Rightarrow> runtime_stats \<times> bounded_ingress \<Rightarrow> runtime_stats \<times> bounded_ingress" where
  "account_and_admit_backend_packet p = (\<lambda>(s, b).
     if ip_rejected p
     then (let s = s\<lparr>rs_rejected_batches := rs_rejected_batches s + 1\<rparr>
           in (s, if first_non_finite p = None then admit_backend_packet p b else b))
     else (let s = (if ip_batch_id p \<noteq> None
                    then s\<lparr>rs_accepted_batches := rs_accepted_batches s + 1,
                           rs_last_batch_id := ip_batch_id p, rs_last_valid_mask := ip_valid_mask p\<rparr>
                    else s)
           in (s, admit_backend_packet p b)))"

definition tick_receive ::
  "'s source_ops \<Rightarrow> tick_env \<Rightarrow> ('s, 'k, 'r) tick_state
     \<Rightarrow> ingress_packet option \<times> ('s, 'k, 'r) tick_state" where
  "tick_receive so env st =
     (case so_next_ingress so (ts_source st) of
        (Inr p, src) \<Rightarrow> (p, st\<lparr>ts_source := src\<rparr>)
      | (Inl msg, src) \<Rightarrow>
          (let s = ts_stats st;
               s = s\<lparr>rs_receive_errors := sat_add (rs_receive_errors s) 1,
                     rs_rejected_batches := rs_rejected_batches s + 1\<rparr>
           in case limiter_record (diagnostic_key msg) (te_receive_at env) (td_receive (ts_diag st)) of
                (r, l) \<Rightarrow>
                  (None, st\<lparr>ts_source := src, ts_stats := note_emission r s,
                            ts_diag := (ts_diag st)\<lparr>td_receive := l\<rparr>\<rparr>)))"

definition tick_health :: "nat \<Rightarrow> health_event \<Rightarrow> tick_env \<Rightarrow> ('s, 'k, 'r) tick_state \<Rightarrow> ('s, 'k, 'r) tick_state" where
  "tick_health i ev env st = st\<lparr>ts_health := handle_apply ev (te_health env i) (ts_health st)\<rparr>"

text \<open>The first finite gate, the freshness event and the admission of the packet.\<close>

definition tick_admit ::
  "tick_env \<Rightarrow> ingress_packet option \<Rightarrow> ('s, 'k, 'r) tick_state \<Rightarrow> ('s, 'k, 'r) tick_state" where
  "tick_admit env backend_packet st =
     (let (backend_packet, st) =
            (case Option.bind backend_packet backend_non_finite of
               Some offender \<Rightarrow>
                 (case record_non_finite_rejection (te_backend_gate_at env) (ts_stats st, ts_diag st) of
                    (s, d) \<Rightarrow> (None, st\<lparr>ts_stats := s, ts_diag := d\<rparr>))
             | None \<Rightarrow> (backend_packet, st));
          st = (case backend_packet of
                  Some p \<Rightarrow> if observes_ingress p then tick_health 0 IngressObserved env st else st
                | None \<Rightarrow> st)
      in case backend_packet of
           Some p \<Rightarrow>
             (case account_and_admit_backend_packet p (ts_stats st, ts_ingress st) of
                (s, b) \<Rightarrow> st\<lparr>ts_stats := s, ts_ingress := b\<rparr>)
         | None \<Rightarrow> st)"

section \<open>Decoding\<close>

definition apply_mask :: "bool list \<Rightarrow> f32 list \<Rightarrow> f32 list" where
  "apply_mask vmask stimuli =
     fold (\<lambda>(idx, valid) s. if \<not> valid then s[idx := f_zero] else s)
       (zip [0..<length stimuli] (take (length stimuli) vmask)) stimuli"

definition decode_inputs ::
  "'r neuromod_api \<Rightarrow> ingress_packet \<Rightarrow> f32 list \<Rightarrow> neuro_modulators \<times> f32 list" where
  "decode_inputs na p stimuli =
     (let readout = ip_stimuli p; channels = length stimuli; upto = min (length readout) channels;
          stimuli = take upto readout @
            (if length readout < channels then replicate (channels - upto) f_zero else drop upto stimuli);
          stimuli = (case ip_valid_mask p of Some vmask \<Rightarrow> apply_mask vmask stimuli | None \<Rightarrow> stimuli);
          modulators =
            (case ip_modulators p of
               Some mods \<Rightarrow>
                 (if length mods \<ge> NEUROMODULATOR_COUNT
                  then \<lparr> nm_dopamine = mods ! 0, nm_serotonin = mods ! 1,
                         nm_acetylcholine = mods ! 2, nm_norepinephrine = mods ! 3 \<rparr>
                  else na_default_modulators na)
             | None \<Rightarrow> na_default_modulators na)
      in (modulators, stimuli))"

section \<open>Queue pressure\<close>

definition class_cap :: "ingress_config \<Rightarrow> message_class \<Rightarrow> usize" where
  "class_cap cfg cls = (case ic_policy cfg cls of Coalesce \<Rightarrow> 1 | _ \<Rightarrow> ic_capacity cfg cls)"

definition queue_pressure_event :: "bounded_ingress \<Rightarrow> health_event" where
  "queue_pressure_event b =
     (let m = ingress_metrics_of b; cfg = bi_config b;
          (depth, capacity) =
            foldl (\<lambda>(d, c) cls. (d + u64_clamp (cm_depth (im_class m cls)), c + u64_clamp (class_cap cfg cls)))
              (0, 0) class_all
      in QueuePressure depth capacity)"

section \<open>Emission\<close>

definition make_spikes :: "duration \<Rightarrow> usize list \<Rightarrow> spike_event list \<times> nat" where
  "make_spikes wall ids =
     (let tick = (of_nat (wall div 1000000) :: u64);
          ok = filter (\<lambda>i. i < 65536) ids
      in (map (\<lambda>i. \<lparr> se_channel = of_nat i, se_time = ucast (and tick 0xFFFFFFFF),
                     se_strength = f_one \<rparr>) ok,
          length ids - length ok))"

definition note_dropped ::
  "nat \<Rightarrow> tick_env \<Rightarrow> ('s, 'k, 'r) tick_state \<Rightarrow> ('s, 'k, 'r) tick_state" where
  "note_dropped dropped env st =
     (if dropped > 0
      then (let s = ts_stats st;
                s = s\<lparr>rs_dropped_spikes := sat_add (rs_dropped_spikes s) (of_nat dropped)\<rparr>
            in case limiter_record (diagnostic_key ''dropped spikes with out-of-range IDs'')
                      (te_dropped_at env) (td_dropped (ts_diag st)) of
                 (r, l) \<Rightarrow> st\<lparr>ts_stats := note_emission r s, ts_diag := (ts_diag st)\<lparr>td_dropped := l\<rparr>\<rparr>)
      else st)"

definition tick_emit ::
  "'k sink_ops \<Rightarrow> tick_env \<Rightarrow> ('s, 'k, 'r) tick_state \<Rightarrow> ('s, 'k, 'r) tick_state" where
  "tick_emit si env st =
     (case si_emit si (ts_spike_buf st) (te_wall env) (ts_sink st) of
        (Inr _, k) \<Rightarrow> tick_health 2 TickSucceeded env (st\<lparr>ts_sink := k\<rparr>)
      | (Inl msg, k) \<Rightarrow>
          (let s = ts_stats st; s = s\<lparr>rs_emit_errors := sat_add (rs_emit_errors s) 1\<rparr>
           in case limiter_record (diagnostic_key msg) (te_emit_at env) (td_emit (ts_diag st)) of
                (r, l) \<Rightarrow>
                  tick_health 2 (FatalEv Unspecified msg) env
                    (st\<lparr>ts_sink := k, ts_stats := note_emission r s,
                        ts_diag := (ts_diag st)\<lparr>td_emit := l\<rparr>\<rparr>)))"

definition tick_publish ::
  "'k sink_ops \<Rightarrow> tick_env \<Rightarrow> usize list \<Rightarrow> ('s, 'k, 'r) tick_state \<Rightarrow> ('s, 'k, 'r) tick_state" where
  "tick_publish si env spike_ids st =
     (let s = ts_stats st;
          st = st\<lparr>ts_stats := s\<lparr>rs_ticks := rs_ticks s + 1\<rparr>\<rparr>
      in case make_spikes (te_wall env) spike_ids of (spikes, dropped) \<Rightarrow>
           let st = note_dropped dropped env (st\<lparr>ts_spike_buf := spikes\<rparr>)
           in if ts_spike_buf st = [] \<and> spike_ids \<noteq> []
              then tick_health 2 TickSucceeded env st
              else tick_emit si env st)"

section \<open>The tick\<close>

definition tick_drain ::
  "tick_env \<Rightarrow> ('s, 'k, 'r) tick_state \<Rightarrow> ingress_packet \<times> ('s, 'k, 'r) tick_state" where
  "tick_drain env st =
     (let (drained, b) = drain_for_tick (ts_ingress st)
      in (into_packet drained,
          tick_health 1 (queue_pressure_event b) env (st\<lparr>ts_ingress := b\<rparr>)))"

definition tick_reject_drained ::
  "tick_env \<Rightarrow> ('s, 'k, 'r) tick_state \<Rightarrow> ('s, 'k, 'r) tick_state" where
  "tick_reject_drained env st =
     (let (s, d) = record_non_finite_rejection (te_drain_gate_at env) (ts_stats st, ts_diag st)
      in tick_health 2 TickSucceeded env (st\<lparr>ts_stats := s, ts_diag := d\<rparr>))"

definition tick_step ::
  "'k sink_ops \<Rightarrow> 'r neuromod_api \<Rightarrow> tick_env \<Rightarrow> ingress_packet
     \<Rightarrow> ('s, 'k, 'r) tick_state \<Rightarrow> ('s, 'k, 'r) tick_state" where
  "tick_step si na env packet st =
     (let (modulators, stimuli) = decode_inputs na packet (ts_stimuli st);
          st = st\<lparr>ts_stimuli := stimuli\<rparr>
      in (case na_step na stimuli modulators (ts_network st) of
            (Inl msg, net) \<Rightarrow> tick_health 2 (FatalEv Unspecified msg) env (st\<lparr>ts_network := net\<rparr>)
          | (Inr spike_ids, net) \<Rightarrow> tick_publish si env spike_ids (st\<lparr>ts_network := net\<rparr>)))"

definition run_tick ::
  "'s source_ops \<Rightarrow> 'k sink_ops \<Rightarrow> 'r neuromod_api \<Rightarrow> tick_env
     \<Rightarrow> ('s, 'k, 'r) tick_state \<Rightarrow> ('s, 'k, 'r) tick_state" where
  "run_tick so si na env st =
     (let (backend_packet, st) = tick_receive so env st;
          st = tick_admit env backend_packet st;
          (packet, st) = tick_drain env st
      in (case first_non_finite packet of
            Some offender \<Rightarrow> tick_reject_drained env st
          | None \<Rightarrow> tick_step si na env packet st))"

definition run_tick_published ::
  "'s source_ops \<Rightarrow> 'k sink_ops \<Rightarrow> 'r neuromod_api \<Rightarrow> tick_env
     \<Rightarrow> ('s, 'k, 'r) tick_state \<Rightarrow> ('s, 'k, 'r) tick_state" where
  "run_tick_published so si na env st =
     (let st = run_tick so si na env st
      in tick_health 3 (CountersPublished (counters_of (ts_stats st))) env st)"

section \<open>Decoding lemmas\<close>

lemma apply_mask_length [simp]: "length (apply_mask vmask s) = length s"
proof -
  have "length (fold (\<lambda>(idx, valid) s. if \<not> valid then s[idx := f_zero] else s) xs s) = length s"
    for xs :: "(nat \<times> bool) list"
    by (induction xs arbitrary: s) auto
  then show ?thesis by (simp add: apply_mask_def)
qed

lemma fold_mask_nth:
  "n + length vs \<le> length s \<Longrightarrow> i < length s \<Longrightarrow>
     fold (\<lambda>(idx, valid) s. if \<not> valid then s[idx := f_zero] else s) (zip [n..<n + length vs] vs) s ! i =
     (if n \<le> i \<and> i < n + length vs \<and> \<not> vs ! (i - n) then f_zero else s ! i)"
proof (induction vs arbitrary: n s)
  case (Cons v vs)
  have u: "zip [n..<n + length (v # vs)] (v # vs) = (n, v) # zip [Suc n..<Suc n + length vs] vs"
    by (simp add: upt_conv_Cons del: upt_Suc)
  from Cons.prems show ?case
    unfolding u fold_simps prod.case comp_def
    by (subst Cons.IH) (auto simp: nth_Cons' Suc_diff_le nth_list_update)
qed auto

lemma zip_upt_prefix: "length ys \<le> n \<Longrightarrow> zip [0..<n] ys = zip [0..<length ys] ys"
  by (rule nth_equalityI) auto

lemma apply_mask_nth:
  "i < length s \<Longrightarrow> apply_mask vmask s ! i = (if i < length vmask \<and> \<not> vmask ! i then f_zero else s ! i)"
  using fold_mask_nth [of 0 "take (length s) vmask" s i] zip_upt_prefix [of "take (length s) vmask" "length s"]
  by (auto simp: apply_mask_def)

text \<open>Channel \<open>i\<close> of the decoded stimuli: the readout where it reaches and is not masked.\<close>

definition decoded_channel :: "ingress_packet \<Rightarrow> nat \<Rightarrow> f32" where
  "decoded_channel p i =
     (if i < length (ip_stimuli p) \<and>
         (case ip_valid_mask p of None \<Rightarrow> True | Some m \<Rightarrow> i < length m \<longrightarrow> m ! i)
      then ip_stimuli p ! i else f_zero)"

lemma decode_length [simp]: "length (snd (decode_inputs na p s)) = length s"
  by (auto simp: decode_inputs_def Let_def split: option.split)

lemma decode_nth:
  "i < length s \<Longrightarrow> snd (decode_inputs na p s) ! i = decoded_channel p i"
  by (auto simp: decode_inputs_def decoded_channel_def Let_def apply_mask_nth nth_append
      split: option.splits)

definition finite_modulators :: "neuro_modulators \<Rightarrow> bool" where
  "finite_modulators m \<longleftrightarrow>
     is_finite (nm_dopamine m) \<and> is_finite (nm_serotonin m) \<and>
     is_finite (nm_acetylcholine m) \<and> is_finite (nm_norepinephrine m)"

lemma decode_finite:
  assumes "finite_packet p" and "finite_modulators (na_default_modulators na)"
  shows "finite_modulators (fst (decode_inputs na p s))"
    and "list_all is_finite (snd (decode_inputs na p s))"
proof -
  have "is_finite (ms ! i)" if "ip_modulators p = Some ms" "4 \<le> length ms" "i < 4" for ms i
    using assms(1) that by (simp add: finite_packet_def list_all_length)
  with assms(2) show "finite_modulators (fst (decode_inputs na p s))"
    by (auto simp: decode_inputs_def finite_modulators_def Let_def NEUROMODULATOR_COUNT_def
        split: option.split)
  have "is_finite (decoded_channel p i)" for i
    using assms(1) by (simp add: decoded_channel_def finite_packet_def list_all_length f_zero_def)
  then show "list_all is_finite (snd (decode_inputs na p s))"
    by (simp add: list_all_length decode_nth)
qed

lemma decode_short:
  "case ip_modulators p of
     Some ms \<Rightarrow> length ms < 4 \<longrightarrow> fst (decode_inputs na p s) = na_default_modulators na
   | None \<Rightarrow> fst (decode_inputs na p s) = na_default_modulators na"
  by (simp add: decode_inputs_def Let_def NEUROMODULATOR_COUNT_def split: option.split)

lemma decode_agree:
  "na_default_modulators na = na_default_modulators na' \<Longrightarrow> decode_inputs na p s = decode_inputs na' p s"
  by (simp add: decode_inputs_def Let_def split: option.split)

section \<open>Frames of the stages\<close>

lemma tick_health_frame [simp]:
  "ts_source (tick_health i ev env st) = ts_source st" "ts_network (tick_health i ev env st) = ts_network st"
  "ts_sink (tick_health i ev env st) = ts_sink st" "ts_stimuli (tick_health i ev env st) = ts_stimuli st"
  "ts_spike_buf (tick_health i ev env st) = ts_spike_buf st" "ts_ingress (tick_health i ev env st) = ts_ingress st"
  "ts_stats (tick_health i ev env st) = ts_stats st" "ts_diag (tick_health i ev env st) = ts_diag st"
  "hh_inner (ts_health (tick_health i ev env st)) =
     health_apply ev (te_health env i) (hh_inner (ts_health st))"
  by (simp_all add: tick_health_def handle_apply_def)

lemma note_emission_frame [simp]:
  "rs_ticks (note_emission r s) = rs_ticks s"
  "rs_accepted_batches (note_emission r s) = rs_accepted_batches s"
  "rs_rejected_batches (note_emission r s) = rs_rejected_batches s"
  "rs_receive_errors (note_emission r s) = rs_receive_errors s"
  "rs_emit_errors (note_emission r s) = rs_emit_errors s"
  "rs_dropped_spikes (note_emission r s) = rs_dropped_spikes s"
  "rs_loaded_checkpoint (note_emission r s) = rs_loaded_checkpoint s"
  by (simp_all add: note_emission_def split: option.splits)

lemma record_rejection_frame [simp]:
  "rs_ticks (fst (record_non_finite_rejection t x)) = rs_ticks (fst x)"
  "rs_rejected_batches (fst (record_non_finite_rejection t x)) = rs_rejected_batches (fst x) + 1"
  "rs_loaded_checkpoint (fst (record_non_finite_rejection t x)) = rs_loaded_checkpoint (fst x)"
  by (simp_all add: record_non_finite_rejection_def Let_def split: prod.splits)

lemma account_frame [simp]:
  "rs_ticks (fst (account_and_admit_backend_packet p x)) = rs_ticks (fst x)"
  "rs_loaded_checkpoint (fst (account_and_admit_backend_packet p x)) = rs_loaded_checkpoint (fst x)"
  by (auto simp: account_and_admit_backend_packet_def Let_def split: prod.splits)

text \<open>The part of a tick before the step: the packet it decides on and the state it leaves.\<close>

definition tick_input ::
  "'s source_ops \<Rightarrow> tick_env \<Rightarrow> ('s, 'k, 'r) tick_state \<Rightarrow> ingress_packet \<times> ('s, 'k, 'r) tick_state" where
  "tick_input so env st =
     (case tick_receive so env st of (p, st1) \<Rightarrow> tick_drain env (tick_admit env p st1))"

lemma run_tick_input:
  "run_tick so si na env st =
     (case first_non_finite (fst (tick_input so env st)) of
        Some _ \<Rightarrow> tick_reject_drained env (snd (tick_input so env st))
      | None \<Rightarrow> tick_step si na env (fst (tick_input so env st)) (snd (tick_input so env st)))"
  by (simp add: run_tick_def tick_input_def case_prod_beta Let_def split: option.split)

lemma tick_receive_frame [simp]:
  "ts_network (snd (tick_receive so env st)) = ts_network st"
  "ts_sink (snd (tick_receive so env st)) = ts_sink st"
  "ts_stimuli (snd (tick_receive so env st)) = ts_stimuli st"
  "ts_ingress (snd (tick_receive so env st)) = ts_ingress st"
  "ts_health (snd (tick_receive so env st)) = ts_health st"
  "rs_ticks (ts_stats (snd (tick_receive so env st))) = rs_ticks (ts_stats st)"
  "rs_loaded_checkpoint (ts_stats (snd (tick_receive so env st))) = rs_loaded_checkpoint (ts_stats st)"
  by (simp_all add: tick_receive_def Let_def split: prod.splits sum.splits)

lemma tick_admit_frame [simp]:
  "ts_network (tick_admit env p st) = ts_network st"
  "ts_sink (tick_admit env p st) = ts_sink st"
  "ts_stimuli (tick_admit env p st) = ts_stimuli st"
  "rs_ticks (ts_stats (tick_admit env p st)) = rs_ticks (ts_stats st)"
  "rs_loaded_checkpoint (ts_stats (tick_admit env p st)) = rs_loaded_checkpoint (ts_stats st)"
  by (auto simp: tick_admit_def Let_def case_prod_beta split: option.splits)

lemma tick_drain_frame [simp]:
  "ts_network (snd (tick_drain env st)) = ts_network st"
  "ts_sink (snd (tick_drain env st)) = ts_sink st"
  "ts_stimuli (snd (tick_drain env st)) = ts_stimuli st"
  "ts_stats (snd (tick_drain env st)) = ts_stats st"
  by (simp_all add: tick_drain_def case_prod_beta)

lemma tick_input_frame [simp]:
  "ts_network (snd (tick_input so env st)) = ts_network st"
  "ts_sink (snd (tick_input so env st)) = ts_sink st"
  "ts_stimuli (snd (tick_input so env st)) = ts_stimuli st"
  "rs_ticks (ts_stats (snd (tick_input so env st))) = rs_ticks (ts_stats st)"
  "rs_loaded_checkpoint (ts_stats (snd (tick_input so env st))) = rs_loaded_checkpoint (ts_stats st)"
  by (simp_all add: tick_input_def case_prod_beta)

lemma tick_reject_frame [simp]:
  "ts_network (tick_reject_drained env st) = ts_network st"
  "ts_sink (tick_reject_drained env st) = ts_sink st"
  "rs_ticks (ts_stats (tick_reject_drained env st)) = rs_ticks (ts_stats st)"
  "rs_loaded_checkpoint (ts_stats (tick_reject_drained env st)) = rs_loaded_checkpoint (ts_stats st)"
  "rs_rejected_batches (ts_stats (tick_reject_drained env st)) = rs_rejected_batches (ts_stats st) + 1"
  by (simp_all add: tick_reject_drained_def case_prod_beta Let_def)

lemma note_dropped_frame [simp]:
  "ts_network (note_dropped n env st) = ts_network st" "ts_sink (note_dropped n env st) = ts_sink st"
  "ts_spike_buf (note_dropped n env st) = ts_spike_buf st"
  "ts_stimuli (note_dropped n env st) = ts_stimuli st" "ts_ingress (note_dropped n env st) = ts_ingress st"
  "ts_health (note_dropped n env st) = ts_health st"
  "rs_ticks (ts_stats (note_dropped n env st)) = rs_ticks (ts_stats st)"
  "rs_loaded_checkpoint (ts_stats (note_dropped n env st)) = rs_loaded_checkpoint (ts_stats st)"
  by (simp_all add: note_dropped_def Let_def split: prod.splits)

lemma tick_emit_frame [simp]:
  "ts_network (tick_emit si env st) = ts_network st"
  "ts_stimuli (tick_emit si env st) = ts_stimuli st" "ts_ingress (tick_emit si env st) = ts_ingress st"
  "rs_ticks (ts_stats (tick_emit si env st)) = rs_ticks (ts_stats st)"
  "rs_loaded_checkpoint (ts_stats (tick_emit si env st)) = rs_loaded_checkpoint (ts_stats st)"
  by (simp_all add: tick_emit_def Let_def split: prod.splits sum.splits)

lemma tick_emit_sink:
  "ts_sink (tick_emit si env st) = snd (si_emit si (ts_spike_buf st) (te_wall env) (ts_sink st))"
  "rs_dropped_spikes (ts_stats (tick_emit si env st)) = rs_dropped_spikes (ts_stats st)"
  by (simp_all add: tick_emit_def Let_def split: prod.split sum.split)

lemma note_dropped_count:
  "rs_dropped_spikes (ts_stats (note_dropped n env st)) =
     (if 0 < n then sat_add (rs_dropped_spikes (ts_stats st)) (of_nat n) else rs_dropped_spikes (ts_stats st))"
  by (simp add: note_dropped_def Let_def split: prod.split)

lemma tick_publish_frame [simp]:
  "ts_network (tick_publish si env ids st) = ts_network st"
  "ts_stimuli (tick_publish si env ids st) = ts_stimuli st"
  "ts_ingress (tick_publish si env ids st) = ts_ingress st"
  "rs_ticks (ts_stats (tick_publish si env ids st)) = rs_ticks (ts_stats st) + 1"
  "rs_loaded_checkpoint (ts_stats (tick_publish si env ids st)) = rs_loaded_checkpoint (ts_stats st)"
  by (simp_all add: tick_publish_def Let_def case_prod_beta)

section \<open>Invariant of a tick\<close>

definition tick_inv :: "('s, 'k, 'r) tick_state \<Rightarrow> bool" where
  "tick_inv st \<longleftrightarrow> ingress_inv (ts_ingress st) \<and> health_inv (hh_inner (ts_health st))"

lemma tick_inv_health: "tick_inv st \<Longrightarrow> tick_inv (tick_health i ev env st)"
  by (simp add: tick_inv_def health_inv_apply)

lemma tick_receive_inv: "tick_inv st \<Longrightarrow> tick_inv (snd (tick_receive so env st))"
  by (simp add: tick_inv_def)

lemma tick_admit_inv: "tick_inv st \<Longrightarrow> tick_inv (tick_admit env p st)"
  by (auto simp: tick_admit_def Let_def case_prod_beta tick_inv_def health_inv_apply
      account_and_admit_backend_packet_def admit_inv split: option.splits)

lemma tick_drain_inv: "tick_inv st \<Longrightarrow> tick_inv (snd (tick_drain env st))"
  by (simp add: tick_drain_def case_prod_beta tick_inv_def health_inv_apply drain_for_tick_inv)

lemma tick_reject_inv: "tick_inv st \<Longrightarrow> tick_inv (tick_reject_drained env st)"
  by (simp add: tick_reject_drained_def case_prod_beta tick_inv_def health_inv_apply)

lemma tick_emit_inv: "tick_inv st \<Longrightarrow> tick_inv (tick_emit si env st)"
  by (auto simp: tick_emit_def Let_def tick_inv_def health_inv_apply split: prod.splits sum.splits)

lemma note_dropped_inv [simp]: "tick_inv (note_dropped n env st) = tick_inv st"
  by (simp add: tick_inv_def)

lemma tick_inv_updates [simp]:
  "tick_inv (st\<lparr>ts_stats := s\<rparr>) = tick_inv st" "tick_inv (st\<lparr>ts_spike_buf := x\<rparr>) = tick_inv st"
  "tick_inv (st\<lparr>ts_stimuli := y\<rparr>) = tick_inv st" "tick_inv (st\<lparr>ts_network := n\<rparr>) = tick_inv st"
  by (simp_all add: tick_inv_def)

lemma tick_publish_inv: "tick_inv st \<Longrightarrow> tick_inv (tick_publish si env ids st)"
  by (auto simp: tick_publish_def Let_def case_prod_beta intro: tick_inv_health tick_emit_inv)

lemma tick_step_inv: "tick_inv st \<Longrightarrow> tick_inv (tick_step si na env p st)"
  by (auto simp: tick_step_def Let_def case_prod_beta split: prod.splits sum.splits
      intro!: tick_inv_health tick_publish_inv)

lemma run_tick_inv: "tick_inv st \<Longrightarrow> tick_inv (run_tick so si na env st)"
  by (auto simp: run_tick_input tick_input_def case_prod_beta split: option.split
      intro!: tick_reject_inv tick_step_inv tick_drain_inv tick_admit_inv tick_receive_inv)

lemma run_tick_published_inv: "tick_inv st \<Longrightarrow> tick_inv (run_tick_published so si na env st)"
  by (simp add: run_tick_published_def Let_def tick_inv_health run_tick_inv)

interpretation tick_sys: event_system "run_tick_published so si na" tick_inv for so si na
  by unfold_locales (rule run_tick_published_inv)

section \<open>The rate limiter\<close>

primrec limiter_run ::
  "u64 \<Rightarrow> instant list \<Rightarrow> occurrence_limiter \<Rightarrow> u64 option list \<times> occurrence_limiter" where
  "limiter_run key [] l = ([], l)"
| "limiter_run key (t # ts) l =
     (let (r, l') = limiter_record key t l; (rs, l'') = limiter_run key ts l' in (r # rs, l''))"

lemma limiter_run_snoc:
  "limiter_run key (ts @ [t]) l =
     (let (rs, l') = limiter_run key ts l; (r, l'') = limiter_record key t l' in (rs @ [r], l''))"
  by (induction ts arbitrary: l) (simp_all add: case_prod_beta Let_def)

definition emission_times :: "instant list \<Rightarrow> u64 option list \<Rightarrow> instant list" where
  "emission_times ts rs = map fst (filter (\<lambda>(t, r). r \<noteq> None) (zip ts rs))"

definition emitted_total :: "u64 option list \<Rightarrow> nat" where
  "emitted_total rs = sum_list (map (\<lambda>r. case r of Some s \<Rightarrow> unat s + 1 | None \<Rightarrow> 0) rs)"

definition limiter_state_ok :: "u64 \<Rightarrow> occurrence_limiter \<Rightarrow> occurrence_limiter \<Rightarrow> instant list \<Rightarrow> u64 option list \<Rightarrow> bool"
where
  "limiter_state_ok key l0 l ts rs \<longleftrightarrow>
     length rs = length ts \<and> ol_min_gap l = ol_min_gap l0 \<and>
     (ts \<noteq> [] \<longrightarrow> ol_last_key l = Some key \<and> unat (ol_occurrences l) = length ts \<and>
        unat (ol_emitted l) = emitted_total rs \<and> ol_emitted l \<le> ol_occurrences l \<and>
        emission_times ts rs \<noteq> [] \<and> hd rs = Some 0 \<and>
        ol_last_emitted_at l = Some (last (emission_times ts rs))) \<and>
     sorted_wrt (\<lambda>a b. ol_min_gap l0 \<le> b - a) (emission_times ts rs)"

lemma emission_times_snoc:
  "length rs = length ts \<Longrightarrow> emission_times (ts @ [t]) (rs @ [r]) =
     emission_times ts rs @ (if r = None then [] else [t])"
  by (auto simp: emission_times_def)

lemma emitted_total_snoc:
  "emitted_total (rs @ [r]) = emitted_total rs + (case r of Some s \<Rightarrow> unat s + 1 | None \<Rightarrow> 0)"
  by (simp add: emitted_total_def)

lemma gap_sorted_snoc:
  assumes "sorted_wrt (\<lambda>a b. g \<le> b - a) xs" and "xs \<noteq> []" and "(g :: nat) \<le> t - last xs"
  shows "sorted_wrt (\<lambda>a b. g \<le> b - a) (xs @ [t])"
proof -
  have "g \<le> t - a" if "a \<in> set xs" for a
  proof (cases "a = last xs")
    case False
    with that assms(2) have "a \<in> set (butlast xs)" by (metis append_butlast_last_id set_ConsD rotate1.simps(2) set_rotate1)
    with assms(1,2) have "g \<le> last xs - a"
      by (metis append_butlast_last_id list.set_intros(1) sorted_wrt_append)
    with assms(3) show ?thesis by linarith
  qed (use assms(3) in simp)
  with assms(1) show ?thesis by (simp add: sorted_wrt_append)
qed

lemma sat_add_one: "unat a + 1 < 2 ^ 64 \<Longrightarrow> unat (sat_add a 1) = unat a + 1"
  by (simp add: unat_sat_add)

lemma limiter_run_ok:
  assumes "ol_last_key l0 \<noteq> Some key" and "length ts < 2 ^ 64"
  shows "limiter_state_ok key l0 (snd (limiter_run key ts l0)) ts (fst (limiter_run key ts l0))"
  using assms(2)
proof (induction ts rule: rev_induct)
  case Nil
  show ?case by (simp add: limiter_state_ok_def emission_times_def)
next
  case (snoc t ts)
  let ?rs = "fst (limiter_run key ts l0)" and ?l = "snd (limiter_run key ts l0)"
  have ok: "limiter_state_ok key l0 ?l ts ?rs" using snoc by simp
  obtain r l' where rec: "limiter_record key t ?l = (r, l')" by fastforce
  have run: "limiter_run key (ts @ [t]) l0 = (?rs @ [r], l')"
    by (simp add: limiter_run_snoc case_prod_beta rec)
  show ?case
  proof (cases "ts = []")
    case True
    then have l: "?l = l0" "?rs = []" by simp_all
    have one: "sat_add 0 1 = (1 :: u64)" by (simp add: sat_add_def)
    have "r = Some 0" "l' = l0\<lparr>ol_occurrences := 1, ol_emitted := 1, ol_last_key := Some key,
        ol_last_emitted_at := Some t\<rparr>"
      using rec assms(1) by (auto simp: l limiter_record_def Let_def one sat_sub_def)
    with True show ?thesis
      by (simp add: run limiter_state_ok_def emission_times_def emitted_total_def limiter_record_def
          Let_def one sat_sub_def assms(1))
  next
    case False
    note ok' = ok [unfolded limiter_state_ok_def]
    from False ok' have key: "ol_last_key ?l = Some key" and occ: "unat (ol_occurrences ?l) = length ts" and
      em: "unat (ol_emitted ?l) = emitted_total ?rs" "ol_emitted ?l \<le> ol_occurrences ?l" and
      at: "ol_last_emitted_at ?l = Some (last (emission_times ts ?rs))" "emission_times ts ?rs \<noteq> []" and
      len: "length ?rs = length ts" and hd: "hd ?rs = Some 0"
      by simp_all
    have ne: "?rs \<noteq> []" using len False by auto
    let ?o = "sat_add (ol_occurrences ?l) 1"
    have o: "unat ?o = length ts + 1" using snoc.prems occ by (simp add: sat_add_one)
    have "?o \<noteq> 1" using o False by auto
    with rec key at(1) consider
      (emit) "r = Some (sat_sub ?o (ol_emitted ?l + 1))" "ol_min_gap ?l \<le> t - last (emission_times ts ?rs)"
        "l' = ?l\<lparr>ol_occurrences := ?o, ol_emitted := ?o, ol_last_emitted_at := Some t\<rparr>"
      | (quiet) "r = None" "l' = ?l\<lparr>ol_occurrences := ?o\<rparr>"
      by (auto simp: limiter_record_def Let_def split: if_splits)
    then show ?thesis
    proof cases
      case emit
      have e: "unat (ol_emitted ?l) \<le> length ts" using em(2) occ by (simp add: word_le_nat_alt)
      then have "unat (ol_emitted ?l + 1) = unat (ol_emitted ?l) + 1"
        using snoc.prems by (simp add: unat_word_ariths)
      then have "unat (sat_sub ?o (ol_emitted ?l + 1)) + 1 + emitted_total ?rs = length ts + 1"
        using e o em(1) by (simp add: unat_sat_sub)
      moreover have "sorted_wrt (\<lambda>a b. ol_min_gap l0 \<le> b - a) (emission_times ts ?rs @ [t])"
        using ok' emit(2) at(2) by (intro gap_sorted_snoc) simp_all
      ultimately show ?thesis
        using emit ok' o len hd False key ne
        by (simp add: run limiter_state_ok_def emission_times_snoc emitted_total_snoc hd_append)
    next
      case quiet
      have "ol_emitted ?l \<le> ?o"
        using em(2) occ o by (simp add: word_le_nat_alt)
      with quiet show ?thesis
        using ok' o len hd False key ne
        by (simp add: run limiter_state_ok_def emission_times_snoc emitted_total_snoc hd_append)
    qed
  qed
qed

section \<open>Queue pressure after a drain\<close>

lemma queue_pressure_eq:
  "queue_pressure_event b = QueuePressure
     (u64_clamp (length (qitems (iqueue b Control))) + u64_clamp (length (qitems (iqueue b Reward))) +
      u64_clamp (length (qitems (iqueue b Sensory))) + u64_clamp (length (qitems (iqueue b Telemetry))))
     (u64_clamp (class_cap (bi_config b) Control) + u64_clamp (class_cap (bi_config b) Reward) +
      u64_clamp (class_cap (bi_config b) Sensory) + u64_clamp (class_cap (bi_config b) Telemetry))"
  by (simp add: queue_pressure_event_def class_all_def ingress_metrics_of_def queue_metrics_def qitems_def Let_def)

lemma drained_lengths:
  assumes "ingress_inv b"
  shows "length (qitems (iqueue (snd (drain_for_tick b)) Control)) = 0"
    and "length (qitems (iqueue (snd (drain_for_tick b)) Telemetry)) = 0"
    and "length (qitems (iqueue (snd (drain_for_tick b)) Reward)) \<le> class_cap (bi_config b) Reward - 1"
    and "length (qitems (iqueue (snd (drain_for_tick b)) Sensory)) \<le> class_cap (bi_config b) Sensory - 1"
proof -
  have len: "length (bi_queues b) = 4" and
    cap: "length (qitems (iqueue b cls)) \<le> class_cap (bi_config b) cls" for cls
    using assms cq.inv_bound [of "iqueue b cls"]
    by (simp_all add: ingress_inv_def queue_matches_def class_cap_def)
  show "length (qitems (iqueue (snd (drain_for_tick b)) Control)) = 0"
    and "length (qitems (iqueue (snd (drain_for_tick b)) Telemetry)) = 0"
    and "length (qitems (iqueue (snd (drain_for_tick b)) Reward)) \<le> class_cap (bi_config b) Reward - 1"
    and "length (qitems (iqueue (snd (drain_for_tick b)) Sensory)) \<le> class_cap (bi_config b) Sensory - 1"
    using cap by (simp_all add: drain_for_tick_spec [OF len] diff_le_mono)
qed

lemma drain_config: "bi_config (snd (drain_for_tick b)) = bi_config b"
  using ingress_step_config [of IngDrain b] by simp

lemma f64_nat_63: "u64_as_f64 63 = Fin False 63"
  using round_mag_eqI [of 5 63 "- 47" "- 1022" 53 8866461766385664]
  by (simp add: u64_as_f64_def round_f64_def fl_round_def power_int_def power_one_over)

lemma f64_nat_209: "u64_as_f64 209 = Fin False 209"
  using round_mag_eqI [of 7 209 "- 45" "- 1022" 53 7353533766565888]
  by (simp add: u64_as_f64_def round_f64_def fl_round_def power_int_def power_one_over)

lemma f64_half: "round_f64 False (1 / 2) = Fin False (1 / 2)"
  using round_mag_eqI [of "- 1" "1 / 2" "- 53" "- 1022" 53 4503599627370496]
  by (simp add: round_f64_def fl_round_def power_int_def power_one_over)

lemma default_ratio_low:
  assumes "d \<le> 63"
  shows "\<not> next_overload False d 209 (f64_lit (9 / 10)) lo"
proof
  assume "next_overload False d 209 (f64_lit (9 / 10)) lo"
  with assms have "next_overload False 63 209 (f64_lit (9 / 10)) lo" by (rule next_overload_mono)
  then have "f_le (f64_lit (9 / 10)) (round_f64 False (63 / 209))"
    by (simp add: next_overload_def f64_nat_63 f64_nat_209 f64_div_def)
  moreover have "f_le (round_f64 False (63 / 209)) (round_f64 False (1 / 2))"
    unfolding round_f64_def by (rule fl_round_mono) simp_all
  ultimately have "f_le (f64_lit (9 / 10)) (Fin False (1 / 2))"
    unfolding f64_half by (rule f_le_trans)
  then show False by (simp add: f64_lit_90)
qed

section \<open>Properties\<close>

definition demo_env :: tick_env where
  "demo_env =
     \<lparr> te_receive_at = 0, te_backend_gate_at = 0, te_drain_gate_at = 0, te_dropped_at = 0, te_emit_at = 0,
       te_health = (\<lambda>_. 0), te_wall = 0 \<rparr>"

lemma tick_step_agree:
  assumes "\<And>xs m n. list_all is_finite xs \<Longrightarrow> finite_modulators m \<Longrightarrow> na_step na xs m n = na_step na' xs m n"
    and "na_default_modulators na = na_default_modulators na'" and "finite_modulators (na_default_modulators na)"
    and "finite_packet p"
  shows "tick_step si na env p st = tick_step si na' env p st"
proof -
  have d: "decode_inputs na p s = decode_inputs na' p s" for s by (rule decode_agree) (rule assms(2))
  have "na_step na (snd (decode_inputs na p s)) (fst (decode_inputs na p s)) n =
      na_step na' (snd (decode_inputs na p s)) (fst (decode_inputs na p s)) n" for s n
    using decode_finite [OF assms(4,3)] by (intro assms(1))
  then show ?thesis
    by (simp add: tick_step_def case_prod_beta Let_def d [symmetric] split: sum.split)
qed

text \<open>
  C1: No NaN or infinity ever reaches the network: two networks whose step functions agree on
  finite stimuli with finite modulators cannot be told apart by any tick, whatever the
  backend returned and whatever was enqueued directly on the ingress handle.
\<close>

theorem non_finite_never_reaches_step:
  assumes "\<And>xs m n. list_all is_finite xs \<Longrightarrow> finite_modulators m \<Longrightarrow> na_step na xs m n = na_step na' xs m n"
    and "na_default_modulators na = na_default_modulators na'" and "finite_modulators (na_default_modulators na)"
  shows "run_tick so si na env st = run_tick so si na' env st"
proof (cases "first_non_finite (fst (tick_input so env st))")
  case None
  then have "finite_packet (fst (tick_input so env st))" by (simp add: first_non_finite_None)
  with None tick_step_agree [OF assms this] show ?thesis by (simp add: run_tick_input)
qed (simp add: run_tick_input)

theorem non_finite_never_reaches_step_witness:
  "let na' = demo_na\<lparr>na_step := (\<lambda>xs m n. if list_all is_finite xs \<and> finite_modulators m
                                 then na_step demo_na xs m n else (Inl ''non-finite'', n))\<rparr>
   in run_tick stub_source_ops collecting_sink_ops demo_na demo_env =
        run_tick stub_source_ops collecting_sink_ops na' demo_env"
proof -
  let ?na = "demo_na\<lparr>na_step := (\<lambda>xs m n. if list_all is_finite xs \<and> finite_modulators m
                                 then na_step demo_na xs m n else (Inl ''non-finite'', n))\<rparr>"
  have "finite_modulators (na_default_modulators demo_na)"
    by (simp add: demo_na_def finite_modulators_def f_zero_def)
  from non_finite_never_reaches_step [of demo_na ?na stub_source_ops collecting_sink_ops
      demo_env, OF _ _ this] show ?thesis by (simp add: Let_def fun_eq_iff)
qed

lemma health_apply_runtime_fatal:
  "hm_fatal (health_apply IngressObserved t m) = hm_fatal m"
  "hm_fatal (health_apply (QueuePressure d c) t m) = hm_fatal m"
  "hm_fatal (health_apply TickSucceeded t m) = hm_fatal m"
  "hm_fatal (health_apply (CountersPublished cs) t m) = hm_fatal m"
  by (simp_all add: health_apply_defs)

lemma tick_input_fatal:
  "hm_fatal (hh_inner (ts_health (snd (tick_input so env st)))) = hm_fatal (hh_inner (ts_health st))"
proof -
  have "hm_fatal (hh_inner (ts_health (tick_admit env p st))) = hm_fatal (hh_inner (ts_health st))"
    for p and st :: "('a, 'b, 'c) tick_state"
    by (auto simp: tick_admit_def Let_def case_prod_beta health_apply_runtime_fatal split: option.splits)
  then show ?thesis
    by (simp add: tick_input_def tick_drain_def case_prod_beta queue_pressure_eq health_apply_runtime_fatal)
qed

lemma fatal_set: "hm_fatal (health_apply (FatalEv c d) t m) \<noteq> None"
  by (auto simp: health_apply_defs)


text \<open>
  C33: Every field of the daemon's tick state stays well formed over any number of ticks in any
  environment: queues inside their bounds and consistent health, and after each tick no
  control or telemetry packet is left waiting.
\<close>

theorem ticks_keep_invariant:
  assumes "tick_inv st"
  shows "tick_inv (fold (run_tick_published so si na) envs st) \<and>
    qitems (iqueue (ts_ingress (run_tick so si na env (fold (run_tick_published so si na) envs st))) Control) = [] \<and>
    qitems (iqueue (ts_ingress (run_tick so si na env (fold (run_tick_published so si na) envs st))) Telemetry) = []"
proof -
  let ?st = "fold (run_tick_published so si na) envs st"
  have inv: "tick_inv ?st" using assms by (rule tick_sys.run_inv)
  have "ts_ingress (run_tick so si na env ?st) = ts_ingress (snd (tick_input so env ?st))"
    by (auto simp: run_tick_input tick_reject_drained_def tick_step_def case_prod_beta Let_def
        split: option.split prod.split sum.split)
  also have "\<dots> = snd (drain_for_tick (ts_ingress (tick_admit env (fst (tick_receive so env ?st))
      (snd (tick_receive so env ?st)))))"
    by (simp add: tick_input_def tick_drain_def case_prod_beta)
  finally have e: "ts_ingress (run_tick so si na env ?st) = \<dots>" .
  have "ingress_inv (ts_ingress (tick_admit env (fst (tick_receive so env ?st)) (snd (tick_receive so env ?st))))"
    using tick_admit_inv [OF tick_receive_inv [OF inv]] by (simp add: tick_inv_def)
  from drained_lengths(1,2) [OF this] inv show ?thesis by (simp add: e)
qed

definition demo_tick_state :: "bounded_ingress \<Rightarrow> (unit, collecting_sink, unit) tick_state" where
  "demo_tick_state b =
     \<lparr> ts_source = (), ts_network = na_with_dimensions demo_na 1 0 1, ts_sink = collecting_new,
       ts_stimuli = [f_zero], ts_spike_buf = [], ts_ingress = b,
       ts_health = handle_started health_limits_default 0, ts_stats = runtime_stats_default,
       ts_diag = tick_diagnostics_default \<rparr>"

lemma demo_tick_inv: "ingress_inv b \<Longrightarrow> tick_inv (demo_tick_state b)"
  by (simp add: tick_inv_def demo_tick_state_def handle_started_def handle_from_machine_def
      health_inv_apply health_inv_new)

theorem ticks_keep_invariant_witness:
  "\<exists>b. ingress_new tiny_fixture = Inr b \<and> tick_inv (demo_tick_state b) \<and>
     tick_inv (fold (run_tick_published stub_source_ops collecting_sink_ops demo_na) [demo_env, demo_env]
       (demo_tick_state b))"
proof -
  obtain b where b: "ingress_new tiny_fixture = Inr b"
    using validate_defaults(2) by (auto simp: ingress_new_def Let_def)
  from ticks_keep_invariant [OF demo_tick_inv [OF ingress_new_inv(1) [OF b]], of stub_source_ops
      collecting_sink_ops demo_na "[demo_env, demo_env]"] demo_tick_inv [OF ingress_new_inv(1) [OF b]] b
  show ?thesis by blast
qed

text \<open>
  Decoding never changes the width of the stimulus vector and sets every channel: a
  channel carries the packet's value when the packet reaches it and its mask does not mark it
  invalid, and zero otherwise, so nothing of an earlier tick is left over. Short modulator
  vectors fall back to the defaults.
\<close>

theorem decode_inputs_spec:
  "length (snd (decode_inputs na p s)) = length s \<and>
   (\<forall>i < length s. snd (decode_inputs na p s) ! i =
      (if i < length (ip_stimuli p) \<and>
          (case ip_valid_mask p of None \<Rightarrow> True | Some m \<Rightarrow> i < length m \<longrightarrow> m ! i)
       then ip_stimuli p ! i else f_zero)) \<and>
   (case ip_modulators p of
      Some ms \<Rightarrow> length ms < 4 \<longrightarrow> fst (decode_inputs na p s) = na_default_modulators na
    | None \<Rightarrow> fst (decode_inputs na p s) = na_default_modulators na)"
  by (simp add: decode_nth decoded_channel_def decode_short)

theorem decode_inputs_spec_witness:
  "let p = packet_default\<lparr>ip_stimuli := [f_one, f_one], ip_valid_mask := Some [True, False]\<rparr>
   in snd (decode_inputs demo_na p [f_one, f_one, f_one]) ! 1 = f_zero \<and>
      snd (decode_inputs demo_na p [f_one, f_one, f_one]) ! 2 = f_zero"
proof -
  let ?p = "packet_default\<lparr>ip_stimuli := [f_one, f_one], ip_valid_mask := Some [True, False]\<rparr>"
  note spec = decode_inputs_spec [of demo_na ?p "[f_one, f_one, f_one]", THEN conjunct2, THEN conjunct1, rule_format]
  have "snd (decode_inputs demo_na ?p [f_one, f_one, f_one]) ! 1 = f_zero"
    "snd (decode_inputs demo_na ?p [f_one, f_one, f_one]) ! 2 = f_zero"
    by (simp_all only: spec list.size) (simp_all add: packet_default_def)
  then show ?thesis by (simp only: Let_def)
qed

text \<open>
  The sink is handed exactly the spikes whose identifier fits the wire type, in order and
  without truncating an identifier, stamped with the same wall-clock value as the batch; the
  others are counted as dropped, and a batch that lost all its spikes is not sent.
\<close>

theorem tick_publish_emits:
  "let ok = filter (\<lambda>i. i < 65536) ids;
       spikes = map (\<lambda>i. \<lparr> se_channel = of_nat i,
                  se_time = ucast (and (of_nat (te_wall env div 1000000) :: u64) 0xFFFFFFFF),
                  se_strength = f_one \<rparr>) ok
   in map (unat \<circ> se_channel) spikes = ok \<and>
      ts_sink (tick_publish si env ids st) =
        (if ok = [] \<and> ids \<noteq> [] then ts_sink st else snd (si_emit si spikes (te_wall env) (ts_sink st))) \<and>
      rs_dropped_spikes (ts_stats (tick_publish si env ids st)) =
        (if length ok < length ids
         then sat_add (rs_dropped_spikes (ts_stats st)) (of_nat (length ids - length ok))
         else rs_dropped_spikes (ts_stats st))"
proof -
  let ?ok = "filter (\<lambda>i. i < 65536) ids"
  have "map (unat \<circ> (\<lambda>i. of_nat i :: u16)) ?ok = ?ok"
    by (rule map_idI) (simp add: unat_of_nat)
  then have ids: "map (unat \<circ> se_channel) (map (\<lambda>i. \<lparr> se_channel = of_nat i, se_time = t,
      se_strength = f_one \<rparr>) ?ok) = ?ok" for t
    by (simp add: comp_def)
  have len: "length ?ok \<le> length ids" by simp
  show ?thesis
    unfolding Let_def ids
    by (simp add: tick_publish_def make_spikes_def tick_emit_sink note_dropped_count Let_def)
qed

text \<open>
  Rate limiting loses no occurrence and cannot flood: for any run of one recurring
  diagnostic, the first occurrence is reported at once, any two reports are at least the
  minimum gap apart, and the reports together with the suppressed counts they carry and the
  occurrences since the last report account for every occurrence.
\<close>

theorem limiter_sound:
  assumes "ol_last_key l \<noteq> Some key" and "length ts < 2 ^ 64" and "ts \<noteq> []"
  shows "let (rs, l') = limiter_run key ts l
     in hd rs = Some 0 \<and>
        sorted_wrt (\<lambda>a b. ol_min_gap l \<le> b - a) (emission_times ts rs) \<and>
        emitted_total rs + unat (sat_sub (ol_occurrences l') (ol_emitted l')) = length ts"
proof -
  obtain rs l' where r: "limiter_run key ts l = (rs, l')" by fastforce
  with limiter_run_ok [OF assms(1,2)] assms(3) have
    "hd rs = Some 0" "sorted_wrt (\<lambda>a b. ol_min_gap l \<le> b - a) (emission_times ts rs)"
    "unat (ol_occurrences l') = length ts" "unat (ol_emitted l') = emitted_total rs" "ol_emitted l' \<le> ol_occurrences l'"
    by (simp_all add: limiter_state_ok_def)
  then show ?thesis by (simp add: r unat_sat_sub word_le_nat_alt)
qed

theorem limiter_sound_witness:
  "let (rs, l') = limiter_run 7 [0, 1, 2] (limiter_new DIAGNOSTIC_INTERVAL DIAGNOSTIC_MIN_GAP)
   in hd rs = Some 0 \<and> emitted_total rs + unat (sat_sub (ol_occurrences l') (ol_emitted l')) = 3"
proof -
  have "ol_last_key (limiter_new DIAGNOSTIC_INTERVAL DIAGNOSTIC_MIN_GAP) \<noteq> Some 7" "length [0 :: nat, 1, 2] < 2 ^ 64"
    "[0 :: nat, 1, 2] \<noteq> []" by (simp_all add: limiter_new_def)
  note sound = limiter_sound [OF this]
  obtain rs l' where r: "limiter_run 7 [0, 1, 2] (limiter_new DIAGNOSTIC_INTERVAL DIAGNOSTIC_MIN_GAP) = (rs, l')"
    by fastforce
  have "length [0 :: nat, 1, 2] = 3" by simp
  with sound show ?thesis unfolding r Let_def prod.case by (simp only:)
qed



end
