(* ===== verification/Control.thy ===== *)
theory Control
  imports Health Net_Addr
begin

text \<open>
  \<open>src/control.rs\<close>: the HTTP control surface. First the pieces of the standard library's
  \<open>str\<close> it uses, on UTF-8 byte strings; then routing and rendering; then reading one request
  from a stream; then the listener with its two semaphores. A stream is the list of what its
  reads return and the outcome of its write; \<open>to_json\<close> stands for \<open>serde_json::to_vec\<close>.
\<close>

section \<open>Text\<close>

definition LF :: char where "LF = CHR 0x0A"
definition CR :: char where "CR = CHR 0x0D"
definition crlf :: string where "crlf = [CR, LF]"

text \<open>\<open>str::lines().next()\<close>: a carriage return goes only together with its line feed.\<close>

definition first_line :: "string \<Rightarrow> string option" where
  "first_line s =
     (if s = [] then None
      else let l = takeWhile (\<lambda>c. c \<noteq> LF) s
           in Some (if LF \<in> set s then (case strip_suffix [CR] l of Some l' \<Rightarrow> l' | None \<Rightarrow> l) else l))"

text \<open>Bytes of the white-space character at the head of a UTF-8 string, zero for none.\<close>

definition ascii_space :: "char \<Rightarrow> bool" where
  "ascii_space c \<longleftrightarrow> in_range 0x09 0x0D c \<or> in_range 0x20 0x20 c"

definition is_byte :: "nat \<Rightarrow> char \<Rightarrow> bool" where
  "is_byte n c \<longleftrightarrow> of_char c = n"

fun space_len :: "string \<Rightarrow> nat" where
  "space_len (a # b # c # s) =
     (if ascii_space a then 1
      else if is_byte 0xC2 a \<and> (is_byte 0x85 b \<or> is_byte 0xA0 b) then 2
      else if is_byte 0xE1 a \<and> is_byte 0x9A b \<and> is_byte 0x80 c then 3
      else if is_byte 0xE2 a \<and> is_byte 0x80 b \<and>
              (in_range 0x80 0x8A c \<or> in_range 0xA8 0xA9 c \<or> is_byte 0xAF c) then 3
      else if is_byte 0xE2 a \<and> is_byte 0x81 b \<and> is_byte 0x9F c then 3
      else if is_byte 0xE3 a \<and> is_byte 0x80 b \<and> is_byte 0x80 c then 3
      else 0)"
| "space_len [a, b] =
     (if ascii_space a then 1 else if is_byte 0xC2 a \<and> (is_byte 0x85 b \<or> is_byte 0xA0 b) then 2 else 0)"
| "space_len [a] = (if ascii_space a then 1 else 0)"
| "space_len [] = 0"

fun split_space :: "string \<Rightarrow> string \<Rightarrow> string list" where
  "split_space cur [] = (if cur = [] then [] else [cur])"
| "split_space cur (c # s) =
     (if space_len (c # s) = 0 then split_space (cur @ [c]) s
      else (if cur = [] then [] else [cur]) @ split_space [] (drop (space_len (c # s) - 1) s))"

definition split_whitespace :: "string \<Rightarrow> string list" where
  "split_whitespace s = split_space [] s"

section \<open>Routing and rendering\<close>

datatype parse_result = PrGet string | PrNotGet | PrInvalid

definition path_without_query :: "string \<Rightarrow> string" where
  "path_without_query target = hd (split_on (CHR ''?'') target)"

definition parse_request_line :: "string \<Rightarrow> parse_result" where
  "parse_request_line line =
     (case split_whitespace line of
        method # target # _ \<Rightarrow>
          (if \<not> eq_ignore_ascii_case method ''GET'' then PrNotGet
           else PrGet (path_without_query target))
      | _ \<Rightarrow> PrInvalid)"

definition parse_get_path :: "string \<Rightarrow> parse_result" where
  "parse_get_path request =
     (case first_line request of None \<Rightarrow> PrInvalid | Some line \<Rightarrow> parse_request_line line)"

definition http_reason :: "nat \<Rightarrow> string" where
  "http_reason status =
     (if status = 200 then ''OK'' else if status = 400 then ''Bad Request''
      else if status = 404 then ''Not Found'' else if status = 405 then ''Method Not Allowed''
      else if status = 503 then ''Service Unavailable'' else ''OK'')"

definition http_response :: "nat \<Rightarrow> string \<Rightarrow> string \<Rightarrow> string" where
  "http_response status content_type body =
     (let reason = http_reason status
      in ''HTTP/1.1 '' @ show_nat status @ '' '' @ reason @ crlf @
         ''Content-Type: '' @ content_type @ crlf @
         ''Content-Length: '' @ show_nat (length body) @ crlf @
         ''Connection: close'' @ crlf @ crlf @ body)"

definition text_plain :: string where
  "text_plain = ''text/plain; charset=utf-8''"

definition probe :: "bool \<Rightarrow> string \<Rightarrow> string \<Rightarrow> nat \<times> string \<times> string" where
  "probe ok yes no = (if ok then (200, text_plain, yes) else (503, text_plain, no))"

definition route :: "(health_snapshot \<Rightarrow> string option) \<Rightarrow> string \<Rightarrow> health_snapshot \<Rightarrow> nat \<times> string \<times> string" where
  "route to_json path snap =
     (if path = ''/livez'' \<or> path = ''/healthz/live''
      then probe (sn_live snap) (''live'' @ nl) (''not live'' @ nl)
      else if path = ''/readyz'' \<or> path = ''/healthz/ready''
      then probe (sn_ready snap) (''ready'' @ nl) (''not ready'' @ nl)
      else if path = ''/health''
      then (200, ''application/json'', case to_json snap of Some v \<Rightarrow> v | None \<Rightarrow> ''{}'')
      else if path = ''/metrics'' then (200, ''text/plain; version=0.0.4'', prometheus_text snap)
      else (404, text_plain, ''not found'' @ nl))"

definition render_http :: "(health_snapshot \<Rightarrow> string option) \<Rightarrow> string \<Rightarrow> health_snapshot \<Rightarrow> string" where
  "render_http to_json request snap =
     (case parse_get_path request of
        PrGet path \<Rightarrow>
          (let (status, content_type, body) = route to_json path snap
           in http_response status content_type body)
      | PrNotGet \<Rightarrow> http_response 405 text_plain (''method not allowed'' @ nl)
      | PrInvalid \<Rightarrow> http_response 400 text_plain (''bad request'' @ nl))"

definition busy_http :: string where
  "busy_http = http_response 503 text_plain (''busy'' @ nl)"

definition control_response ::
  "(health_snapshot \<Rightarrow> string option) \<Rightarrow> instant \<Rightarrow> string \<Rightarrow> health_handle \<Rightarrow> string" where
  "control_response to_json now req health =
     (case try_snapshot now health of
        Some snap \<Rightarrow> render_http to_json req snap
      | None \<Rightarrow> busy_http)"

section \<open>One connection\<close>

text \<open>The outcome of an I/O future: still pending when the deadline passes, an error, or a value.\<close>

datatype 'a io_outcome = IoPending | IoErr string | IoOk 'a

datatype control_error = CeTimeout string | CeIo string

definition IO_TIMEOUT :: duration where "IO_TIMEOUT = 2000000000"
definition BUSY_IO_TIMEOUT :: duration where "BUSY_IO_TIMEOUT = 50000000"
definition MAX_CONTROL_CONNS :: nat where "MAX_CONTROL_CONNS = 32"
definition MAX_BUSY_CONNS :: nat where "MAX_BUSY_CONNS = 4"
definition REQUEST_BUF :: nat where "REQUEST_BUF = 1024"

definition timed_io :: "string \<Rightarrow> 'a io_outcome \<Rightarrow> control_error + 'a" where
  "timed_io timeout_msg fut =
     (case fut of IoPending \<Rightarrow> Inl (CeTimeout timeout_msg) | IoErr e \<Rightarrow> Inl (CeIo e) | IoOk x \<Rightarrow> Inr x)"

datatype read_event = RdData string | RdErr string

definition request_line_complete :: "nat \<Rightarrow> string \<Rightarrow> bool" where
  "request_line_complete rd buf \<longleftrightarrow> rd = 0 \<or> LF \<in> set buf"

text \<open>An empty \<open>RdData\<close> is the end of the stream. When the list ends, the next read never returns.\<close>

fun read_request_line :: "string \<Rightarrow> read_event list \<Rightarrow> string io_outcome" where
  "read_request_line buf [] = (if length buf < REQUEST_BUF then IoPending else IoOk buf)"
| "read_request_line buf (r # rs) =
     (if length buf < REQUEST_BUF
      then (case r of
              RdErr e \<Rightarrow> IoErr e
            | RdData d \<Rightarrow>
                (let got = take (REQUEST_BUF - length buf) d; buf = buf @ got
                 in if request_line_complete (length got) buf then IoOk buf else read_request_line buf rs))
      else IoOk buf)"

definition read_http_request :: "read_event list \<Rightarrow> control_error + string" where
  "read_http_request reads =
     bind_res (timed_io ''control read timed out'' (read_request_line [] reads))
       (\<lambda>buf. Inr (if valid_utf8 buf then buf else []))"

definition write_http_response :: "unit io_outcome \<Rightarrow> string \<Rightarrow> control_error + string" where
  "write_http_response wr response =
     bind_res (timed_io ''control write timed out'' wr) (\<lambda>_. Inr response)"

text \<open>The bytes a client has received when the write succeeded.\<close>

definition handle_connection ::
  "(health_snapshot \<Rightarrow> string option) \<Rightarrow> instant \<Rightarrow> read_event list \<Rightarrow> unit io_outcome \<Rightarrow> health_handle
     \<Rightarrow> control_error + string" where
  "handle_connection to_json now reads wr health =
     bind_res (read_http_request reads)
       (\<lambda>req. write_http_response wr (control_response to_json now req health))"

definition write_busy_http :: "unit io_outcome \<Rightarrow> control_error + string" where
  "write_busy_http wr =
     (case wr of
        IoPending \<Rightarrow> Inl (CeTimeout ''control busy write timed out'')
      | IoErr e \<Rightarrow> Inl (CeIo e)
      | IoOk _ \<Rightarrow> Inr busy_http)"

section \<open>The listener\<close>

text \<open>
  The state of \<open>serve_listener\<close>: the permits left in both semaphores, the streams whose tasks
  hold one, the streams closed without a reply and the number of accept back-offs.
\<close>

record control_server =
  sv_slots :: nat
  sv_busy_slots :: nat
  sv_served :: "nat list"
  sv_busy :: "nat list"
  sv_closed :: "nat list"
  sv_backoffs :: nat

definition control_server_new :: control_server where
  "control_server_new =
     \<lparr> sv_slots = MAX_CONTROL_CONNS, sv_busy_slots = MAX_BUSY_CONNS, sv_served = [], sv_busy = [],
       sv_closed = [], sv_backoffs = 0 \<rparr>"

definition spawn_served_conn :: "nat \<Rightarrow> control_server \<Rightarrow> control_server" where
  "spawn_served_conn stream sv = sv\<lparr>sv_served := stream # sv_served sv\<rparr>"

definition spawn_busy_conn :: "nat \<Rightarrow> control_server \<Rightarrow> control_server" where
  "spawn_busy_conn stream sv =
     (if sv_busy_slots sv = 0 then sv\<lparr>sv_closed := stream # sv_closed sv\<rparr>
      else sv\<lparr>sv_busy_slots := sv_busy_slots sv - 1, sv_busy := stream # sv_busy sv\<rparr>)"

definition spawn_control_conn :: "nat \<Rightarrow> control_server \<Rightarrow> control_server" where
  "spawn_control_conn stream sv =
     (if 0 < sv_slots sv then spawn_served_conn stream (sv\<lparr>sv_slots := sv_slots sv - 1\<rparr>)
      else spawn_busy_conn stream sv)"

definition spawn_accepted :: "string + nat \<Rightarrow> control_server \<Rightarrow> bool \<times> control_server" where
  "spawn_accepted accepted sv =
     (case accepted of
        Inr stream \<Rightarrow> (True, spawn_control_conn stream sv)
      | Inl e \<Rightarrow> (False, sv))"

text \<open>
  What the listener's task and the tasks it spawned do, in order: the shutdown channel changes
  (whether the sender is still there, and the value then read), a connection is
  accepted or fails, a served or a busy task ends and drops its permit.
\<close>

datatype serve_event =
    SvChanged bool bool
  | SvAccept "string + nat"
  | SvServedDone nat
  | SvBusyDone nat

definition should_stop_control :: "bool \<Rightarrow> bool \<Rightarrow> bool" where
  "should_stop_control changed_ok signaled \<longleftrightarrow> \<not> changed_ok \<or> signaled"

definition task_done :: "serve_event \<Rightarrow> control_server \<Rightarrow> control_server" where
  "task_done ev sv =
     (case ev of
        SvServedDone s \<Rightarrow>
          (if s \<in> set (sv_served sv)
           then sv\<lparr>sv_served := remove1 s (sv_served sv), sv_slots := sv_slots sv + 1\<rparr> else sv)
      | SvBusyDone s \<Rightarrow>
          (if s \<in> set (sv_busy sv)
           then sv\<lparr>sv_busy := remove1 s (sv_busy sv), sv_busy_slots := sv_busy_slots sv + 1\<rparr> else sv)
      | _ \<Rightarrow> sv)"

text \<open>One turn of the loop: the branch that leaves it, and what the others do.\<close>

fun serve_stops :: "serve_event \<Rightarrow> bool" where
  "serve_stops (SvChanged ok signaled) = should_stop_control ok signaled"
| "serve_stops _ = False"

fun serve_step :: "serve_event \<Rightarrow> control_server \<Rightarrow> control_server" where
  "serve_step (SvAccept accepted) sv =
     (let (spawned, sv) = spawn_accepted accepted sv
      in if spawned then sv else sv\<lparr>sv_backoffs := sv_backoffs sv + 1\<rparr>)"
| "serve_step ev sv = task_done ev sv"

fun serve_loop :: "serve_event list \<Rightarrow> control_server \<Rightarrow> control_server option" where
  "serve_loop [] sv = None"
| "serve_loop (ev # es) sv = (if serve_stops ev then Some sv else serve_loop es (serve_step ev sv))"

definition serve_listener :: "bool \<Rightarrow> serve_event list \<Rightarrow> control_server option" where
  "serve_listener signaled es =
     (if signaled then Some control_server_new else serve_loop es control_server_new)"

section \<open>A client's reading of a response\<close>

text \<open>Reference parser: the status line, the three headers, the blank line, the counted body.\<close>

fun take_line :: "string \<Rightarrow> (string \<times> string) option" where
  "take_line (a # b # s) =
     (if a = CR \<and> b = LF then Some ([], s) else map_option (\<lambda>(l, r). (a # l, r)) (take_line (b # s)))"
| "take_line s = None"

definition header_line :: "string \<Rightarrow> string \<Rightarrow> (string \<times> string) option" where
  "header_line name s =
     Option.bind (take_line s) (\<lambda>(l, s). map_option (\<lambda>v. (v, s)) (strip_prefix name l))"

definition parse_response :: "string \<Rightarrow> (nat \<times> string \<times> string) option" where
  "parse_response s =
     Option.bind (header_line ''HTTP/1.1 '' s) (\<lambda>(status, s).
     Option.bind (header_line ''Content-Type: '' s) (\<lambda>(content_type, s).
     Option.bind (header_line ''Content-Length: '' s) (\<lambda>(len, s).
     Option.bind (header_line ''Connection: close'' s) (\<lambda>(c, s).
     Option.bind (header_line [] s) (\<lambda>(blank, body).
       if blank = [] \<and> c = [] \<and> read_nat len = length body
       then Some (read_nat (takeWhile (\<lambda>x. x \<noteq> CHR '' '') status), content_type, body) else None)))))"

lemma strip_prefix_append [simp]: "strip_prefix p (p @ r) = Some r"
  by (simp add: strip_prefix_Some)

lemma take_line_append [simp]: "CR \<notin> set l \<Longrightarrow> take_line (l @ CR # LF # s) = Some (l, s)"
proof (induction l)
  case (Cons a l)
  then show ?case by (cases l) auto
qed simp

lemma header_line_append [simp]:
  "CR \<notin> set name \<Longrightarrow> CR \<notin> set v \<Longrightarrow> header_line name (name @ v @ crlf @ s) = Some (v, s)"
  using take_line_append [of "name @ v" s] by (simp add: header_line_def crlf_def)

lemma digit_char_plain: "d < 10 \<Longrightarrow> digit_char d \<noteq> CR \<and> digit_char d \<noteq> LF \<and> digit_char d \<noteq> CHR '' ''"
  using of_char_digit_char [of d] by (auto simp: CR_def LF_def)

lemma show_nat_plain: "c \<in> set (show_nat n) \<Longrightarrow> c \<noteq> CR \<and> c \<noteq> LF \<and> c \<noteq> CHR '' ''"
proof (induction n rule: show_nat.induct)
  case (1 n)
  then show ?case
    using digit_char_plain [of n] digit_char_plain [of "n mod 10"]
    by (subst (asm) show_nat.simps) (auto split: if_splits)
qed

lemma takeWhile_show_nat [simp]: "takeWhile (\<lambda>x. x \<noteq> CHR '' '') (show_nat n @ CHR '' '' # s) = show_nat n"
  using show_nat_plain by (subst takeWhile_append2) auto

lemma http_reason_no_cr [simp]: "CR \<notin> set (http_reason st)"
  by (simp add: http_reason_def CR_def)

lemma parse_http_response [simp]:
  assumes "CR \<notin> set ct"
  shows "parse_response (http_response st ct body) = Some (st, ct, body)"
proof -
  let ?status = "show_nat st @ '' '' @ http_reason st"
  have sp: "CR \<noteq> CHR '' ''" by (simp add: CR_def)
  have no: "CR \<notin> set (show_nat k)" "CR \<notin> set ?status" for k
    using show_nat_plain sp by auto
  have names: "CR \<notin> set ''HTTP/1.1 ''" "CR \<notin> set ''Content-Type: ''" "CR \<notin> set ''Content-Length: ''"
    "CR \<notin> set ''Connection: close''" "CR \<notin> set ([] :: string)" by (simp_all add: CR_def)
  have s: "http_response st ct body =
      ''HTTP/1.1 '' @ ?status @ crlf @ ''Content-Type: '' @ ct @ crlf @
      ''Content-Length: '' @ show_nat (length body) @ crlf @ ''Connection: close'' @ [] @ crlf @ [] @ [] @ crlf @ body"
    by (simp add: http_response_def)
  show ?thesis
    unfolding s parse_response_def
    by (simp only: header_line_append [OF names(1) no(2)] header_line_append [OF names(2) assms]
        header_line_append [OF names(3) no(1)] header_line_append [OF names(4) names(5)]
        header_line_append [OF names(5) names(5)] Option.bind.simps prod.case)
      simp
qed

section \<open>Reading a request\<close>

definition visible :: "char \<Rightarrow> bool" where
  "visible c = in_range 0x21 0x7E c"

lemma space_len_visible [simp]: "visible c \<Longrightarrow> space_len (c # s) = 0"
  by (cases "c # s" rule: space_len.cases) (auto simp: visible_def in_range_def ascii_space_def is_byte_def)

lemma space_len_space [simp]: "space_len (CHR '' '' # s) = 1"
  by (cases "CHR '' '' # s" rule: space_len.cases) (auto simp: in_range_def ascii_space_def)

lemma split_space_word: "list_all visible w \<Longrightarrow> split_space cur (w @ s) = split_space (cur @ w) s"
  by (induction w arbitrary: cur) auto

lemma split_space_stop [simp]:
  "split_space cur (CHR '' '' # s) = (if cur = [] then [] else [cur]) @ split_space [] s"
  by simp

lemma get_visible:
  assumes "eq_ignore_ascii_case meth ''GET''"
  shows "list_all visible meth" "meth \<noteq> []"
proof -
  have low: "visible (to_ascii_lowercase c) \<Longrightarrow> visible c" for c
    by (auto simp: to_ascii_lowercase_def visible_def in_range_def less_eq_char_def split: if_splits)
  have g: "map to_ascii_lowercase meth = map to_ascii_lowercase ''GET''"
    using assms by (simp add: eq_ignore_ascii_case_def)
  have "list_all visible (map to_ascii_lowercase ''GET'')"
    by (simp add: visible_def in_range_def to_ascii_lowercase_def less_eq_char_def)
  then have "list_all visible (map to_ascii_lowercase meth)" by (simp only: g)
  then show "list_all visible meth" by (auto simp: list_all_iff intro: low)
  show "meth \<noteq> []" using g by auto
qed

lemma request_line_get:
  assumes "eq_ignore_ascii_case meth ''GET''" "list_all visible target" "target \<noteq> []"
  shows "parse_request_line (meth @ '' '' @ target @ '' HTTP/1.1'') = PrGet (path_without_query target)"
proof -
  have "split_whitespace (meth @ '' '' @ target @ '' HTTP/1.1'') = meth # target # split_space [] ''HTTP/1.1''"
    using get_visible [OF assms(1)] assms(2,3)
    by (simp add: split_whitespace_def split_space_word del: split_space.simps(2))
  with assms(1) show ?thesis by (simp add: parse_request_line_def)
qed

lemma first_line_crlf: "LF \<notin> set l \<Longrightarrow> first_line (l @ crlf @ s) = Some l"
  using strip_suffix_Some [of "[CR]" "l @ [CR]" l]
  by (simp add: first_line_def crlf_def CR_def LF_def Let_def takeWhile_append)

lemma path_without_query_eq:
  "CHR ''?'' \<notin> set path \<Longrightarrow> query = [] \<or> hd query = CHR ''?'' \<Longrightarrow> path_without_query (path @ query) = path"
  by (cases query) (auto simp: path_without_query_def hd_split_on takeWhile_append)

lemma read_chunks:
  assumes "[] \<notin> set ds" "ds \<noteq> []" "LF \<notin> set l" "buf @ concat ds = l @ [LF]" "length l < REQUEST_BUF"
  shows "read_request_line buf (map RdData ds @ later) = IoOk (l @ [LF])"
  using assms
proof (induction ds arbitrary: buf)
  case (Cons d ds)
  have d: "0 < length d" and len: "length buf + length d + length (concat ds) \<le> REQUEST_BUF"
    using Cons.prems(1,5) arg_cong [OF Cons.prems(4), of length] by auto
  then have got: "take (REQUEST_BUF - length buf) d = d" and lt: "length buf < REQUEST_BUF" by (simp, linarith)
  show ?case
  proof (cases "ds = []")
    case True
    moreover have "LF \<in> set (buf @ d)" using Cons.prems(4) True by simp
    ultimately show ?thesis using Cons.prems(4) d lt got by (simp add: request_line_complete_def Let_def)
  next
    case False
    with Cons.prems(1) have "concat ds \<noteq> []" by (cases ds) auto
    then have "buf @ d @ butlast (concat ds) = l"
      using Cons.prems(4) by (metis (no_types) append_assoc butlast_append butlast_snoc concat.simps(2))
    with Cons.prems(3) have "LF \<notin> set (buf @ d)" by auto
    moreover have "read_request_line (buf @ d) (map RdData ds @ later) = IoOk (l @ [LF])"
      using False Cons.prems by (intro Cons.IH) auto
    ultimately show ?thesis using d lt got by (simp add: request_line_complete_def Let_def)
  qed
qed simp

lemma ascii_valid_utf8: "\<forall>c \<in> set s. in_range 0 0x7F c \<Longrightarrow> valid_utf8 s"
  by (induction s) auto

lemma read_request_line_bound:
  "length buf \<le> REQUEST_BUF \<Longrightarrow> read_request_line buf rs = IoOk req \<Longrightarrow>
     length req \<le> REQUEST_BUF \<and> (LF \<in> set req \<or> length req = REQUEST_BUF \<or> RdData [] \<in> set rs)"
proof (induction buf rs rule: read_request_line.induct)
  case (2 buf r rs)
  show ?case
  proof (cases "length buf < REQUEST_BUF")
    case True
    show ?thesis
    proof (cases r)
      case (RdData x)
      let ?buf = "buf @ take (REQUEST_BUF - length buf) x"
      have "length ?buf \<le> REQUEST_BUF" using True by simp
      with RdData True 2 show ?thesis
        by (cases "x = []") (auto simp: Let_def request_line_complete_def split: if_splits)
    qed (use 2 True in simp)
  qed (use 2 in auto)
qed (auto split: if_splits)

section \<open>Answers\<close>

lemma text_plain_no_cr [simp]: "CR \<notin> set text_plain"
  by (simp add: text_plain_def CR_def)

lemma route_type [simp]: "CR \<notin> set (fst (snd (route to_json path s)))"
  by (simp add: route_def probe_def text_plain_def CR_def)

lemma parse_busy_http: "parse_response busy_http = Some (503, text_plain, ''busy'' @ nl)"
  by (simp add: busy_http_def)

lemma try_snapshot_eq: "try_snapshot now h = (if hh_writer h then None else Some (handle_snapshot now h))"
  by (simp add: try_snapshot_def handle_snapshot_def)

lemma parse_render_http:
  "parse_response (render_http to_json req s) =
     Some (case parse_get_path req of
             PrGet path \<Rightarrow> route to_json path s
           | PrNotGet \<Rightarrow> (405, text_plain, ''method not allowed'' @ nl)
           | PrInvalid \<Rightarrow> (400, text_plain, ''bad request'' @ nl))"
  by (simp add: render_http_def case_prod_beta split: parse_result.split)

lemma parse_control_response:
  "parse_response (control_response to_json now req h) =
     (if hh_writer h then Some (503, text_plain, ''busy'' @ nl)
      else parse_response (render_http to_json req (handle_snapshot now h)))"
  by (simp add: control_response_def try_snapshot_eq parse_busy_http)

lemma route_status: "fst (route to_json path s) \<in> {200, 404, 503}"
  by (simp add: route_def probe_def)

text \<open>
  C25: What a probe gets, from the socket to the parsed answer: a GET of a readiness or liveness
  path (method in any case, any query, split into any non-empty chunks of at most the read
  buffer) is answered 200 exactly when the process is ready, or live, and 503 otherwise, and
  with 503 \<open>busy\<close>, without waiting, while the health state is being written.
\<close>

theorem probe_end_to_end:
  assumes get: "eq_ignore_ascii_case meth ''GET''"
    and query: "list_all visible query" "query = [] \<or> hd query = CHR ''?''"
    and chunks: "[] \<notin> set chunks" "concat chunks = meth @ '' '' @ path @ query @ '' HTTP/1.1'' @ crlf"
      "length (concat chunks) \<le> REQUEST_BUF"
    and path: "(path, ok, yes, no) \<in>
      {(''/readyz'', sn_ready, ''ready'', ''not ready''), (''/healthz/ready'', sn_ready, ''ready'', ''not ready''),
       (''/livez'', sn_live, ''live'', ''not live''), (''/healthz/live'', sn_live, ''live'', ''not live'')}"
  shows "\<exists>resp. handle_connection to_json now (map RdData chunks @ later) (IoOk ()) h = Inr resp \<and>
     parse_response resp =
       Some (if hh_writer h then (503, text_plain, ''busy'' @ nl)
             else if ok (handle_snapshot now h) then (200, text_plain, yes @ nl)
             else (503, text_plain, no @ nl))"
proof -
  let ?line = "meth @ '' '' @ (path @ query) @ '' HTTP/1.1''"
  have vp: "list_all visible path" "path \<noteq> []" "CHR ''?'' \<notin> set path"
    using path by (auto simp: visible_def in_range_def)
  have vis: "in_range 0 0x7F c \<and> c \<noteq> LF" if "visible c" for c
    using that by (auto simp: visible_def in_range_def LF_def)
  have ascii: "in_range 0 0x7F c \<and> c \<noteq> LF" if "c \<in> set ?line" for c
    using that get_visible(1) [OF get] vp(1) query(1) vis
    by (auto simp: list_all_iff in_range_def LF_def)
  have cat: "concat chunks = (?line @ [CR]) @ [LF]" by (simp add: chunks(2) crlf_def)
  have "read_request_line [] (map RdData chunks @ later) = IoOk ((?line @ [CR]) @ [LF])"
  proof (rule read_chunks)
    show "[] @ concat chunks = (?line @ [CR]) @ [LF]" by (simp only: cat append_Nil)
    then show "chunks \<noteq> []" by auto
    show "LF \<notin> set (?line @ [CR])" using ascii by (auto simp: CR_def LF_def)
    show "length (?line @ [CR]) < REQUEST_BUF" using chunks(3) unfolding cat by simp
  qed (rule chunks(1))
  moreover have "valid_utf8 ((?line @ [CR]) @ [LF])"
    using ascii by (intro ascii_valid_utf8) (auto simp: CR_def LF_def in_range_def)
  ultimately have req: "read_http_request (map RdData chunks @ later) = Inr (?line @ crlf @ [])"
    by (simp add: read_http_request_def timed_io_def crlf_def)
  have "first_line (?line @ crlf @ []) = Some ?line"
    by (rule first_line_crlf) (use ascii in auto)
  then have "parse_get_path (?line @ crlf @ []) = PrGet path"
    using request_line_get [OF get, of "path @ query"] vp query
    by (simp add: parse_get_path_def path_without_query_eq)
  moreover have "route to_json path s =
      (if ok s then (200, text_plain, yes @ nl) else (503, text_plain, no @ nl))" for s
    using path by (elim insertE) (simp_all add: route_def probe_def)
  ultimately show ?thesis
    by (simp add: handle_connection_def req write_http_response_def timed_io_def parse_control_response
        parse_render_http del: append_assoc)
qed

definition demo_to_json :: "health_snapshot \<Rightarrow> string option" where
  "demo_to_json s = None"

theorem probe_end_to_end_witness:
  "\<exists>resp. handle_connection demo_to_json 5
       (map RdData [''gE'', ''t /readyz?x=1 HTTP'', ''/1.1'' @ crlf] @ []) (IoOk ())
       (handle_started health_limits_default 0) = Inr resp \<and>
     parse_response resp = Some (503, text_plain, ''not ready'' @ nl)"
proof -
  let ?h = "handle_started health_limits_default 0"
  have r: "\<not> hh_writer ?h" "\<not> sn_ready (handle_snapshot 5 ?h)"
    by (simp_all add: handle_started_def handle_from_machine_def handle_snapshot_def snapshot_ready
        health_apply_defs health_new_def hm_is_ready_def hm_is_initialized_def)
  have g: "eq_ignore_ascii_case ''gEt'' ''GET''"
    by code_simp
  show ?thesis
    using probe_end_to_end [OF g, of "''?x=1''" "[''gE'', ''t /readyz?x=1 HTTP'', ''/1.1'' @ crlf]" "''/readyz''"
        sn_ready "''ready''" "''not ready''" demo_to_json 5 "[]" ?h] r
    by (simp add: visible_def in_range_def REQUEST_BUF_def crlf_def)
qed

lemma parse_control_response_cases:
  "\<exists>st ct body. parse_response (control_response to_json now req h) = Some (st, ct, body) \<and>
     st \<in> {200, 400, 404, 405, 503} \<and> (hh_writer h \<longrightarrow> st = 503) \<and>
     (\<not> hh_writer h \<and> parse_get_path req = PrInvalid \<longrightarrow> st = 400)"
proof (cases "parse_get_path req")
  case (PrGet path)
  obtain st ct body where r: "route to_json path (handle_snapshot now h) = (st, ct, body)" by (metis prod_cases3)
  with PrGet show ?thesis
    using route_status [of to_json path "handle_snapshot now h"]
    by (auto simp: parse_control_response parse_render_http)
qed (auto simp: parse_control_response parse_render_http)

text \<open>
  C35: Whatever bytes a client sends, in whatever chunks: either the connection ends with the
  timeout or the I/O error of its read or its write, and no answer is sent, or the answer is a
  well-formed response with one of the five statuses the router uses, 503 whenever the health
  state is being written, and 400 for a request that is not UTF-8; and no more than the read
  buffer is ever looked at.
\<close>

theorem connection_outcome:
  "(case handle_connection to_json now rs wr h of
      Inl _ \<Rightarrow> (\<forall>req. read_request_line [] rs \<noteq> IoOk req) \<or> wr \<noteq> IoOk ()
    | Inr resp \<Rightarrow>
        (\<exists>raw st ct body. read_request_line [] rs = IoOk raw \<and> length raw \<le> REQUEST_BUF \<and>
           parse_response resp = Some (st, ct, body) \<and> st \<in> {200, 400, 404, 405, 503} \<and>
           (hh_writer h \<longrightarrow> st = 503) \<and> (\<not> hh_writer h \<and> \<not> valid_utf8 raw \<longrightarrow> st = 400)))"
proof (cases "read_request_line [] rs")
  case (IoOk raw)
  show ?thesis
  proof (cases wr)
    case w: (IoOk u)
    let ?req = "if valid_utf8 raw then raw else []"
    have "handle_connection to_json now rs wr h = Inr (control_response to_json now ?req h)"
      by (simp add: handle_connection_def read_http_request_def IoOk w timed_io_def write_http_response_def)
    moreover have "length raw \<le> REQUEST_BUF"
      using read_request_line_bound [of "[]" rs raw] IoOk by simp
    moreover have "valid_utf8 raw \<or> parse_get_path ?req = PrInvalid"
      by (simp add: parse_get_path_def first_line_def)
    ultimately show ?thesis
      using IoOk parse_control_response_cases [of to_json now ?req h] by auto
  qed (auto simp: handle_connection_def write_http_response_def timed_io_def read_http_request_def IoOk)
qed (auto simp: handle_connection_def read_http_request_def timed_io_def)

theorem connection_outcome_witness:
  "\<exists>resp st ct body. handle_connection demo_to_json 5 [RdData [CHR 0xFF, LF], RdErr ''reset''] (IoOk ())
       (handle_started health_limits_default 0) = Inr resp \<and>
     parse_response resp = Some (st, ct, body) \<and> st = 400"
proof -
  let ?h = "handle_started health_limits_default 0"
  have r: "read_request_line [] [RdData [CHR 0xFF, LF], RdErr ''reset''] = IoOk [CHR 0xFF, LF]"
    by (simp add: REQUEST_BUF_def request_line_complete_def)
  have u: "\<not> valid_utf8 [CHR 0xFF, LF]" by code_simp
  have w: "\<not> hh_writer ?h" by (simp add: handle_started_def handle_from_machine_def)
  show ?thesis
    using connection_outcome [where to_json = demo_to_json and now = 5 and wr = "IoOk ()" and h = ?h
      and rs = "[RdData [CHR 0xFF, LF], RdErr ''reset'']"] u w
    by (auto simp: r simp del: valid_utf8.simps read_request_line.simps split: sum.splits)
qed

section \<open>The listener's slots\<close>

definition serve_inv :: "control_server \<Rightarrow> bool" where
  "serve_inv sv \<longleftrightarrow>
     sv_slots sv + length (sv_served sv) = MAX_CONTROL_CONNS \<and>
     sv_busy_slots sv + length (sv_busy sv) = MAX_BUSY_CONNS"

lemma length_remove1_in: "x \<in> set xs \<Longrightarrow> Suc (length (remove1 x xs)) = length xs"
  by (simp add: length_remove1) (metis Suc_pred length_pos_if_in_set)

lemmas serve_defs =
  spawn_accepted_def spawn_control_conn_def spawn_served_conn_def spawn_busy_conn_def task_done_def

lemma serve_step_inv: "serve_inv sv \<Longrightarrow> serve_inv (serve_step ev sv)"
  by (cases ev) (auto simp: serve_inv_def serve_defs split: sum.split dest: length_remove1_in)

interpretation serve_sys: event_system serve_step serve_inv
  by unfold_locales (rule serve_step_inv)

lemma serve_loop_eq:
  "serve_loop es sv =
     (if \<exists>ev \<in> set es. serve_stops ev then Some (fold serve_step (takeWhile (\<lambda>ev. \<not> serve_stops ev) es) sv)
      else None)"
  by (induction es arbitrary: sv) auto

definition accepts :: "serve_event list \<Rightarrow> nat" where
  "accepts es = length (filter (\<lambda>ev. \<exists>s. ev = SvAccept (Inr s)) es)"

text \<open>Which connections get less than a full answer, by the number accepted so far.\<close>

definition refusals_late :: "nat \<Rightarrow> control_server \<Rightarrow> bool" where
  "refusals_late n sv \<longleftrightarrow>
     length (sv_served sv) + length (sv_busy sv) + length (sv_closed sv) \<le> n \<and>
     (sv_busy sv \<noteq> [] \<longrightarrow> MAX_CONTROL_CONNS < n) \<and>
     (sv_closed sv \<noteq> [] \<longrightarrow> MAX_CONTROL_CONNS + MAX_BUSY_CONNS < n)"

lemma serve_step_refusals:
  assumes "serve_inv sv" "refusals_late n sv"
  shows "refusals_late (n + accepts [ev]) (serve_step ev sv)"
proof (cases ev)
  case (SvAccept r)
  with assms show ?thesis
    by (cases r) (auto simp: refusals_late_def serve_inv_def serve_defs accepts_def)
next
  case (SvServedDone s)
  with assms show ?thesis
    by (auto simp: refusals_late_def serve_defs accepts_def length_remove1)
next
  case (SvBusyDone s)
  with assms show ?thesis
    by (auto simp: refusals_late_def serve_defs accepts_def length_remove1)
qed (use assms in \<open>auto simp: refusals_late_def serve_defs accepts_def\<close>)

lemma serve_run_refusals:
  "serve_inv sv \<Longrightarrow> refusals_late n sv \<Longrightarrow> refusals_late (n + accepts es) (fold serve_step es sv)"
proof (induction es arbitrary: sv n)
  case (Cons ev es)
  then have "refusals_late (n + accepts [ev] + accepts es) (fold serve_step es (serve_step ev sv))"
    by (intro Cons.IH serve_step_inv serve_step_refusals)
  moreover have "accepts [ev] + accepts es = accepts (ev # es)" by (simp add: accepts_def)
  ultimately show ?case by (simp add: add.assoc)
qed (simp add: accepts_def)

lemma control_server_new_ok: "serve_inv control_server_new" "refusals_late 0 control_server_new"
  by (simp_all add: serve_inv_def refusals_late_def control_server_new_def)



end
