(* ===== verification/Daemon.thy ===== *)
theory Daemon
  imports Tick Control
begin

text \<open>
  The rest of \<open>src/daemon.rs\<close>: construction, the boot of the network, the bounded run and
  the run until a termination signal. The environment gives every clock reading
  (\<open>clk\<close> for the boot events, a tick environment per tick), and the outcome of
  binding the control listener. The \<open>select!\<close> loop is run on the sequence of branches that
  fire; what it logs is not modelled. \<open>show_err\<close> stands for \<open>to_string\<close> of an error.
\<close>

section \<open>Errors\<close>

datatype daemon_error =
    DeConfig config_error
  | DeIngress ingress_config_error
  | DeInitialize string
  | DeRestore checkpoint_error
  | DeLiveSchema string
  | DeSimulationSchema string
  | DeDimensions "usize \<times> usize \<times> usize" "usize \<times> usize \<times> usize"
  | DeFlush string
  | DeShutdown string
  | DeControlAddress string
  | DeControlBind string

section \<open>Construction\<close>

record ('s, 'k) backend_pair =
  bp_source :: 's
  bp_sink :: 'k

record ('s, 'k) brainstem_daemon =
  bd_config :: daemon_config
  bd_registry :: service_registry
  bd_backend :: "('s, 'k) backend_pair"
  bd_ingress :: bounded_ingress
  bd_health :: health_handle

definition try_with_backend ::
  "instant \<Rightarrow> daemon_config \<Rightarrow> ('s, 'k) backend_pair \<Rightarrow> daemon_error + ('s, 'k) brainstem_daemon" where
  "try_with_backend now config backend =
     bind_res (map_err DeConfig (daemon_config_validate config)) (\<lambda>_.
     bind_res (map_err DeIngress (ingress_new (dc_ingress config))) (\<lambda>ingress.
       let services = dc_services config;
           config = config\<lparr>dc_services := []\<rparr>;
           registry = from_configs services
       in Inr \<lparr> bd_config = config, bd_registry = registry, bd_backend = backend,
                bd_ingress = ingress, bd_health = handle_started health_limits_default now \<rparr>))"

definition stub_pair :: "(unit, unit) backend_pair" where
  "stub_pair = \<lparr> bp_source = (), bp_sink = () \<rparr>"

definition try_new :: "instant \<Rightarrow> daemon_config \<Rightarrow> daemon_error + (unit, unit) brainstem_daemon" where
  "try_new now config = try_with_backend now config stub_pair"

text \<open>\<open>None\<close>: the panic of the infallible constructors.\<close>

definition with_backend ::
  "instant \<Rightarrow> daemon_config \<Rightarrow> ('s, 'k) backend_pair \<Rightarrow> ('s, 'k) brainstem_daemon option" where
  "with_backend now config backend =
     (case try_with_backend now config backend of Inr d \<Rightarrow> Some d | Inl err \<Rightarrow> None)"

definition daemon_new :: "instant \<Rightarrow> daemon_config \<Rightarrow> (unit, unit) brainstem_daemon option" where
  "daemon_new now config = with_backend now config stub_pair"

definition daemon_restore_network ::
  "filesystem \<Rightarrow> decoders \<Rightarrow> 'r neuromod_api \<Rightarrow> ('s, 'k) brainstem_daemon
     \<Rightarrow> checkpoint_error + 'r spiking_network \<times> model_provenance" where
  "daemon_restore_network fs de na d = restore_network fs de na (bd_config d)"

definition daemon_health_snapshot :: "instant \<Rightarrow> ('s, 'k) brainstem_daemon \<Rightarrow> health_snapshot" where
  "daemon_health_snapshot now d = handle_snapshot now (bd_health d)"

section \<open>Boot\<close>

definition validate_restored_pair ::
  "daemon_config \<Rightarrow> 'r spiking_network \<Rightarrow> model_provenance \<Rightarrow> daemon_error + unit" where
  "validate_restored_pair cfg network provenance =
     bind_res (case dc_runtime_mode cfg of
                 Live \<Rightarrow> (if mp_schema_id provenance \<noteq> SCHEMA_ID
                          then Inl (DeLiveSchema (mp_schema_id provenance)) else Inr ())
               | Simulation \<Rightarrow> (if mp_schema_id provenance \<noteq> SIMULATION_SCHEMA_ID
                                then Inl (DeSimulationSchema (mp_schema_id provenance)) else Inr ())) (\<lambda>_.
     if length (nw_neurons network) \<noteq> dc_lif_count cfg \<or> nw_iz_count network \<noteq> dc_izh_count cfg \<or>
        nw_num_channels network \<noteq> dc_channels cfg
     then Inl (DeDimensions (length (nw_neurons network), nw_iz_count network, nw_num_channels network)
                 (dc_lif_count cfg, dc_izh_count cfg, dc_channels cfg))
     else Inr ())"

definition take_restored_network ::
  "filesystem \<Rightarrow> decoders \<Rightarrow> 'r neuromod_api \<Rightarrow> daemon_config
     \<Rightarrow> ('r spiking_network \<times> model_provenance) option
     \<Rightarrow> daemon_error + 'r spiking_network \<times> model_provenance" where
  "take_restored_network fs de na cfg restored =
     bind_res (case restored of
                 Some pair \<Rightarrow> Inr pair
               | None \<Rightarrow> map_err DeRestore (restore_network fs de na cfg)) (\<lambda>(network, provenance).
     bind_res (validate_restored_pair cfg network provenance) (\<lambda>_. Inr (network, provenance)))"

definition checkpoint_identity_of :: "model_provenance \<Rightarrow> checkpoint_identity" where
  "checkpoint_identity_of p =
     (let digest = (if mp_content_sha256 p = ''none'' then None else Some (mp_content_sha256 p))
      in \<lparr> ci_id = mp_model_id p, ci_digest = digest \<rparr>)"

definition initialize_source ::
  "'s source_ops \<Rightarrow> (nat \<Rightarrow> instant) \<Rightarrow> daemon_config \<Rightarrow> 's \<Rightarrow> health_handle
     \<Rightarrow> (daemon_error + unit) \<times> 's \<times> health_handle" where
  "initialize_source so clk cfg source health =
     (case so_initialize so (Some (path_display (dc_model_path cfg))) source of
        (Inl msg, source) \<Rightarrow>
          (Inl (DeInitialize msg), source, handle_apply (InitializationFailedEv msg) (clk 0) health)
      | (Inr _, source) \<Rightarrow> (Inr (), source, handle_apply InitializationCompleted (clk 0) health))"

definition boot_network ::
  "filesystem \<Rightarrow> decoders \<Rightarrow> 'r neuromod_api \<Rightarrow> 's source_ops \<Rightarrow> (daemon_error \<Rightarrow> string)
     \<Rightarrow> (nat \<Rightarrow> instant) \<Rightarrow> daemon_config \<Rightarrow> ('r spiking_network \<times> model_provenance) option
     \<Rightarrow> 's \<Rightarrow> health_handle
     \<Rightarrow> (daemon_error + 'r spiking_network \<times> model_provenance) \<times> 's \<times> health_handle" where
  "boot_network fs de na so show_err clk cfg restored source health =
     (let (r, source, health) = initialize_source so clk cfg source health
      in (case r of
            Inl e \<Rightarrow> (Inl e, source, health)
          | Inr _ \<Rightarrow>
              (case take_restored_network fs de na cfg restored of
                 Inl err \<Rightarrow>
                   (Inl err, source, handle_apply (CheckpointRejected (show_err err)) (clk 1) health)
               | Inr (network, provenance) \<Rightarrow>
                   (Inr (network, provenance), source,
                    handle_apply (CheckpointValidated (checkpoint_identity_of provenance)) (clk 1) health))))"

section \<open>The control task\<close>

text \<open>The sender of the shutdown channel and the spawned listener: the value last sent.\<close>

record control_task =
  ct_stop :: bool

definition bind_control :: "(nat list \<times> nat \<Rightarrow> string + unit) \<Rightarrow> string \<Rightarrow> daemon_error + unit" where
  "bind_control tcp_bind bind =
     (case parse_socket_addr bind of
        None \<Rightarrow> Inl (DeControlAddress bind)
      | Some addr \<Rightarrow> map_err DeControlBind (tcp_bind addr))"

definition spawn_control_task :: control_task where
  "spawn_control_task = \<lparr> ct_stop = False \<rparr>"

text \<open>\<open>tcp_bind\<close> is the outcome of binding the listener.\<close>

definition start_control ::
  "(nat list \<times> nat \<Rightarrow> string + unit) \<Rightarrow> string option \<Rightarrow> daemon_error + control_task option" where
  "start_control tcp_bind bind =
     (case bind of
        None \<Rightarrow> Inr None
      | Some b \<Rightarrow> bind_res (bind_control tcp_bind b) (\<lambda>_. Inr (Some spawn_control_task)))"

definition stop_control :: "control_task option \<Rightarrow> control_task option" where
  "stop_control task = map_option (ct_stop_update (\<lambda>_. True)) task"

section \<open>Shutdown of the backend\<close>

text \<open>Both hooks run; their errors are only logged.\<close>

definition shutdown_backend ::
  "'s source_ops \<Rightarrow> 'k sink_ops \<Rightarrow> 's \<Rightarrow> 'k \<Rightarrow> 's \<times> 'k" where
  "shutdown_backend so si source sink =
     (let sink = snd (si_flush si sink); source = snd (so_shutdown so source) in (source, sink))"

definition finish_bounded_run ::
  "'s source_ops \<Rightarrow> 'k sink_ops \<Rightarrow> 's \<Rightarrow> 'k \<Rightarrow> bounded_ingress
     \<Rightarrow> (daemon_error + unit) \<times> 's \<times> 'k \<times> bounded_ingress" where
  "finish_bounded_run so si source sink ingress =
     (let (flush, sink) = si_flush si sink;
          (stop, source) = so_shutdown so source;
          ingress = ingress_shutdown ingress
      in (case flush of
            Inl err \<Rightarrow> (Inl (DeFlush err), source, sink, ingress)
          | Inr _ \<Rightarrow>
              (case stop of
                 Inl err \<Rightarrow> (Inl (DeShutdown err), source, sink, ingress)
               | Inr _ \<Rightarrow> (Inr (), source, sink, ingress))))"

section \<open>Bounded run\<close>

definition tick_start ::
  "'s \<Rightarrow> 'k \<Rightarrow> 'r spiking_network \<Rightarrow> bounded_ingress \<Rightarrow> health_handle \<Rightarrow> runtime_stats \<Rightarrow> usize
     \<Rightarrow> ('s, 'k, 'r) tick_state" where
  "tick_start source sink network ingress health stats channels =
     \<lparr> ts_source = source, ts_network = network, ts_sink = sink, ts_stimuli = replicate channels f_zero,
       ts_spike_buf = [], ts_ingress = ingress, ts_health = health, ts_stats = stats,
       ts_diag = tick_diagnostics_default \<rparr>"

text \<open>\<open>for _ in 0..ticks\<close>: one tick per environment.\<close>

definition drive_ticks ::
  "'s source_ops \<Rightarrow> 'k sink_ops \<Rightarrow> 'r neuromod_api \<Rightarrow> tick_env list
     \<Rightarrow> ('s, 'k, 'r) tick_state \<Rightarrow> ('s, 'k, 'r) tick_state" where
  "drive_ticks so si na envs st = fold (run_tick_published so si na) envs st"

record ('s, 'k) run_end =
  re_source :: 's
  re_sink :: 'k
  re_ingress :: bounded_ingress
  re_health :: health_handle

definition run_for_ticks ::
  "filesystem \<Rightarrow> decoders \<Rightarrow> 'r neuromod_api \<Rightarrow> 's source_ops \<Rightarrow> 'k sink_ops \<Rightarrow> (daemon_error \<Rightarrow> string)
     \<Rightarrow> (nat \<Rightarrow> instant) \<Rightarrow> tick_env list \<Rightarrow> ('s, 'k) brainstem_daemon
     \<Rightarrow> (daemon_error + runtime_stats) \<times> ('s, 'k) run_end" where
  "run_for_ticks fs de na so si show_err clk envs d =
     (let cfg = bd_config d;
          (r, source, health) =
            boot_network fs de na so show_err clk cfg None (bp_source (bd_backend d)) (bd_health d)
      in (case r of
            Inl err \<Rightarrow>
              (let ingress = ingress_shutdown (bd_ingress d);
                   (source, sink) = shutdown_backend so si source (bp_sink (bd_backend d))
               in (Inl err, \<lparr> re_source = source, re_sink = sink, re_ingress = ingress, re_health = health \<rparr>))
          | Inr (network, provenance) \<Rightarrow>
              (let stats = runtime_stats_default\<lparr>rs_loaded_checkpoint := Some provenance\<rparr>;
                   st = drive_ticks so si na envs
                     (tick_start source (bp_sink (bd_backend d)) network (bd_ingress d) health stats (dc_channels cfg));
                   (fin, source, sink, ingress) =
                     finish_bounded_run so si (ts_source st) (ts_sink st) (ts_ingress st)
               in (bind_res fin (\<lambda>_. Inr (ts_stats st)),
                   \<lparr> re_source = source, re_sink = sink, re_ingress = ingress, re_health = ts_health st \<rparr>))))"

section \<open>Run until a signal\<close>

text \<open>The branches of the \<open>select!\<close> loop in the order in which they fire.\<close>

datatype loop_event = LeTick tick_env | LeHeartbeat | LeSignal instant

fun loop_step ::
  "'s source_ops \<Rightarrow> 'k sink_ops \<Rightarrow> 'r neuromod_api \<Rightarrow> loop_event list
     \<Rightarrow> ('s, 'k, 'r) tick_state \<Rightarrow> ('s, 'k, 'r) tick_state option" where
  "loop_step so si na [] st = None"
| "loop_step so si na (LeTick env # es) st = loop_step so si na es (run_tick_published so si na env st)"
| "loop_step so si na (LeHeartbeat # es) st = loop_step so si na es st"
| "loop_step so si na (LeSignal now # es) st =
     Some (st\<lparr>ts_health := handle_apply BeginDrain now (ts_health st),
              ts_ingress := ingress_shutdown (ts_ingress st)\<rparr>)"

definition abort_startup ::
  "'s source_ops \<Rightarrow> 'k sink_ops \<Rightarrow> bounded_ingress \<Rightarrow> 's \<Rightarrow> 'k \<Rightarrow> control_task option
     \<Rightarrow> bounded_ingress \<times> control_task option \<times> 's \<times> 'k" where
  "abort_startup so si ingress source sink control =
     (let ingress = ingress_shutdown ingress; control = stop_control control
      in (ingress, control, shutdown_backend so si source sink))"

definition tick_duration :: "daemon_config \<Rightarrow> u64" where
  "tick_duration cfg = 1000000000 div ucast (dc_tick_rate_hz cfg)"

text \<open>
  \<open>None\<close>: no termination signal among the events yet. The interval between two ticks is
  \<open>tick_duration\<close>; when the ticks fire is up to the runtime, so the events say it.
\<close>

definition run_loop ::
  "(nat list \<times> nat \<Rightarrow> string + unit) \<Rightarrow> filesystem \<Rightarrow> decoders \<Rightarrow> 'r neuromod_api \<Rightarrow> 's source_ops
     \<Rightarrow> 'k sink_ops \<Rightarrow> (daemon_error \<Rightarrow> string) \<Rightarrow> (nat \<Rightarrow> instant) \<Rightarrow> loop_event list
     \<Rightarrow> ('r spiking_network \<times> model_provenance) option \<Rightarrow> ('s, 'k) brainstem_daemon
     \<Rightarrow> ((daemon_error + unit) \<times> control_task option \<times> ('s, 'k) run_end) option" where
  "run_loop tcp_bind fs de na so si show_err clk events restored d =
     (let cfg = bd_config d; source = bp_source (bd_backend d); sink = bp_sink (bd_backend d);
          aborted = (\<lambda>err source health control.
            let (ingress, control, source, sink) = abort_startup so si (bd_ingress d) source sink control
            in Some (Inl err, control,
                     \<lparr> re_source = source, re_sink = sink, re_ingress = ingress, re_health = health \<rparr>))
      in (case start_control tcp_bind (dc_control_bind cfg) of
            Inl err \<Rightarrow> aborted err source (bd_health d) None
          | Inr control \<Rightarrow>
              (case boot_network fs de na so show_err clk cfg restored source (bd_health d) of
                 (Inl err, source, health) \<Rightarrow> aborted err source health control
               | (Inr (network, _), source, health) \<Rightarrow>
                   map_option
                     (\<lambda>st. let control = stop_control control;
                               (source, sink) = shutdown_backend so si (ts_source st) (ts_sink st)
                           in (Inr (), control,
                               \<lparr> re_source = source, re_sink = sink, re_ingress = ts_ingress st,
                                 re_health = ts_health st \<rparr>))
                     (loop_step so si na events
                       (tick_start source sink network (bd_ingress d) health runtime_stats_default
                          (dc_channels cfg))))))"

definition daemon_run ::
  "(nat list \<times> nat \<Rightarrow> string + unit) \<Rightarrow> filesystem \<Rightarrow> decoders \<Rightarrow> 'r neuromod_api \<Rightarrow> 's source_ops
     \<Rightarrow> 'k sink_ops \<Rightarrow> (daemon_error \<Rightarrow> string) \<Rightarrow> (nat \<Rightarrow> instant) \<Rightarrow> loop_event list
     \<Rightarrow> ('s, 'k) brainstem_daemon
     \<Rightarrow> ((daemon_error + unit) \<times> control_task option \<times> ('s, 'k) run_end) option" where
  "daemon_run tcp_bind fs de na so si show_err clk events d =
     run_loop tcp_bind fs de na so si show_err clk events None d"

definition run_with_restored_network ::
  "(nat list \<times> nat \<Rightarrow> string + unit) \<Rightarrow> filesystem \<Rightarrow> decoders \<Rightarrow> 'r neuromod_api \<Rightarrow> 's source_ops
     \<Rightarrow> 'k sink_ops \<Rightarrow> (daemon_error \<Rightarrow> string) \<Rightarrow> (nat \<Rightarrow> instant) \<Rightarrow> loop_event list
     \<Rightarrow> 'r spiking_network \<Rightarrow> model_provenance \<Rightarrow> ('s, 'k) brainstem_daemon
     \<Rightarrow> ((daemon_error + unit) \<times> control_task option \<times> ('s, 'k) run_end) option" where
  "run_with_restored_network tcp_bind fs de na so si show_err clk events network provenance d =
     run_loop tcp_bind fs de na so si show_err clk events (Some (network, provenance)) d"

section \<open>Lemmas\<close>

lemma validate_restored_pair_ok:
  "validate_restored_pair cfg net prov = Inr () \<longleftrightarrow>
     mp_schema_id prov = (case dc_runtime_mode cfg of Live \<Rightarrow> SCHEMA_ID | Simulation \<Rightarrow> SIMULATION_SCHEMA_ID) \<and>
     length (nw_neurons net) = dc_lif_count cfg \<and> nw_iz_count net = dc_izh_count cfg \<and>
     nw_num_channels net = dc_channels cfg"
  by (auto simp: validate_restored_pair_def bind_unit split: runtime_mode.split)

lemma take_restored_ok:
  "take_restored_network fs de na cfg restored = Inr (net, prov) \<Longrightarrow>
     validate_restored_pair cfg net prov = Inr ()"
  by (auto simp: take_restored_network_def bind_res_Inr)

lemma boot_network_cases:
  obtains (init_failed) msg where
    "fst (boot_network fs de na so show_err clk cfg restored source health) = Inl (DeInitialize msg)"
    "snd (snd (boot_network fs de na so show_err clk cfg restored source health)) =
       handle_apply (InitializationFailedEv msg) (clk 0) health"
  | (rejected) err where
    "fst (boot_network fs de na so show_err clk cfg restored source health) = Inl err"
    "snd (snd (boot_network fs de na so show_err clk cfg restored source health)) =
       handle_apply (CheckpointRejected (show_err err)) (clk 1)
         (handle_apply InitializationCompleted (clk 0) health)"
  | (booted) net prov where
    "fst (boot_network fs de na so show_err clk cfg restored source health) = Inr (net, prov)"
    "take_restored_network fs de na cfg restored = Inr (net, prov)"
    "snd (snd (boot_network fs de na so show_err clk cfg restored source health)) =
       handle_apply (CheckpointValidated (checkpoint_identity_of prov)) (clk 1)
         (handle_apply InitializationCompleted (clk 0) health)"
proof -
  obtain r s' where i: "so_initialize so (Some (path_display (dc_model_path cfg))) source = (r, s')" by fastforce
  show thesis
  proof (cases r)
    case (Inl msg)
    with i show thesis by (intro init_failed [of msg]) (simp_all add: boot_network_def initialize_source_def)
  next
    case (Inr u)
    show thesis
    proof (cases "take_restored_network fs de na cfg restored")
      case (Inl err)
      with i Inr show thesis
        by (intro rejected [of err]) (simp_all add: boot_network_def initialize_source_def)
    next
      case t: (Inr p)
      obtain net prov where "p = (net, prov)" by fastforce
      with i Inr t show thesis
        by (intro booted [of net prov]) (simp_all add: boot_network_def initialize_source_def)
    qed
  qed
qed

section \<open>Properties\<close>

lemma started_health:
  "hm_started (hh_inner (handle_started l t)) \<and> hm_fatal (hh_inner (handle_started l t)) = None \<and>
   \<not> hm_draining (hh_inner (handle_started l t))"
  by (simp add: handle_started_def handle_from_machine_def health_apply_defs health_new_def)

lemma fatal_never_ready:
  assumes "hm_fatal m \<noteq> None"
  shows "\<not> hm_is_ready (fold health_step es m)"
proof -
  from assms have "health_terminal m" by (simp add: health_terminal_def)
  then have "health_terminal (fold health_step es m)" by (rule terminal_latch.run_tripped)
  then show ?thesis by (rule terminal_not_ready)
qed

text \<open>
  C21: The boot gate of a freshly started daemon: when it lets the tick loop start, the
  network has the configured dimensions, its provenance has the schema the runtime mode
  requires, and the process reports ready; when it refuses, the process has entered a fatal
  state from which no later event makes it ready.
\<close>

theorem boot_gate:
  "let (r, source', health') =
         boot_network fs de na so show_err clk cfg restored source (handle_started l t)
   in (case r of
         Inr (net, prov) \<Rightarrow>
           length (nw_neurons net) = dc_lif_count cfg \<and> nw_iz_count net = dc_izh_count cfg \<and>
           nw_num_channels net = dc_channels cfg \<and>
           mp_schema_id prov = (case dc_runtime_mode cfg of Live \<Rightarrow> SCHEMA_ID | Simulation \<Rightarrow> SIMULATION_SCHEMA_ID) \<and>
           sn_ready (handle_snapshot now health')
       | Inl err \<Rightarrow>
           hm_fatal (hh_inner health') \<noteq> None \<and> \<not> sn_ready (snapshot now (fold health_step es (hh_inner health'))))"
proof (cases rule: boot_network_cases [of fs de na so show_err clk cfg restored source "handle_started l t"])
  case (init_failed msg)
  then have "hm_fatal (hh_inner (snd (snd (boot_network fs de na so show_err clk cfg restored source (handle_started l t))))) \<noteq> None"
    using started_health [of l t] by (simp add: handle_apply_def health_apply_defs)
  with init_failed(1) show ?thesis
    by (simp add: case_prod_beta snapshot_ready fatal_never_ready Let_def)
next
  case (rejected err)
  then have "hm_fatal (hh_inner (snd (snd (boot_network fs de na so show_err clk cfg restored source (handle_started l t))))) \<noteq> None"
    using started_health [of l t] by (simp add: handle_apply_def health_apply_defs)
  with rejected(1) show ?thesis
    by (simp add: case_prod_beta snapshot_ready fatal_never_ready Let_def)
next
  case (booted net prov)
  have "hm_is_ready (hh_inner (snd (snd (boot_network fs de na so show_err clk cfg restored source (handle_started l t)))))"
    using started_health [of l t]
    by (simp add: booted(3) handle_apply_def health_apply_defs hm_is_ready_def hm_is_initialized_def hm_is_serving_def)
  with booted(1) take_restored_ok [OF booted(2)] show ?thesis
    by (simp add: case_prod_beta validate_restored_pair_ok snapshot_ready handle_snapshot_def Let_def)
qed

lemma run_tick_ticks: "unat (rs_ticks (ts_stats (run_tick so si na env st))) \<le> unat (rs_ticks (ts_stats st)) + 1"
proof -
  have le: "unat (a + 1) \<le> Suc (unat a)" for a :: u64 by (simp add: unat_word_ariths)
  show ?thesis
    by (auto simp: run_tick_input tick_step_def case_prod_beta Let_def le split: option.split sum.split)
qed

lemma run_tick_loaded [simp]:
  "rs_loaded_checkpoint (ts_stats (run_tick_published so si na env st)) = rs_loaded_checkpoint (ts_stats st)"
  by (auto simp: run_tick_published_def run_tick_input tick_step_def case_prod_beta Let_def
      split: option.split sum.split)

lemma drive_ticks_loaded [simp]:
  "rs_loaded_checkpoint (ts_stats (drive_ticks so si na envs st)) = rs_loaded_checkpoint (ts_stats st)"
  by (induction envs arbitrary: st) (simp_all add: drive_ticks_def)

lemma drive_ticks_count:
  "unat (rs_ticks (ts_stats (drive_ticks so si na envs st))) \<le> unat (rs_ticks (ts_stats st)) + length envs"
proof (induction envs arbitrary: st)
  case (Cons e es)
  show ?case
    using Cons [of "run_tick_published so si na e st"] run_tick_ticks [of so si na e st]
    by (simp add: drive_ticks_def run_tick_published_def Let_def)
qed (simp add: drive_ticks_def)

lemma drive_ticks_inv: "tick_inv st \<Longrightarrow> tick_inv (drive_ticks so si na envs st)"
  unfolding drive_ticks_def by (rule tick_sys.run_inv)

lemma boot_network_health_inv:
  assumes "health_inv (hh_inner h)"
  shows "health_inv (hh_inner (snd (snd (boot_network fs de na so show_err clk cfg restored source h))))"
  by (cases rule: boot_network_cases [of fs de na so show_err clk cfg restored source h])
    (simp_all add: handle_apply_def health_inv_apply assms)

text \<open>
  C32: A bounded run always cleans up: on every path, boot failure included, the ingress ends
  closed for producers and both the sink's flush and the source's shutdown ran, the source's
  even when the flush failed; and a run that succeeds names the checkpoint it loaded and
  counts no more ticks than it was asked for.
\<close>

theorem run_for_ticks_cleans_up:
  assumes "try_with_backend t config backend = Inr d"
  shows "let (r, e) = run_for_ticks fs de na so si show_err clk envs d
     in ingress_closed (re_ingress e) \<and>
        (\<exists>src. re_source e = snd (so_shutdown so src)) \<and> (\<exists>snk. re_sink e = snd (si_flush si snk)) \<and>
        (case r of Inr stats \<Rightarrow> rs_loaded_checkpoint stats \<noteq> None \<and> unat (rs_ticks stats) \<le> length envs
                 | Inl _ \<Rightarrow> True)"
proof -
  have inv: "ingress_inv (bd_ingress d)" and h: "health_inv (hh_inner (bd_health d))"
    using assms ingress_new_inv(1)
    by (auto simp: try_with_backend_def bind_res_Inr Let_def handle_started_def handle_from_machine_def
        health_inv_apply health_inv_new)
  have closed: "ingress_inv b \<Longrightarrow> ingress_closed (ingress_shutdown b)" for b
    by (simp add: ingress_inv_def ingress_shutdown_closed)
  let ?b = "boot_network fs de na so show_err clk (bd_config d) None (bp_source (bd_backend d)) (bd_health d)"
  obtain r source health where b: "?b = (r, source, health)" by (cases ?b) auto
  have hi: "health_inv (hh_inner health)"
    using boot_network_health_inv [OF h] by (metis b snd_conv)
  show ?thesis
  proof (cases r)
    case (Inl err)
    then show ?thesis
      using closed [OF inv] by (auto simp: run_for_ticks_def b shutdown_backend_def Let_def)
  next
    case (Inr p)
    obtain net prov where p: "p = (net, prov)" by fastforce
    let ?s0 = "tick_start source (bp_sink (bd_backend d)) net (bd_ingress d) health
        (runtime_stats_default\<lparr>rs_loaded_checkpoint := Some prov\<rparr>) (dc_channels (bd_config d))"
    let ?st = "drive_ticks so si na envs ?s0"
    have "tick_inv ?st"
      by (rule drive_ticks_inv) (simp add: tick_inv_def tick_start_def inv hi)
    then have cl: "ingress_closed (ingress_shutdown (ts_ingress ?st))" using closed by (simp add: tick_inv_def)
    have ticks: "unat (rs_ticks (ts_stats ?st)) \<le> length envs"
      using drive_ticks_count [of so si na envs ?s0] by (simp add: tick_start_def runtime_stats_default_def)
    have loaded: "rs_loaded_checkpoint (ts_stats ?st) = Some prov"
      by (simp add: tick_start_def)
    obtain fl sink' where f: "si_flush si (ts_sink ?st) = (fl, sink')" by fastforce
    obtain sd source' where s: "so_shutdown so (ts_source ?st) = (sd, source')" by fastforce
    have ex: "\<exists>src. source' = snd (so_shutdown so src)" "\<exists>snk. sink' = snd (si_flush si snk)"
      using f s by (metis snd_conv)+
    show ?thesis
      using cl ticks loaded ex
      by (simp add: run_for_ticks_def b Inr p finish_bounded_run_def f s Let_def split: sum.split)
  qed
qed

lemma loop_step_returns: "loop_step so si na events st \<noteq> None \<longleftrightarrow> (\<exists>t. LeSignal t \<in> set events)"
  by (induction so si na events st rule: loop_step.induct) auto

lemma loop_step_end:
  "tick_inv st \<Longrightarrow> loop_step so si na events st = Some st' \<Longrightarrow>
     ingress_closed (ts_ingress st') \<and> health_terminal (hh_inner (ts_health st'))"
proof (induction so si na events st rule: loop_step.induct)
  case (2 so si na env es st)
  then show ?case by (simp add: run_tick_published_inv)
next
  case (4 so si na now es st)
  then show ?case
    by (auto simp: tick_inv_def ingress_inv_def ingress_shutdown_closed handle_apply_def health_apply_defs
        health_terminal_def)
qed auto

lemma try_with_backend_inv:
  assumes "try_with_backend t config backend = Inr d"
  shows "ingress_inv (bd_ingress d)" "bd_health d = handle_started health_limits_default t"
    "bd_backend d = backend" "daemon_config_validate config = Inr ()"
    "bd_config d = config\<lparr>dc_services := []\<rparr>"
  using assms ingress_new_inv(1) by (auto simp: try_with_backend_def bind_res_Inr Let_def)

lemma started_not_ready: "\<not> hm_is_ready (hh_inner (handle_started l t))"
  by (simp add: handle_started_def handle_from_machine_def health_apply_defs health_new_def hm_is_ready_def
      hm_is_initialized_def)

lemma boot_failed_not_ready:
  assumes "boot_network fs de na so show_err clk cfg restored source h = (Inl err, source', health)"
    and "hm_started (hh_inner h)"
  shows "health_terminal (hh_inner health)"
  by (cases rule: boot_network_cases [of fs de na so show_err clk cfg restored source h])
    (use assms in \<open>auto simp: handle_apply_def health_apply_defs health_terminal_def\<close>)

text \<open>
  C4: A daemon that runs until a signal returns as soon as one arrives, whatever ticks and
  heartbeats precede it, and only then or when its start-up failed; however it returns, the
  ingress is closed, the sink was flushed, the source shut down, the control listener told to
  stop (and then it does), and the process is not ready; after a clean stop it never is again.
\<close>

theorem run_loop_returns:
  assumes "try_with_backend t config backend = Inr d"
  shows "((\<exists>now. LeSignal now \<in> set events) \<longrightarrow>
            run_loop tcp_bind fs de na so si show_err clk events restored d \<noteq> None) \<and>
         (\<forall>r control e. run_loop tcp_bind fs de na so si show_err clk events restored d = Some (r, control, e) \<longrightarrow>
            (r = Inr () \<longrightarrow> (\<exists>now. LeSignal now \<in> set events)) \<and>
            ingress_closed (re_ingress e) \<and>
            (\<exists>src. re_source e = snd (so_shutdown so src)) \<and> (\<exists>snk. re_sink e = snd (si_flush si snk)) \<and>
            (\<forall>c. control = Some c \<longrightarrow> serve_listener False (ses @ [SvChanged True (ct_stop c)]) \<noteq> None) \<and>
            \<not> hm_is_ready (hh_inner (re_health e)) \<and>
            (r = Inr () \<longrightarrow> \<not> hm_is_ready (fold health_step later (hh_inner (re_health e)))))"
proof -
  note d = try_with_backend_inv [OF assms]
  have closed: "ingress_closed (ingress_shutdown (bd_ingress d))"
    using d(1) by (simp add: ingress_inv_def ingress_shutdown_closed)
  have stop: "stop_control k = Some c \<Longrightarrow> serve_listener False (ses @ [SvChanged True (ct_stop c)]) \<noteq> None" for k c
    by (auto simp: stop_control_def serve_listener_def serve_loop_eq should_stop_control_def)
  have started: "hm_started (hh_inner (bd_health d))" "\<not> hm_is_ready (hh_inner (bd_health d))"
    using started_health [of health_limits_default t] started_not_ready by (simp_all add: d(2))
  have stopped: "\<exists>src. snd (so_shutdown so s) = snd (so_shutdown so src)"
    "\<exists>snk. snd (si_flush si k) = snd (si_flush si snk)" for s k by blast+
  let ?boot = "boot_network fs de na so show_err clk (bd_config d) restored (bp_source (bd_backend d)) (bd_health d)"
  have hi: "health_inv (hh_inner (snd (snd ?boot)))"
    by (rule boot_network_health_inv)
      (simp add: d(2) handle_started_def handle_from_machine_def health_inv_apply health_inv_new)
  show ?thesis
  proof (cases "start_control tcp_bind (dc_control_bind (bd_config d))")
    case (Inl err)
    with closed stopped started show ?thesis
      by (auto simp: run_loop_def abort_startup_def shutdown_backend_def stop_control_def Let_def)
  next
    case c: (Inr control)
    obtain r source health where b: "?boot = (r, source, health)" by (cases ?boot) auto
    show ?thesis
    proof (cases r)
      case (Inl err)
      have "\<not> hm_is_ready (hh_inner health)"
        by (rule terminal_not_ready [OF boot_failed_not_ready [OF b [unfolded Inl] started(1)]])
      with b c Inl closed stop stopped show ?thesis
        by (auto simp: run_loop_def abort_startup_def shutdown_backend_def Let_def)
    next
      case (Inr p)
      obtain net prov where p: "p = (net, prov)" by fastforce
      let ?start = "tick_start source (bp_sink (bd_backend d)) net (bd_ingress d) health runtime_stats_default
          (dc_channels (bd_config d))"
      have inv: "tick_inv ?start" using d(1) hi b by (simp add: tick_inv_def tick_start_def)
      have run: "run_loop tcp_bind fs de na so si show_err clk events restored d =
          map_option (\<lambda>st. (Inr (), stop_control control,
            \<lparr> re_source = snd (so_shutdown so (ts_source st)), re_sink = snd (si_flush si (ts_sink st)),
              re_ingress = ts_ingress st, re_health = ts_health st \<rparr>)) (loop_step so si na events ?start)"
        by (simp add: run_loop_def b c Inr p shutdown_backend_def Let_def)
      have never: "health_terminal m \<Longrightarrow> \<not> hm_is_ready (fold health_step later m)" for m
        using terminal_latch.run_tripped terminal_not_ready by blast
      show ?thesis
        unfolding run
        using loop_step_returns [of so si na events ?start] loop_step_end [OF inv] stop stopped never terminal_not_ready
        by (auto simp del: split_paired_All)
    qed
  qed
qed

section \<open>A concrete daemon\<close>

definition demo_daemon :: "(unit, unit) brainstem_daemon" where
  "demo_daemon = (case try_new 0 demo_cfg of Inr d \<Rightarrow> d)"

abbreviation demo_de :: decoders where
  "demo_de \<equiv> demo_decoders (Fin False (1 / 2))"

definition demo_show :: "daemon_error \<Rightarrow> string" where
  "demo_show err = ''restore failed''"

lemma demo_daemon_new: "try_with_backend 0 demo_cfg stub_pair = Inr demo_daemon"
proof -
  obtain d where "try_with_backend 0 demo_cfg stub_pair = Inr d"
    using demo_cfg_valid by (simp add: try_with_backend_def ingress_new_def validate_defaults Let_def)
  then show ?thesis by (simp add: demo_daemon_def try_new_def)
qed

lemma demo_daemon_config [simp]: "bd_config demo_daemon = demo_cfg\<lparr>dc_services := []\<rparr>"
  using try_with_backend_inv(5) [OF demo_daemon_new] by simp

lemma restore_ignores_services [simp]:
  "restore_network demo_fs de demo_na (demo_cfg\<lparr>dc_services := []\<rparr>) = restore_network demo_fs de demo_na demo_cfg"
  by (simp add: demo_cfg_def)

lemma demo_boots:
  "\<exists>net prov. boot_network demo_fs demo_de demo_na stub_source_ops demo_show clk (bd_config demo_daemon) None source h =
     (Inr (net, prov), source, handle_apply (CheckpointValidated (checkpoint_identity_of prov)) (clk 1)
        (handle_apply InitializationCompleted (clk 0) h))"
proof -
  obtain net prov where r: "restore_network demo_fs demo_de demo_na demo_cfg = Inr (net, prov)"
    and dims: "map ln_weights (nw_neurons net) = [[f_one]]" "nw_iz_count net = 0" "nw_num_channels net = 1"
      "mp_schema_id prov = SCHEMA_ID"
    using demo_restore [of "Fin False (1 / 2)"] f32_half by (auto simp: f_zero_def f_one_def)
  have "length (nw_neurons net) = 1" using arg_cong [OF dims(1), of length] by simp
  with r dims show ?thesis
    by (simp add: boot_network_def initialize_source_def take_restored_network_def validate_restored_pair_def
        stub_source_ops_def display_errors_def stub_initialize_def bind_unit)
qed

theorem run_for_ticks_cleans_up_witness:
  "\<exists>stats e. run_for_ticks demo_fs demo_de demo_na stub_source_ops noop_sink_ops demo_show (\<lambda>_. 0)
        [demo_env, demo_env] demo_daemon = (Inr stats, e) \<and>
     ingress_closed (re_ingress e) \<and> rs_loaded_checkpoint stats \<noteq> None \<and> unat (rs_ticks stats) \<le> 2"
proof -
  let ?run = "run_for_ticks demo_fs demo_de demo_na stub_source_ops noop_sink_ops demo_show (\<lambda>_. 0)
    [demo_env, demo_env] demo_daemon"
  have fin: "finish_bounded_run stub_source_ops noop_sink_ops s k b = (Inr (), s, k, ingress_shutdown b)" for s k b
    by (simp add: finish_bounded_run_def stub_source_ops_def noop_sink_ops_def Let_def)
  obtain stats e where r: "?run = (Inr stats, e)"
    using demo_boots [of "\<lambda>_. 0" "bp_source (bd_backend demo_daemon)" "bd_health demo_daemon"]
    by (auto simp: run_for_ticks_def fin Let_def)
  then show ?thesis
    using run_for_ticks_cleans_up [OF demo_daemon_new, of demo_fs demo_de demo_na stub_source_ops noop_sink_ops
        demo_show "\<lambda>_. 0" "[demo_env, demo_env]"]
    by (auto simp: numeral_2_eq_2)
qed

theorem run_loop_returns_witness:
  "\<exists>r control e. run_loop (\<lambda>_. Inr ()) demo_fs demo_de demo_na stub_source_ops noop_sink_ops demo_show (\<lambda>_. 0)
        [LeTick demo_env, LeHeartbeat, LeTick demo_env, LeSignal 7] None demo_daemon = Some (r, control, e) \<and>
     ingress_closed (re_ingress e) \<and> \<not> hm_is_ready (hh_inner (re_health e))"
proof -
  let ?run = "run_loop (\<lambda>_. Inr ()) demo_fs demo_de demo_na stub_source_ops noop_sink_ops demo_show (\<lambda>_. 0)
        [LeTick demo_env, LeHeartbeat, LeTick demo_env, LeSignal 7] None demo_daemon"
  note th = run_loop_returns [OF demo_daemon_new,
      of "[LeTick demo_env, LeHeartbeat, LeTick demo_env, LeSignal 7]" "\<lambda>_. Inr ()" demo_fs demo_de demo_na
        stub_source_ops noop_sink_ops demo_show "\<lambda>_. 0" None]
  have "?run \<noteq> None" using th by simp
  then obtain r control e where r: "?run = Some (r, control, e)" by (cases ?run) auto
  then show ?thesis using th by blast
qed

section \<open>Construction\<close>

lemma tick_duration_bounds:
  assumes "1 \<le> dc_tick_rate_hz cfg" "dc_tick_rate_hz cfg \<le> 1000000"
  shows "1000 \<le> tick_duration cfg" "tick_duration cfg \<le> 1000000000"
proof -
  let ?r = "unat (dc_tick_rate_hz cfg)"
  have r: "1 \<le> ?r" "?r \<le> 1000000"
    using assms by (simp_all add: word_le_nat_alt)
  have u: "unat (tick_duration cfg) = 1000000000 div ?r"
    using r by (simp add: tick_duration_def unat_div_distrib unsigned_ucast_eq take_bit_nat_eq_self)
  have "1000000000 div 1000000 \<le> 1000000000 div ?r" by (rule div_le_mono2) (use r in simp_all)
  then show "1000 \<le> tick_duration cfg" by (simp add: word_le_nat_alt u)
  show "tick_duration cfg \<le> 1000000000" by (simp add: word_le_nat_alt u)
qed

lemma validate_parts:
  assumes "daemon_config_validate cfg = Inr ()"
  shows "1 \<le> dc_tick_rate_hz cfg" "dc_tick_rate_hz cfg \<le> 1000000"
    "ingress_config_validate (dc_ingress cfg) = Inr ()"
    "option_all (\<lambda>b. parse_socket_addr b \<noteq> None) (dc_control_bind cfg)"
  using assms
  by (auto simp: daemon_config_validate_def bind_unit validate_control_bind_ok bind_res_Inr split: sum.splits)

text \<open>
  Construction fails exactly on an invalid configuration, with the configuration's own
  error and never with an ingress error, and the panicking constructor panics exactly then; a
  constructed daemon ticks at an interval between one microsecond and one second, so the timer
  is never given the zero period it panics on, and a control address that fails to parse is
  not among the errors its run can end with.
\<close>

theorem construction:
  "(case try_with_backend t config backend of
      Inl err \<Rightarrow> (\<exists>e. err = DeConfig e \<and> daemon_config_validate config = Inl e) \<and>
                 with_backend t config backend = None
    | Inr d \<Rightarrow> daemon_config_validate config = Inr () \<and> with_backend t config backend = Some d \<and>
               1000 \<le> tick_duration (bd_config d) \<and> tick_duration (bd_config d) \<le> 1000000000 \<and>
               (\<forall>tcp_bind b. start_control tcp_bind (dc_control_bind (bd_config d)) \<noteq> Inl (DeControlAddress b)))"
proof (cases "daemon_config_validate config")
  case (Inl e)
  then show ?thesis by (simp add: try_with_backend_def with_backend_def)
next
  case (Inr u)
  then have v: "daemon_config_validate config = Inr ()" by simp
  obtain d where d: "try_with_backend t config backend = Inr d"
    using validate_parts(3) [OF v] v by (simp add: try_with_backend_def ingress_new_def Let_def)
  have cfg: "dc_tick_rate_hz (bd_config d) = dc_tick_rate_hz config"
    "dc_control_bind (bd_config d) = dc_control_bind config"
    using try_with_backend_inv(5) [OF d] by simp_all
  have "start_control tcp_bind (dc_control_bind config) \<noteq> Inl (DeControlAddress b)" for tcp_bind b
    using validate_parts(4) [OF v]
    by (auto simp: start_control_def bind_control_def map_err_def bind_res_def split: option.splits sum.splits)
  with d v tick_duration_bounds [of "bd_config d"] validate_parts(1,2) [OF v] show ?thesis
    by (simp add: cfg with_backend_def)
qed

section \<open>Types of a run\<close>

definition network_shape :: "'r spiking_network \<Rightarrow> usize \<times> usize \<times> usize" where
  "network_shape net = (length (nw_neurons net), nw_iz_count net, nw_num_channels net)"

text \<open>What a tick may rely on: dimensions, width of the stimulus vector, finite values.\<close>

definition tick_typed :: "usize \<times> usize \<times> usize \<Rightarrow> ('s, 'k, 'r) tick_state \<Rightarrow> bool" where
  "tick_typed dims st \<longleftrightarrow>
     network_shape (ts_network st) = dims \<and> length (ts_stimuli st) = snd (snd dims) \<and>
     list_all is_finite (ts_stimuli st) \<and> list_all (\<lambda>s. is_finite (se_strength s)) (ts_spike_buf st)"

lemma decode_stimuli_finite: "finite_packet p \<Longrightarrow> list_all is_finite (snd (decode_inputs na p s))"
  by (simp add: list_all_length decode_nth decoded_channel_def finite_packet_def f_zero_def)

lemma stage_spike_buf [simp]:
  "ts_spike_buf (snd (tick_receive so env st)) = ts_spike_buf st"
  "ts_spike_buf (tick_admit env p st) = ts_spike_buf st"
  "ts_spike_buf (snd (tick_drain env st)) = ts_spike_buf st"
  "ts_spike_buf (snd (tick_input so env st)) = ts_spike_buf st"
  "ts_spike_buf (tick_reject_drained env st) = ts_spike_buf st"
  "ts_stimuli (tick_reject_drained env st) = ts_stimuli st"
  "ts_spike_buf (tick_emit si env st) = ts_spike_buf st"
  by (auto simp: tick_receive_def tick_admit_def tick_drain_def tick_input_def tick_reject_drained_def
      tick_emit_def Let_def case_prod_beta split: option.splits sum.splits prod.splits)

lemma published_spikes_finite:
  "list_all (\<lambda>s. is_finite (se_strength s)) (ts_spike_buf (tick_publish si env ids st))"
  by (simp add: tick_publish_def make_spikes_def Let_def list_all_iff f_one_def)

lemma run_tick_typed:
  assumes "\<And>xs m n. network_shape (snd (na_step na xs m n)) = network_shape n" and "tick_typed dims st"
  shows "tick_typed dims (run_tick so si na env st)"
proof (cases "first_non_finite (fst (tick_input so env st))")
  case None
  let ?st = "snd (tick_input so env st)" and ?d = "decode_inputs na (fst (tick_input so env st)) (ts_stimuli st)"
  have "list_all is_finite (snd ?d)"
    using None by (simp add: decode_stimuli_finite first_non_finite_None)
  moreover have "network_shape (snd (na_step na (snd ?d) (fst ?d) (ts_network st))) = dims"
    using assms by (simp add: tick_typed_def)
  ultimately show ?thesis
    using assms(2) None
    by (cases "na_step na (snd ?d) (fst ?d) (ts_network st)")
      (auto simp: run_tick_input tick_step_def tick_typed_def published_spikes_finite case_prod_beta Let_def
        split: sum.split)
next
  case (Some off)
  with assms(2) show ?thesis by (simp add: run_tick_input tick_typed_def)
qed

lemma published_tick_typed:
  assumes "\<And>xs m n. network_shape (snd (na_step na xs m n)) = network_shape n" and "tick_typed dims st"
  shows "tick_typed dims (run_tick_published so si na env st)"
  using run_tick_typed [OF assms, of so si env] by (simp add: run_tick_published_def tick_typed_def Let_def)

lemma drive_ticks_typed:
  assumes "\<And>xs m n. network_shape (snd (na_step na xs m n)) = network_shape n" and "tick_typed dims st"
  shows "tick_typed dims (drive_ticks so si na envs st)"
  using assms(2) unfolding drive_ticks_def
  by (induction envs arbitrary: st) (simp_all add: published_tick_typed [OF assms(1)])

text \<open>
  C28: Types of a run: with a network library whose step keeps the network's dimensions, every
  tick of a booted daemon finds a network of exactly the configured dimensions, a stimulus
  vector exactly as wide as the network's channels, and only finite stimuli and spike
  strengths, whatever the backend delivers.
\<close>

theorem run_well_typed:
  assumes "\<And>xs m n. network_shape (snd (na_step na xs m n)) = network_shape n"
    and "boot_network fs de na so show_err clk cfg restored source h = (Inr (net, prov), source', health)"
  shows "tick_typed (dc_lif_count cfg, dc_izh_count cfg, dc_channels cfg)
     (drive_ticks so si na envs (tick_start source' sink net ingress health stats (dc_channels cfg)))"
proof -
  have "validate_restored_pair cfg net prov = Inr ()"
    using assms(2)
    by (auto simp: boot_network_def Let_def case_prod_beta take_restored_network_def bind_res_Inr bind_unit
        split: sum.splits prod.splits)
  then have "tick_typed (dc_lif_count cfg, dc_izh_count cfg, dc_channels cfg)
      (tick_start source' sink net ingress health stats (dc_channels cfg))"
    by (auto simp: validate_restored_pair_def bind_res_Inr tick_typed_def tick_start_def network_shape_def
        list_all_iff f_zero_def split: if_splits)
  from drive_ticks_typed [OF assms(1) this] show ?thesis .
qed

theorem run_well_typed_witness:
  "\<exists>net prov health. boot_network demo_fs demo_de demo_na stub_source_ops demo_show (\<lambda>_. 0) (bd_config demo_daemon)
       None () (bd_health demo_daemon) = (Inr (net, prov), (), health) \<and>
     tick_typed (1, 0, 1) (drive_ticks stub_source_ops noop_sink_ops demo_na [demo_env, demo_env]
       (tick_start () () net (bd_ingress demo_daemon) health runtime_stats_default 1))"
proof -
  have shape: "network_shape (snd (na_step demo_na xs m n)) = network_shape n" for xs m n
    by (simp add: demo_na_def)
  obtain net prov health where b: "boot_network demo_fs demo_de demo_na stub_source_ops demo_show (\<lambda>_. 0)
      (bd_config demo_daemon) None () (bd_health demo_daemon) = (Inr (net, prov), (), health)"
    using demo_boots [of "\<lambda>_. 0" "()" "bd_health demo_daemon"] by auto
  have dims: "dc_lif_count (bd_config demo_daemon) = 1" "dc_izh_count (bd_config demo_daemon) = 0"
    "dc_channels (bd_config demo_daemon) = 1"
    by (simp_all add: demo_cfg_def)
  from run_well_typed [OF shape b, of noop_sink_ops "[demo_env, demo_env]" "()" "bd_ingress demo_daemon"
      runtime_stats_default, unfolded dims] b
  show ?thesis by blast
qed

end
