(* ===== verification/Startup.thy ===== *)
theory Startup
  imports Daemon "HOL-Library.Sublist"
begin

text \<open>
  \<open>src/bin/brainstem_daemon.rs\<close> with the \<open>corpus-ipc\<close> feature: from the command line to the
  running daemon. What it does to the process and to its PUB socket is recorded in order as a
  list of effects; what \<open>clap\<close>, \<open>dirs\<close>, \<open>toml\<close>, \<open>EnvFilter\<close>, \<open>zmq\<close> and the signal handling
  of the runtime contribute are fields of \<open>process_env\<close>.
\<close>

section \<open>Environment and effects\<close>

definition CORPUS_IPC_READOUT_ENV :: string where
  "CORPUS_IPC_READOUT_ENV = ''CORPUS_IPC_ZMQ_READOUT_IPC''"

definition LEGACY_SPIKENAUT_READOUT_ENV :: string where
  "LEGACY_SPIKENAUT_READOUT_ENV = ''SPIKENAUT_ZMQ_READOUT_IPC''"

definition RUST_LOG_ENV :: string where
  "RUST_LOG_ENV = ''RUST_LOG''"

record 'z pub_api =
  pb_socket :: "string + 'z"
  pb_set_sndhwm :: "int \<Rightarrow> 'z \<Rightarrow> string + 'z"
  pb_set_linger :: "int \<Rightarrow> 'z \<Rightarrow> string + 'z"
  pb_bind :: "string \<Rightarrow> 'z \<Rightarrow> string + 'z"

datatype start_effect =
    SetVar string string
  | CreatePub
  | SetSndhwm int
  | SetLinger int
  | BindPub string

datatype start_error =
    SrConfig path config_error
  | SrRuntime string
  | SrFilter config_error
  | SrCheckpoint checkpoint_error
  | SrPubSocket string
  | SrSndhwm string
  | SrLinger string
  | SrBind string string
  | SrDaemon daemon_error

record ('z, 'r, 'f) process_env =
  pe_cli_config :: "path option"
  pe_config_dir :: "path option"
  pe_vars :: "string \<rightharpoonup> string"
  pe_fs :: filesystem
  pe_toml :: "string \<Rightarrow> string + daemon_config"
  pe_runtime :: "string + unit"
  pe_filter_new :: "string \<Rightarrow> 'f"
  pe_filter_try_new :: "string \<Rightarrow> string + 'f"
  pe_decoders :: decoders
  pe_na :: "'r neuromod_api"
  pe_pub :: "'z pub_api"
  pe_sub :: "'z zmq_api"
  pe_decode :: "string \<Rightarrow> string + ipc_message"
  pe_batch_validate :: "stimulus_batch \<Rightarrow> string + unit"
  pe_encode :: "ipc_message \<Rightarrow> string + string"
  pe_poll_clock :: "nat \<Rightarrow> u64"
  pe_started_at :: instant
  pe_boot_clock :: "nat \<Rightarrow> instant"
  pe_tcp_bind :: "nat list \<times> nat \<Rightarrow> string + unit"
  pe_show_error :: "daemon_error \<Rightarrow> string"
  pe_events :: "loop_event list"

text \<open>A result with the effects so far; after an error nothing more is done.\<close>

type_synonym 'a effectful = "(start_error + 'a) \<times> start_effect list"

definition and_then :: "'a effectful \<Rightarrow> ('a \<Rightarrow> 'b effectful) \<Rightarrow> 'b effectful" where
  "and_then m f =
     (case m of
        (Inl e, es) \<Rightarrow> (Inl e, es)
      | (Inr x, es) \<Rightarrow> (case f x of (r, es') \<Rightarrow> (r, es @ es')))"

definition quietly :: "start_error + 'a \<Rightarrow> 'a effectful" where
  "quietly r = (r, [])"

section \<open>Start-up\<close>

definition default_config_path :: "path option \<Rightarrow> path" where
  "default_config_path config_dir =
     join (case config_dir of Some d \<Rightarrow> d | None \<Rightarrow> path_of ''.'') ''soma/daemon.toml''"

text \<open>The PUB socket: both limits are set before it is bound.\<close>

definition open_pub :: "'z pub_api \<Rightarrow> daemon_config \<Rightarrow> 'z effectful" where
  "open_pub pub cfg =
     and_then (map_err SrPubSocket (pb_socket pub), [CreatePub]) (\<lambda>k.
     and_then (map_err SrSndhwm (pb_set_sndhwm pub (dc_spine_pub_sndhwm cfg) k), [SetSndhwm (dc_spine_pub_sndhwm cfg)]) (\<lambda>k.
     and_then (map_err SrLinger (pb_set_linger pub (dc_spine_pub_linger_ms cfg) k), [SetLinger (dc_spine_pub_linger_ms cfg)]) (\<lambda>k.
       let endpoint = pub_endpoint (dc_spine_pub_bind_host cfg) (dc_spine_pub_port cfg)
       in (map_err (SrBind endpoint) (pb_bind pub endpoint k), [BindPub endpoint]))))"

definition zmq_pair :: "daemon_config \<Rightarrow> 'z \<Rightarrow> ('z zmq_source, 'z zmq_sink) backend_pair" where
  "zmq_pair cfg pub_socket =
     \<lparr> bp_source = zmq_with_channels (dc_channels cfg),
       bp_sink = zmq_sink_with_policy pub_socket (dc_spine_pub_send_empty_batches cfg) \<rparr>"

text \<open>\<open>run\<close> up to the point where the daemon takes over.\<close>

definition prepare ::
  "('z, 'r, 'f) process_env \<Rightarrow> daemon_config
     \<Rightarrow> (('z zmq_source, 'z zmq_sink) brainstem_daemon \<times> 'r spiking_network \<times> model_provenance) effectful" where
  "prepare pe cfg =
     and_then (quietly (map_err SrFilter
        (resolve_filter (pe_filter_new pe) (pe_filter_try_new pe) (dc_log_level cfg) (pe_vars pe RUST_LOG_ENV)))) (\<lambda>_.
     and_then (quietly (map_err SrCheckpoint (restore_network (pe_fs pe) (pe_decoders pe) (pe_na pe) cfg)))
        (\<lambda>(network, provenance).
     and_then (open_pub (pe_pub pe) cfg) (\<lambda>pub_socket.
     and_then (quietly (map_err SrDaemon (try_with_backend (pe_started_at pe) cfg (zmq_pair cfg pub_socket)))) (\<lambda>daemon.
       quietly (Inr (daemon, network, provenance))))))"

definition binary_run ::
  "('z, 'r, 'f) process_env \<Rightarrow> daemon_config
     \<Rightarrow> ((daemon_error + unit) \<times> control_task option \<times> ('z zmq_source, 'z zmq_sink) run_end) option effectful" where
  "binary_run pe cfg =
     and_then (prepare pe cfg) (\<lambda>(daemon, network, provenance).
       quietly (Inr (run_with_restored_network (pe_tcp_bind pe) (pe_fs pe) (pe_decoders pe) (pe_na pe)
         (zmq_source_ops (pe_sub pe) (pe_vars pe) (pe_decode pe) (pe_batch_validate pe) (pe_poll_clock pe))
         (zmq_sink_ops (pe_sub pe) (pe_encode pe)) (pe_show_error pe) (pe_boot_clock pe) (pe_events pe)
         network provenance daemon)))"

definition readout_of :: "daemon_config \<Rightarrow> string" where
  "readout_of cfg = ''tcp://127.0.0.1:'' @ show_nat (unat (dc_spine_sub_port cfg))"

definition binary_main ::
  "('z, 'r, 'f) process_env
     \<Rightarrow> ((daemon_error + unit) \<times> control_task option \<times> ('z zmq_source, 'z zmq_sink) run_end) option effectful" where
  "binary_main pe =
     (let config_path = (case pe_cli_config pe of Some p \<Rightarrow> p | None \<Rightarrow> default_config_path (pe_config_dir pe))
      in and_then (quietly (map_err (SrConfig config_path) (daemon_config_load (pe_fs pe) (pe_toml pe) config_path))) (\<lambda>cfg.
         let endpoint = readout_of cfg;
             pe = pe\<lparr>pe_vars := (pe_vars pe)(CORPUS_IPC_READOUT_ENV \<mapsto> endpoint, LEGACY_SPIKENAUT_READOUT_ENV \<mapsto> endpoint)\<rparr>
         in and_then (Inr (), [SetVar CORPUS_IPC_READOUT_ENV endpoint, SetVar LEGACY_SPIKENAUT_READOUT_ENV endpoint]) (\<lambda>_.
            and_then (quietly (map_err SrRuntime (pe_runtime pe))) (\<lambda>_.
              binary_run pe cfg))))"

section \<open>Properties\<close>

lemma and_then_simps [simp]:
  "and_then (Inl e, es) f = (Inl e, es)"
  "and_then (Inr x, es) f = (fst (f x), es @ snd (f x))"
  by (simp_all add: and_then_def split: prod.split)

lemma and_then_quietly [simp]:
  "and_then (quietly (Inl e)) f = (Inl e, [])" "and_then (quietly (Inr x)) f = f x"
  by (simp_all add: quietly_def)

lemma quietly_simps [simp]: "fst (quietly r) = r" "snd (quietly r) = []"
  by (simp_all add: quietly_def)

definition pub_effects :: "daemon_config \<Rightarrow> start_effect list" where
  "pub_effects cfg =
     [CreatePub, SetSndhwm (dc_spine_pub_sndhwm cfg), SetLinger (dc_spine_pub_linger_ms cfg),
      BindPub (pub_endpoint (dc_spine_pub_bind_host cfg) (dc_spine_pub_port cfg))]"

lemma open_pub_effects:
  "prefix (snd (open_pub pub cfg)) (pub_effects cfg)"
  "fst (open_pub pub cfg) = Inr k \<Longrightarrow> snd (open_pub pub cfg) = pub_effects cfg"
  by (auto simp: open_pub_def pub_effects_def map_err_def Let_def and_then_def split: sum.splits)

text \<open>The sidecar is not read twice: with a restored network the run does not look at the disk.\<close>

lemma restored_run_ignores_disk:
  "run_with_restored_network tcp fs de na so si show_err clk events network provenance d =
   run_with_restored_network tcp fs' de' na so si show_err clk events network provenance d"
proof -
  have "boot_network fs de na so show_err clk cfg (Some (network, provenance)) source h =
      boot_network fs' de' na so show_err clk cfg (Some (network, provenance)) source h" for cfg source h
  proof -
    have t: "take_restored_network fs de na cfg (Some (network, provenance)) =
        take_restored_network fs' de' na cfg (Some (network, provenance))"
      by (simp add: take_restored_network_def)
    show ?thesis by (simp only: boot_network_def t)
  qed
  then show ?thesis
    by (simp only: run_with_restored_network_def run_loop_def)
qed

definition sets_vars :: "daemon_config \<Rightarrow> start_effect list" where
  "sets_vars cfg =
     [SetVar CORPUS_IPC_READOUT_ENV (readout_of cfg), SetVar LEGACY_SPIKENAUT_READOUT_ENV (readout_of cfg)]"

lemma prepare_effects:
  fixes pe :: "('z, 'r, 'f) process_env"
  assumes "prepare pe cfg = (r, es)"
  shows "prefix es (pub_effects cfg) \<and>
    (es \<noteq> [] \<longrightarrow> (\<exists>pair. restore_network (pe_fs pe) (pe_decoders pe) (pe_na pe) cfg = Inr pair)) \<and>
    (\<forall>d network provenance. r = Inr (d, network, provenance) \<longrightarrow> es = pub_effects cfg \<and>
       restore_network (pe_fs pe) (pe_decoders pe) (pe_na pe) cfg = Inr (network, provenance) \<and>
       zs_channels (bp_source (bd_backend d)) = dc_channels cfg)"
proof -
  have ch: "try_with_backend t cfg (zmq_pair cfg (k :: 'z)) = Inr d \<Longrightarrow> zs_channels (bp_source (bd_backend d)) = dc_channels cfg"
    for t k d
    using try_with_backend_inv(3) [of t cfg "zmq_pair cfg k" d] by (simp add: zmq_pair_def zmq_with_channels_def)
  show ?thesis
    using assms open_pub_effects [of "pe_pub pe" cfg]
    by (auto simp: prepare_def map_err_def quietly_def and_then_def split: sum.splits prod.splits dest!: ch)
qed

lemma binary_run_restored:
  assumes "binary_run (pe\<lparr>pe_vars := v\<rparr>) cfg = (Inr out, pes)"
  shows "pes = pub_effects cfg \<and> (\<exists>d network provenance api sink.
     restore_network (pe_fs pe) (pe_decoders pe) (pe_na pe) cfg = Inr (network, provenance) \<and>
     (\<forall>fs de. out = run_with_restored_network (pe_tcp_bind pe) fs de (pe_na pe)
        (zmq_source_ops api v (pe_decode pe) (pe_batch_validate pe) (pe_poll_clock pe)) sink
        (pe_show_error pe) (pe_boot_clock pe) (pe_events pe) network provenance d))"
proof -
  obtain pr pes' where p: "prepare (pe\<lparr>pe_vars := v\<rparr>) cfg = (pr, pes')" by fastforce
  note eff = prepare_effects [OF p]
  obtain d network provenance where pr: "pr = Inr (d, network, provenance)"
    using assms by (cases pr) (auto simp: binary_run_def p)
  have out: "out = run_with_restored_network (pe_tcp_bind pe) (pe_fs pe) (pe_decoders pe) (pe_na pe)
      (zmq_source_ops (pe_sub pe) v (pe_decode pe) (pe_batch_validate pe) (pe_poll_clock pe))
      (zmq_sink_ops (pe_sub pe) (pe_encode pe)) (pe_show_error pe) (pe_boot_clock pe) (pe_events pe)
      network provenance d" and pes: "pes = pes'"
    using assms by (auto simp: binary_run_def p pr)
  have e: "pes' = pub_effects cfg"
    "restore_network (pe_fs pe) (pe_decoders pe) (pe_na pe) cfg = Inr (network, provenance)"
    using eff pr by auto
  show ?thesis unfolding pes
    by (intro conjI exI allI, rule e(1), rule e(2), unfold out, rule restored_run_ignores_disk)
qed

text \<open>
  C24: The binary fails closed before it opens a socket: what it does to the outside is always a
  prefix of setting the two readout variables and then creating the PUB socket, bounding its
  send queue and its linger time and only then binding it to the configured endpoint; nothing
  happens before the configuration was loaded and validated, the PUB socket is not even created
  unless the model was restored, and the daemon that runs has every one of these steps behind
  it and is handed exactly the restored network, which the run does not read from disk again.
\<close>

theorem binary_fails_closed:
  assumes "binary_main pe = (r, es)"
  shows "(es \<noteq> [] \<longrightarrow>
           (\<exists>path cfg. daemon_config_load (pe_fs pe) (pe_toml pe) path = Inr cfg \<and>
              daemon_config_validate cfg = Inr () \<and> prefix es (sets_vars cfg @ pub_effects cfg) \<and>
              (CreatePub \<in> set es \<longrightarrow>
                 (\<exists>pair. restore_network (pe_fs pe) (pe_decoders pe) (pe_na pe) cfg = Inr pair)))) \<and>
         (\<forall>out. r = Inr out \<longrightarrow>
           (\<exists>path cfg d network provenance api sink vars.
              daemon_config_load (pe_fs pe) (pe_toml pe) path = Inr cfg \<and>
              restore_network (pe_fs pe) (pe_decoders pe) (pe_na pe) cfg = Inr (network, provenance) \<and>
              es = sets_vars cfg @ pub_effects cfg \<and>
              vars CORPUS_IPC_READOUT_ENV = Some (readout_of cfg) \<and>
              (\<forall>fs de. out = run_with_restored_network (pe_tcp_bind pe) fs de (pe_na pe)
                 (zmq_source_ops api vars (pe_decode pe) (pe_batch_validate pe) (pe_poll_clock pe)) sink
                 (pe_show_error pe) (pe_boot_clock pe) (pe_events pe) network provenance d)))"
proof -
  define path where "path = (case pe_cli_config pe of Some p \<Rightarrow> p | None \<Rightarrow> default_config_path (pe_config_dir pe))"
  show ?thesis
  proof (cases "daemon_config_load (pe_fs pe) (pe_toml pe) path")
    case (Inl e)
    with assms show ?thesis by (auto simp: binary_main_def path_def [symmetric] Let_def)
  next
    case cfg: (Inr cfg)
    then have valid: "daemon_config_validate cfg = Inr ()"
      by (auto simp: daemon_config_load_def bind_res_Inr split: if_splits)
    let ?vars = "(pe_vars pe)(CORPUS_IPC_READOUT_ENV \<mapsto> readout_of cfg, LEGACY_SPIKENAUT_READOUT_ENV \<mapsto> readout_of cfg)"
    let ?pe = "pe\<lparr>pe_vars := ?vars\<rparr>"
    have var: "?vars CORPUS_IPC_READOUT_ENV = Some (readout_of cfg)"
      by (simp add: CORPUS_IPC_READOUT_ENV_def LEGACY_SPIKENAUT_READOUT_ENV_def)
    have main: "binary_main pe = (case pe_runtime pe of Inl e \<Rightarrow> (Inl (SrRuntime e), sets_vars cfg)
        | Inr _ \<Rightarrow> (fst (binary_run ?pe cfg), sets_vars cfg @ snd (binary_run ?pe cfg)))"
      using cfg by (simp add: binary_main_def path_def [symmetric] Let_def sets_vars_def split: sum.split)
    have sv: "prefix (sets_vars cfg) (sets_vars cfg @ x)" "CreatePub \<notin> set (sets_vars cfg)" for x
      by (simp_all add: sets_vars_def)
    show ?thesis
    proof (cases "pe_runtime pe")
      case (Inl e)
      with main assms have "es = sets_vars cfg" "\<And>out. r \<noteq> Inr out" by simp_all
      with sv cfg valid show ?thesis by blast
    next
      case (Inr u)
      obtain pr pes where p: "prepare ?pe cfg = (pr, pes)" by fastforce
      note eff = prepare_effects [OF p]
      have es: "snd (binary_run ?pe cfg) = pes" by (cases pr) (auto simp: binary_run_def p)
      then have es': "es = sets_vars cfg @ pes" using main Inr assms by auto
      have pre: "prefix es (sets_vars cfg @ pub_effects cfg)" using eff es' by simp
      have restored: "CreatePub \<in> set es \<longrightarrow>
          (\<exists>pair. restore_network (pe_fs pe) (pe_decoders pe) (pe_na pe) cfg = Inr pair)"
        using eff es' sv(2) by auto
      have "\<exists>d network provenance api sink.
          restore_network (pe_fs pe) (pe_decoders pe) (pe_na pe) cfg = Inr (network, provenance) \<and>
          es = sets_vars cfg @ pub_effects cfg \<and>
          (\<forall>fs de. out = run_with_restored_network (pe_tcp_bind pe) fs de (pe_na pe)
             (zmq_source_ops api ?vars (pe_decode pe) (pe_batch_validate pe) (pe_poll_clock pe)) sink
             (pe_show_error pe) (pe_boot_clock pe) (pe_events pe) network provenance d)" if "r = Inr out" for out
        using binary_run_restored [where pe = pe and v = ?vars and cfg = cfg and out = out and pes = pes] that main Inr assms es es' by (auto simp: prod_eq_iff)
      with pre restored cfg valid var show ?thesis by blast
    qed
  qed
qed

definition demo_pub :: "recv_result list pub_api" where
  "demo_pub = \<lparr> pb_socket = Inr [], pb_set_sndhwm = (\<lambda>_. Inr), pb_set_linger = (\<lambda>_. Inr), pb_bind = (\<lambda>_. Inr) \<rparr>"

definition demo_process :: "(recv_result list, unit, string) process_env" where
  "demo_process =
     \<lparr> pe_cli_config = Some [Normal ''c.toml''], pe_config_dir = None, pe_vars = (\<lambda>_. None), pe_fs = demo_fs,
       pe_toml = (\<lambda>_. Inr demo_cfg), pe_runtime = Inr (), pe_filter_new = (\<lambda>l. l), pe_filter_try_new = Inr,
       pe_decoders = demo_de, pe_na = demo_na, pe_pub = demo_pub, pe_sub = list_api, pe_decode = (\<lambda>_. Inl []),
       pe_batch_validate = (\<lambda>_. Inr ()), pe_encode = (\<lambda>_. Inr []), pe_poll_clock = (\<lambda>_. 0), pe_started_at = 0,
       pe_boot_clock = (\<lambda>_. 0), pe_tcp_bind = (\<lambda>_. Inr ()), pe_show_error = demo_show,
       pe_events = [LeTick demo_env, LeSignal 9] \<rparr>"

lemma demo_config_load: "daemon_config_load demo_fs (\<lambda>_. Inr demo_cfg) [Normal ''c.toml''] = Inr demo_cfg"
  using demo_cfg_valid
  by (simp add: daemon_config_load_def is_absolute_def read_to_string_def demo_fs_def in_range_def)

lemma demo_prepares: "\<exists>x. fst (prepare (demo_process\<lparr>pe_vars := v\<rparr>) demo_cfg) = Inr x"
proof -
  obtain net prov where r: "restore_network demo_fs demo_de demo_na demo_cfg = Inr (net, prov)"
    using demo_restore [of "Fin False (1 / 2)"] f32_half by (auto simp: f_zero_def f_one_def)
  have d: "\<exists>d. try_with_backend 0 demo_cfg b = Inr d" for b :: "(recv_result list zmq_source, recv_result list zmq_sink) backend_pair"
    using demo_cfg_valid by (simp add: try_with_backend_def ingress_new_def validate_defaults Let_def)
  have "validate_log_level (dc_log_level demo_cfg) = Inr ()"
    using demo_cfg_valid by (simp add: daemon_config_validate_def bind_unit)
  then obtain x where "resolve_filter (\<lambda>l. l) Inr (dc_log_level demo_cfg) (v RUST_LOG_ENV) = Inr x"
    by (cases "v RUST_LOG_ENV") (simp_all add: resolve_filter_def)
  moreover obtain dm where "try_with_backend 0 demo_cfg (zmq_pair demo_cfg ([] :: recv_result list)) = Inr dm" using d by blast
  ultimately show ?thesis
    using r by (simp add: prepare_def demo_process_def open_pub_def demo_pub_def Let_def)
qed

lemma demo_fields: "pe_fs demo_process = demo_fs" "pe_toml demo_process = (\<lambda>_. Inr demo_cfg)"
  by (simp_all add: demo_process_def)

theorem binary_fails_closed_witness:
  "snd (binary_main demo_process) = sets_vars demo_cfg @ pub_effects demo_cfg"
proof -
  obtain r es where b: "binary_main demo_process = (r, es)" by fastforce
  define v where "v = (\<lambda>_. None)(CORPUS_IPC_READOUT_ENV \<mapsto> readout_of demo_cfg, LEGACY_SPIKENAUT_READOUT_ENV \<mapsto> readout_of demo_cfg)"
  obtain x where p: "fst (prepare (demo_process\<lparr>pe_vars := v\<rparr>) demo_cfg) = Inr x" using demo_prepares by blast
  then obtain ps where p: "prepare (demo_process\<lparr>pe_vars := v\<rparr>) demo_cfg = (Inr x, ps)" by (metis prod.collapse)
  have "\<exists>out. fst (binary_run (demo_process\<lparr>pe_vars := v\<rparr>) demo_cfg) = Inr out"
    by (cases x) (simp add: binary_run_def p)
  then have "\<exists>out. r = Inr out"
    using b demo_config_load by (auto simp: binary_main_def demo_process_def v_def Let_def)
  then obtain path cfg where c: "daemon_config_load demo_fs (\<lambda>_. Inr demo_cfg) path = Inr cfg"
    "es = sets_vars cfg @ pub_effects cfg"
    using binary_fails_closed [OF b] \<open>\<exists>out. r = Inr out\<close> unfolding demo_fields by blast
  then have "cfg = demo_cfg" by (auto simp: daemon_config_load_def bind_res_Inr split: if_splits)
  with b c(2) show ?thesis by simp
qed

end
