(* ===== verification/Durable.thy ===== *)
theory Durable
  imports Floats Prelude
begin

text \<open>
  \<open>src/runtime\<close> without the harness: the fault points and the oracle of \<open>mod.rs\<close>, the clock,
  the one-shot injector, the durable state with its store, and the fake core and source. The
  JSON of \<open>serde_json\<close> is a parameter, a pair of functions; \<open>codec_ok\<close> is what the derived
  \<open>Serialize\<close> and \<open>Deserialize\<close> promise.
\<close>

section \<open>Fault points and health\<close>

datatype boundary = Initialize | CheckpointValidation | IngressB | TickExecute | MetricPublish | Shutdown

datatype fault_point =
    Before boundary
  | After boundary
  | MalformedCheckpoint
  | CoreStepError
  | ClosedChannel
  | BackpressureTimeout
  | InterruptedShutdown

definition fault_point_all :: "fault_point list" where
  "fault_point_all =
     [Before Initialize, After Initialize, Before CheckpointValidation, After CheckpointValidation,
      Before IngressB, After IngressB, Before TickExecute, After TickExecute,
      Before MetricPublish, After MetricPublish, Before Shutdown, After Shutdown,
      MalformedCheckpoint, CoreStepError, ClosedChannel, BackpressureTimeout, InterruptedShutdown]"

datatype rt_health =
    RtStarting | RtLive | RtCheckpointInvalid | RtDegraded | RtFaulted | RtShuttingDown | RtStopped
  | RtIncompleteShutdown

datatype restart_outcome = FreshStart | RecoveredClean | RecoveredIncomplete | RejectedInvalid

record sequenced_ingress =
  si_seq :: u64
  si_stimuli :: "f32 list"

record expected =
  ex_terminal_health :: rt_health
  ex_restart :: restart_outcome
  ex_published_before_crash :: u64
  ex_live_loop_entered :: bool

definition ingress_degraded :: expected where
  "ingress_degraded =
     \<lparr> ex_terminal_health = RtDegraded, ex_restart = RecoveredClean, ex_published_before_crash = 0,
       ex_live_loop_entered = True \<rparr>"

definition incomplete_tick :: "rt_health \<Rightarrow> expected" where
  "incomplete_tick terminal_health =
     \<lparr> ex_terminal_health = terminal_health, ex_restart = RecoveredIncomplete,
       ex_published_before_crash = 0, ex_live_loop_entered = True \<rparr>"

definition shutdown_incomplete :: expected where
  "shutdown_incomplete =
     \<lparr> ex_terminal_health = RtIncompleteShutdown, ex_restart = RecoveredClean,
       ex_published_before_crash = 1, ex_live_loop_entered = True \<rparr>"

fun before_boundary :: "boundary \<Rightarrow> expected" where
  "before_boundary IngressB = ingress_degraded"
| "before_boundary TickExecute =
     \<lparr> ex_terminal_health = RtFaulted, ex_restart = RecoveredClean, ex_published_before_crash = 0,
       ex_live_loop_entered = True \<rparr>"
| "before_boundary MetricPublish = incomplete_tick RtDegraded"
| "before_boundary Shutdown = shutdown_incomplete"
| "before_boundary _ =
     \<lparr> ex_terminal_health = RtFaulted, ex_restart = FreshStart, ex_published_before_crash = 0,
       ex_live_loop_entered = False \<rparr>"

fun after_boundary :: "boundary \<Rightarrow> expected" where
  "after_boundary Initialize =
     \<lparr> ex_terminal_health = RtFaulted, ex_restart = FreshStart, ex_published_before_crash = 0,
       ex_live_loop_entered = False \<rparr>"
| "after_boundary CheckpointValidation =
     \<lparr> ex_terminal_health = RtFaulted, ex_restart = RecoveredClean, ex_published_before_crash = 0,
       ex_live_loop_entered = False \<rparr>"
| "after_boundary IngressB = ingress_degraded"
| "after_boundary TickExecute = incomplete_tick RtFaulted"
| "after_boundary _ =
     \<lparr> ex_terminal_health = RtFaulted, ex_restart = RecoveredClean, ex_published_before_crash = 1,
       ex_live_loop_entered = True \<rparr>"

fun expected_outcome :: "fault_point \<Rightarrow> expected" where
  "expected_outcome (Before b) = before_boundary b"
| "expected_outcome (After b) = after_boundary b"
| "expected_outcome MalformedCheckpoint =
     \<lparr> ex_terminal_health = RtCheckpointInvalid, ex_restart = RejectedInvalid,
       ex_published_before_crash = 0, ex_live_loop_entered = False \<rparr>"
| "expected_outcome CoreStepError = incomplete_tick RtFaulted"
| "expected_outcome ClosedChannel = ingress_degraded"
| "expected_outcome BackpressureTimeout = incomplete_tick RtDegraded"
| "expected_outcome InterruptedShutdown = shutdown_incomplete"

section \<open>Clock\<close>

definition BACKPRESSURE_BUDGET_NS :: u64 where "BACKPRESSURE_BUDGET_NS = 10000000"
definition TICK_PERIOD_NS :: u64 where "TICK_PERIOD_NS = 1000000"

record harness_clock =
  fc_now_ns :: u64

definition harness_clock_new :: "u64 \<Rightarrow> harness_clock" where
  "harness_clock_new now_ns = \<lparr> fc_now_ns = now_ns \<rparr>"

definition harness_clock_advance :: "u64 \<Rightarrow> harness_clock \<Rightarrow> harness_clock" where
  "harness_clock_advance ns c = c\<lparr>fc_now_ns := sat_add (fc_now_ns c) ns\<rparr>"

section \<open>Fault injector\<close>

datatype runtime_error =
    ReInjected fault_point
  | ReUnsupportedSchema u32
  | ReInvalidCheckpointId string
  | ReSessionZero
  | ReCommittedOverflow
  | ReInflightTick u64 u64
  | ReInflightSession u64 u64
  | ReInflightIngress u64 u64
  | ReMissingMagic
  | ReSerialize string
  | ReMalformedJson string
  | ReMalformedCheckpoint
  | ReTickOverflow
  | ReSessionOverflow
  | ReNotStarted
  | ReStepLimit
  | ReCoreStep
  | ReBackpressure
  | ReClosedPublish
  | ReInterruptedShutdown
  | ReClosedChannel

record fault_injector =
  fi_armed :: "fault_point option"

definition injector_none :: fault_injector where
  "injector_none = \<lparr> fi_armed = None \<rparr>"

definition injector_arm :: "fault_point \<Rightarrow> fault_injector" where
  "injector_arm point = \<lparr> fi_armed = Some point \<rparr>"

definition injector_set :: "fault_point \<Rightarrow> fault_injector \<Rightarrow> fault_injector" where
  "injector_set point i = i\<lparr>fi_armed := Some point\<rparr>"

definition injector_fire :: "fault_point \<Rightarrow> fault_injector \<Rightarrow> (runtime_error + unit) \<times> fault_injector" where
  "injector_fire point i =
     (if fi_armed i = Some point then (Inl (ReInjected point), i\<lparr>fi_armed := None\<rparr>) else (Inr (), i))"

definition injector_take :: "fault_point \<Rightarrow> fault_injector \<Rightarrow> bool \<times> fault_injector" where
  "injector_take point i =
     (if fi_armed i = Some point then (True, i\<lparr>fi_armed := None\<rparr>) else (False, i))"

fun injected_terminal_health :: "fault_point \<Rightarrow> rt_health" where
  "injected_terminal_health (Before IngressB) = RtDegraded"
| "injected_terminal_health (After IngressB) = RtDegraded"
| "injected_terminal_health ClosedChannel = RtDegraded"
| "injected_terminal_health (Before MetricPublish) = RtDegraded"
| "injected_terminal_health BackpressureTimeout = RtDegraded"
| "injected_terminal_health (Before Shutdown) = RtIncompleteShutdown"
| "injected_terminal_health InterruptedShutdown = RtIncompleteShutdown"
| "injected_terminal_health MalformedCheckpoint = RtCheckpointInvalid"
| "injected_terminal_health _ = RtFaulted"

section \<open>Durable state\<close>

definition DURABLE_SCHEMA_VERSION :: u32 where "DURABLE_SCHEMA_VERSION = 1"
definition FAKE_CHECKPOINT_ID :: string where "FAKE_CHECKPOINT_ID = ''fake-core-v1''"
definition MAGIC :: string where "MAGIC = ''BSDK1'' @ [CHR 0x0A]"

record inflight_record =
  ir_session_id :: u64
  ir_tick_seq :: u64
  ir_ingress_seq :: u64

record durable_state =
  ds_schema_version :: u32
  ds_checkpoint_id :: string
  ds_last_session_id :: u64
  ds_committed_tick_seq :: u64
  ds_committed_ingress_seq :: u64
  ds_inflight :: "inflight_record option"

definition durable_fresh :: durable_state where
  "durable_fresh =
     \<lparr> ds_schema_version = DURABLE_SCHEMA_VERSION, ds_checkpoint_id = FAKE_CHECKPOINT_ID,
       ds_last_session_id = 0, ds_committed_tick_seq = 0, ds_committed_ingress_seq = 0,
       ds_inflight = None \<rparr>"

text \<open>\<open>char::is_control\<close> on UTF-8 bytes: U+0000 to U+001F and U+007F to U+009F.\<close>

fun has_control :: "string \<Rightarrow> bool" where
  "has_control [] = False"
| "has_control (c # s) =
     ((of_char c :: nat) < 0x20 \<or> of_char c = (0x7F :: nat) \<or>
      (of_char c = (0xC2 :: nat) \<and> (case s of d # _ \<Rightarrow> (of_char d :: nat) < 0xA0 | [] \<Rightarrow> False)) \<or>
      has_control s)"

definition validate_identity :: "durable_state \<Rightarrow> runtime_error + unit" where
  "validate_identity d =
     bind_res (ensure (ds_schema_version d = DURABLE_SCHEMA_VERSION)
                 (ReUnsupportedSchema (ds_schema_version d))) (\<lambda>_.
     if ds_checkpoint_id d = [] \<or> has_control (ds_checkpoint_id d) \<or> ds_checkpoint_id d \<noteq> FAKE_CHECKPOINT_ID
     then Inl (ReInvalidCheckpointId (ds_checkpoint_id d)) else Inr ())"

definition validate_session :: "durable_state \<Rightarrow> runtime_error + unit" where
  "validate_session d =
     (if ds_last_session_id d = 0 \<and>
         (ds_committed_tick_seq d \<noteq> 0 \<or> ds_committed_ingress_seq d \<noteq> 0 \<or> ds_inflight d \<noteq> None)
      then Inl ReSessionZero else Inr ())"

definition validate_inflight :: "durable_state \<Rightarrow> runtime_error + unit" where
  "validate_inflight d =
     (case ds_inflight d of
        None \<Rightarrow> Inr ()
      | Some fl \<Rightarrow>
          (case checked_add64 (ds_committed_tick_seq d) 1 of
             None \<Rightarrow> Inl ReCommittedOverflow
           | Some nxt \<Rightarrow>
               bind_res (ensure (ir_tick_seq fl = nxt)
                           (ReInflightTick (ir_tick_seq fl) (ds_committed_tick_seq d))) (\<lambda>_.
               bind_res (ensure (ir_session_id fl = ds_last_session_id d)
                           (ReInflightSession (ir_session_id fl) (ds_last_session_id d))) (\<lambda>_.
               if ir_ingress_seq fl \<le> ds_committed_ingress_seq d
               then Inl (ReInflightIngress (ir_ingress_seq fl) (ds_committed_ingress_seq d))
               else Inr ()))))"

definition durable_validate :: "durable_state \<Rightarrow> runtime_error + unit" where
  "durable_validate d =
     bind_res (validate_identity d) (\<lambda>_. bind_res (validate_session d) (\<lambda>_. validate_inflight d))"

section \<open>The store\<close>

record durable_codec =
  co_to_vec :: "durable_state \<Rightarrow> string + string"
  co_from_slice :: "string \<Rightarrow> string + durable_state"

record durable_store =
  du_blob :: "string option"

definition store_empty :: durable_store where
  "store_empty = \<lparr> du_blob = None \<rparr>"

definition store_malformed :: "string \<Rightarrow> durable_store" where
  "store_malformed bytes = \<lparr> du_blob = Some bytes \<rparr>"

definition durable_encode :: "durable_codec \<Rightarrow> durable_state \<Rightarrow> runtime_error + string" where
  "durable_encode co d = bind_res (map_err ReSerialize (co_to_vec co d)) (\<lambda>json. Inr (MAGIC @ json))"

definition durable_decode :: "durable_codec \<Rightarrow> string \<Rightarrow> runtime_error + durable_state" where
  "durable_decode co bytes =
     (case strip_prefix MAGIC bytes of
        None \<Rightarrow> Inl ReMissingMagic
      | Some json \<Rightarrow>
          bind_res (map_err ReMalformedJson (co_from_slice co json)) (\<lambda>d.
          bind_res (durable_validate d) (\<lambda>_. Inr d)))"

definition store_load :: "durable_codec \<Rightarrow> durable_store \<Rightarrow> runtime_error + durable_state option" where
  "store_load co st =
     (case du_blob st of
        None \<Rightarrow> Inr None
      | Some bytes \<Rightarrow> bind_res (durable_decode co bytes) (\<lambda>d. Inr (Some d)))"

definition store_persist ::
  "durable_codec \<Rightarrow> durable_state \<Rightarrow> durable_store \<Rightarrow> (runtime_error + unit) \<times> durable_store" where
  "store_persist co d st =
     (case bind_res (durable_validate d) (\<lambda>_. durable_encode co d) of
        Inl e \<Rightarrow> (Inl e, st)
      | Inr bytes \<Rightarrow> (Inr (), st\<lparr>du_blob := Some bytes\<rparr>))"

definition store_from_state :: "durable_codec \<Rightarrow> durable_state \<Rightarrow> runtime_error + durable_store" where
  "store_from_state co d =
     bind_res (durable_validate d) (\<lambda>_.
     case store_persist co d store_empty of
       (Inl e, st) \<Rightarrow> Inl e
     | (Inr _, st) \<Rightarrow> Inr st)"

section \<open>Fake core and source\<close>

record fake_core =
  fk_steps :: u64
  fk_last_stimuli :: "f32 list option"

definition fake_core_default :: fake_core where
  "fake_core_default = \<lparr> fk_steps = 0, fk_last_stimuli = None \<rparr>"

definition fake_core_step :: "f32 list \<Rightarrow> fake_core \<Rightarrow> (runtime_error + u16 list) \<times> fake_core" where
  "fake_core_step stimuli c =
     (Inr (map (\<lambda>(i, s). of_nat i)
             (filter (\<lambda>(i, s). i < 65536)
               (filter (\<lambda>(i, s). f_lt (f32_lit (1 / 2)) s) (zip [0..<length stimuli] stimuli)))),
      c\<lparr>fk_steps := fk_steps c + 1, fk_last_stimuli := Some stimuli\<rparr>)"

record scripted_source =
  ss_packets :: "sequenced_ingress list"

definition source_new :: "sequenced_ingress list \<Rightarrow> scripted_source" where
  "source_new ps = \<lparr> ss_packets = ps \<rparr>"

definition source_push :: "sequenced_ingress \<Rightarrow> scripted_source \<Rightarrow> scripted_source" where
  "source_push p s = s\<lparr>ss_packets := ss_packets s @ [p]\<rparr>"

definition source_push_front :: "sequenced_ingress \<Rightarrow> scripted_source \<Rightarrow> scripted_source" where
  "source_push_front p s = s\<lparr>ss_packets := p # ss_packets s\<rparr>"

definition source_next :: "scripted_source \<Rightarrow> sequenced_ingress option \<times> scripted_source" where
  "source_next s =
     (case ss_packets s of [] \<Rightarrow> (None, s) | p # ps \<Rightarrow> (Some p, s\<lparr>ss_packets := ps\<rparr>))"

record committed_output =
  ou_session_id :: u64
  ou_tick_seq :: u64
  ou_ingress_seq :: u64
  ou_spike_ids :: "u16 list"
  ou_time_ns :: u64

record metric_event =
  me_session_id :: u64
  me_tick_seq :: u64
  me_ingress_seq :: u64

datatype tick_result = TrCommitted | TrSkippedReplay | TrNoIngress

definition stimuli_for :: "u64 \<Rightarrow> u64 \<Rightarrow> f32 list" where
  "stimuli_for seed sq =
     (let v = f32_div (u64_as_f32 ((seed + sq * 17) mod 10)) (f32_lit 10) in [v, f32_sub (f32_lit 1) v])"

definition packets_for_seed :: "u64 \<Rightarrow> sequenced_ingress list" where
  "packets_for_seed seed =
     map (\<lambda>sq. \<lparr> si_seq = sq, si_stimuli = stimuli_for seed sq \<rparr>) [1, 2, 3, 4, 5, 6, 7, 8]"

section \<open>Validity and the round trip\<close>

definition durable_valid :: "durable_state \<Rightarrow> bool" where
  "durable_valid d \<longleftrightarrow>
     ds_schema_version d = DURABLE_SCHEMA_VERSION \<and> ds_checkpoint_id d = FAKE_CHECKPOINT_ID \<and>
     (ds_last_session_id d = 0 \<longrightarrow>
        ds_committed_tick_seq d = 0 \<and> ds_committed_ingress_seq d = 0 \<and> ds_inflight d = None) \<and>
     (\<forall>fl. ds_inflight d = Some fl \<longrightarrow>
        ds_committed_tick_seq d \<noteq> u64_max \<and> ir_tick_seq fl = ds_committed_tick_seq d + 1 \<and>
        ir_session_id fl = ds_last_session_id d \<and> ds_committed_ingress_seq d < ir_ingress_seq fl)"

lemma checkpoint_id_ok: "\<not> has_control FAKE_CHECKPOINT_ID" "[] \<noteq> FAKE_CHECKPOINT_ID" "FAKE_CHECKPOINT_ID \<noteq> []"
  by (simp_all add: FAKE_CHECKPOINT_ID_def)

lemma durable_validate_ok [simp]: "durable_validate d = Inr () \<longleftrightarrow> durable_valid d"
  by (cases "ds_inflight d")
    (auto simp: durable_validate_def bind_unit validate_identity_def validate_session_def validate_inflight_def
      durable_valid_def checkpoint_id_ok checked_add64_one not_le)

definition codec_ok :: "durable_codec \<Rightarrow> bool" where
  "codec_ok co \<longleftrightarrow> (\<forall>d. durable_valid d \<longrightarrow> (\<exists>json. co_to_vec co d = Inr json \<and> co_from_slice co json = Inr d))"

lemma durable_decode_valid: "durable_decode co bytes = Inr d \<Longrightarrow> durable_valid d"
  by (auto simp: durable_decode_def bind_res_Inr split: option.splits)

lemma decode_encode:
  "codec_ok co \<Longrightarrow> durable_valid d \<Longrightarrow> \<exists>bytes. durable_encode co d = Inr bytes \<and> durable_decode co bytes = Inr d"
  by (auto simp: codec_ok_def durable_encode_def durable_decode_def strip_prefix_Some bind_res_Inr
      split: option.split)

text \<open>What a store holds, and how \<open>persist\<close> and \<open>load\<close> act on it.\<close>

definition store_holds :: "durable_codec \<Rightarrow> durable_store \<Rightarrow> durable_state \<Rightarrow> bool" where
  "store_holds co st d \<longleftrightarrow> store_load co st = Inr (Some d)"

lemma store_persist_valid:
  assumes "codec_ok co" "durable_valid d"
  shows "\<exists>st'. store_persist co d st = (Inr (), st') \<and> store_holds co st' d"
  using decode_encode [OF assms] durable_validate_ok [of d] assms(2)
  by (auto simp: store_persist_def store_holds_def store_load_def simp del: durable_validate_ok)

lemma store_load_valid: "store_load co st = Inr (Some d) \<Longrightarrow> durable_valid d"
  by (auto simp: store_load_def bind_res_Inr split: option.splits dest: durable_decode_valid)

lemma store_empty_load [simp]: "store_load co store_empty = Inr None"
  by (simp add: store_load_def store_empty_def)

text \<open>A persisted state as an equation, for evaluation.\<close>

definition persisted :: "durable_codec \<Rightarrow> durable_state \<Rightarrow> durable_store" where
  "persisted co d = snd (store_persist co d store_empty)"

lemma store_persist_eq:
  assumes "codec_ok co" "durable_valid d"
  shows "store_persist co d st = (Inr (), persisted co d)" "store_load co (persisted co d) = Inr (Some d)"
proof -
  obtain b where b: "durable_encode co d = Inr b" "durable_decode co b = Inr d"
    using decode_encode [OF assms] by blast
  have p: "store_persist co d st = (Inr (), \<lparr> du_blob = Some b \<rparr>)" for st
    using durable_validate_ok [of d] assms(2) b by (simp add: store_persist_def del: durable_validate_ok)
  show "store_persist co d st = (Inr (), persisted co d)" "store_load co (persisted co d) = Inr (Some d)"
    using b by (simp_all add: p persisted_def store_load_def)
qed

text \<open>
  C37: The durable store: a state that passes validation is what a later load returns, one that
  does not is refused with the store left as it was, and whatever bytes a store holds, a load
  never returns a state that fails validation.
\<close>

theorem store_roundtrip:
  assumes "codec_ok co"
  shows "(durable_validate d = Inr () \<longrightarrow>
            (\<exists>st'. store_persist co d st = (Inr (), st') \<and> store_load co st' = Inr (Some d))) \<and>
         (\<forall>e. durable_validate d = Inl e \<longrightarrow> store_persist co d st = (Inl e, st)) \<and>
         (\<forall>d'. store_load co st = Inr (Some d') \<longrightarrow> durable_validate d' = Inr ())"
  using store_persist_valid [OF assms, of d st] store_load_valid [of co st]
  by (auto simp: store_persist_def store_holds_def)

section \<open>A concrete codec\<close>

text \<open>Comma-separated decimal fields, the checkpoint identity of every valid state left out.\<close>

definition comma :: char where "comma = CHR '',''"

fun fields :: "nat \<Rightarrow> string \<Rightarrow> nat list" where
  "fields 0 s = []"
| "fields (Suc n) s =
     read_nat (takeWhile (\<lambda>c. c \<noteq> comma) s) # fields n (drop 1 (dropWhile (\<lambda>c. c \<noteq> comma) s))"

definition show_fields :: "nat list \<Rightarrow> string" where
  "show_fields ns = concat (map (\<lambda>n. show_nat n @ [comma]) ns)"

lemma show_nat_no_comma: "c \<in> set (show_nat n) \<Longrightarrow> c \<noteq> comma"
proof (induction n rule: show_nat.induct)
  case (1 n)
  have "digit_char d \<noteq> comma" if "d < 10" for d
    using of_char_digit_char [OF that] by (auto simp: comma_def)
  from this [of n] this [of "n mod 10"] 1 show ?case
    by (subst (asm) show_nat.simps) (auto split: if_splits)
qed

lemma fields_show [simp]: "fields (length ns) (show_fields ns @ s) = ns"
proof (induction ns)
  case (Cons n ns)
  have "takeWhile (\<lambda>c. c \<noteq> comma) (show_nat n @ comma # x) = show_nat n"
    "dropWhile (\<lambda>c. c \<noteq> comma) (show_nat n @ comma # x) = comma # x" for x
    using show_nat_no_comma by (simp_all add: takeWhile_append dropWhile_append)
  with Cons show ?case by (simp add: show_fields_def)
qed simp

definition demo_codec :: durable_codec where
  "demo_codec =
     \<lparr> co_to_vec = (\<lambda>d. Inr (show_fields
          ([unat (ds_schema_version d), unat (ds_last_session_id d), unat (ds_committed_tick_seq d),
            unat (ds_committed_ingress_seq d)] @
           (case ds_inflight d of None \<Rightarrow> [0, 0, 0, 0]
            | Some fl \<Rightarrow> [1, unat (ir_session_id fl), unat (ir_tick_seq fl), unat (ir_ingress_seq fl)])))),
       co_from_slice = (\<lambda>s. let ns = fields 8 s in
          Inr \<lparr> ds_schema_version = of_nat (ns ! 0), ds_checkpoint_id = FAKE_CHECKPOINT_ID,
            ds_last_session_id = of_nat (ns ! 1), ds_committed_tick_seq = of_nat (ns ! 2),
            ds_committed_ingress_seq = of_nat (ns ! 3),
            ds_inflight = (if ns ! 4 = 0 then None
              else Some \<lparr> ir_session_id = of_nat (ns ! 5), ir_tick_seq = of_nat (ns ! 6),
                          ir_ingress_seq = of_nat (ns ! 7) \<rparr>) \<rparr>) \<rparr>"

lemma demo_codec_ok: "codec_ok demo_codec"
proof -
  have f8: "fields 8 (show_fields [a, b, c, d, e, f, g, h]) = [a, b, c, d, e, f, g, h]" for a b c d e f g h
  proof -
    have "8 = length [a, b, c, d, e, f, g, h]" by simp
    then show ?thesis by (metis append_Nil2 fields_show)
  qed
  show ?thesis
    by (auto simp: codec_ok_def demo_codec_def f8 durable_valid_def Let_def split: option.split)
qed

theorem store_roundtrip_witness:
  "\<exists>st'. store_persist demo_codec (durable_fresh\<lparr>ds_last_session_id := 3, ds_committed_tick_seq := 7,
      ds_inflight := Some \<lparr> ir_session_id = 3, ir_tick_seq = 8, ir_ingress_seq = 1 \<rparr>\<rparr>) store_empty = (Inr (), st') \<and>
     store_load demo_codec st' = Inr (Some (durable_fresh\<lparr>ds_last_session_id := 3, ds_committed_tick_seq := 7,
      ds_inflight := Some \<lparr> ir_session_id = 3, ir_tick_seq = 8, ir_ingress_seq = 1 \<rparr>\<rparr>))"
proof -
  let ?d = "durable_fresh\<lparr>ds_last_session_id := 3, ds_committed_tick_seq := 7,
      ds_inflight := Some \<lparr> ir_session_id = 3, ir_tick_seq = 8, ir_ingress_seq = 1 \<rparr>\<rparr>"
  have "durable_validate ?d = Inr ()"
    by (simp add: durable_valid_def durable_fresh_def u64_max_def)
  with store_roundtrip [OF demo_codec_ok, of ?d store_empty] show ?thesis by simp
qed

end
