(* ===== verification/Harness.thy ===== *)
theory Harness
  imports Durable
begin

text \<open>
  \<open>src/runtime/harness.rs\<close>: the fake-clock runtime that pins restart and fault recovery. Its
  methods are functions from the harness to a result and the harness afterwards; \<open>hbind\<close> is
  the \<open>?\<close> operator. The second half states the durable log the harness implements and proves the
  refinement; the comparison with the oracle of \<open>mod.rs\<close> is in the fault-matrix theory.
\<close>

section \<open>State\<close>

definition MAX_STEPS :: u32 where "MAX_STEPS = 64"

record runtime_harness =
  rh_clock :: harness_clock
  rh_core :: fake_core
  rh_store :: durable_store
  rh_durable :: durable_state
  rh_injector :: fault_injector
  rh_source :: scripted_source
  rh_published :: "committed_output list"
  rh_metrics :: "metric_event list"
  rh_health :: rt_health
  rh_session_id :: u64
  rh_live :: bool
  rh_live_loop_entered :: bool
  rh_incomplete_prior :: bool
  rh_restart_outcome :: "restart_outcome option"
  rh_skipped_replays :: u64
  rh_steps_taken :: u32
  rh_channel_open :: bool

type_synonym 'a harness_m = "runtime_harness \<Rightarrow> (runtime_error + 'a) \<times> runtime_harness"

definition hbind :: "'a harness_m \<Rightarrow> ('a \<Rightarrow> 'b harness_m) \<Rightarrow> 'b harness_m" where
  "hbind m f = (\<lambda>h. case m h of (Inl e, h) \<Rightarrow> (Inl e, h) | (Inr x, h) \<Rightarrow> f x h)"

section \<open>Builder\<close>

record harness_builder =
  hb_seed :: u64
  hb_store :: durable_store
  hb_injector :: fault_injector
  hb_packets :: "sequenced_ingress list"

definition builder_new :: "u64 \<Rightarrow> harness_builder" where
  "builder_new seed =
     \<lparr> hb_seed = seed, hb_store = store_empty, hb_injector = injector_none,
       hb_packets = packets_for_seed seed \<rparr>"

definition builder_store :: "durable_store \<Rightarrow> harness_builder \<Rightarrow> harness_builder" where
  "builder_store st b = b\<lparr>hb_store := st\<rparr>"

definition builder_fault :: "fault_point \<Rightarrow> harness_builder \<Rightarrow> harness_builder" where
  "builder_fault point b = b\<lparr>hb_injector := injector_arm point\<rparr>"

definition builder_packets :: "sequenced_ingress list \<Rightarrow> harness_builder \<Rightarrow> harness_builder" where
  "builder_packets ps b = b\<lparr>hb_packets := ps\<rparr>"

definition builder_build :: "harness_builder \<Rightarrow> runtime_harness" where
  "builder_build b =
     \<lparr> rh_clock = harness_clock_new (sat_add (hb_seed b * 1000000) 1), rh_core = fake_core_default,
       rh_store = hb_store b, rh_durable = durable_fresh, rh_injector = hb_injector b,
       rh_source = source_new (hb_packets b), rh_published = [], rh_metrics = [],
       rh_health = RtStarting, rh_session_id = 0, rh_live = False, rh_live_loop_entered = False,
       rh_incomplete_prior = False, rh_restart_outcome = None, rh_skipped_replays = 0,
       rh_steps_taken = 0, rh_channel_open = False \<rparr>"

section \<open>Faults\<close>

definition apply_fault :: "fault_point \<Rightarrow> runtime_harness \<Rightarrow> runtime_harness" where
  "apply_fault point h =
     (let h = h\<lparr>rh_health := injected_terminal_health point\<rparr>
      in if rh_health h \<in> {RtFaulted, RtDegraded, RtIncompleteShutdown, RtCheckpointInvalid}
         then h\<lparr>rh_live := False\<rparr> else h)"

definition fail_point :: "fault_point \<Rightarrow> unit harness_m" where
  "fail_point point h =
     (case injector_fire point (rh_injector h) of
        (Inl err, i) \<Rightarrow> (Inl err, apply_fault point (h\<lparr>rh_injector := i\<rparr>))
      | (Inr _, i) \<Rightarrow> (Inr (), h\<lparr>rh_injector := i\<rparr>))"

definition take_fault :: "fault_point \<Rightarrow> runtime_harness \<Rightarrow> bool \<times> runtime_harness" where
  "take_fault point h =
     (case injector_take point (rh_injector h) of (b, i) \<Rightarrow> (b, h\<lparr>rh_injector := i\<rparr>))"

definition arm_fault :: "fault_point \<Rightarrow> runtime_harness \<Rightarrow> runtime_harness" where
  "arm_fault point h = h\<lparr>rh_injector := injector_set point (rh_injector h)\<rparr>"

definition push_ingress :: "sequenced_ingress \<Rightarrow> runtime_harness \<Rightarrow> runtime_harness" where
  "push_ingress p h = h\<lparr>rh_source := source_push p (rh_source h)\<rparr>"

definition push_ingress_front :: "sequenced_ingress \<Rightarrow> runtime_harness \<Rightarrow> runtime_harness" where
  "push_ingress_front p h = h\<lparr>rh_source := source_push_front p (rh_source h)\<rparr>"

section \<open>Boot\<close>

definition persist_into :: "durable_codec \<Rightarrow> durable_state \<Rightarrow> unit harness_m" where
  "persist_into co d h =
     (case store_persist co d (rh_store h) of (r, st) \<Rightarrow> (r, h\<lparr>rh_store := st\<rparr>))"

definition reject_checkpoint :: "runtime_harness \<Rightarrow> runtime_harness" where
  "reject_checkpoint h =
     h\<lparr>rh_health := RtCheckpointInvalid, rh_restart_outcome := Some RejectedInvalid, rh_live := False\<rparr>"

definition harness_initialize :: "unit harness_m" where
  "harness_initialize =
     hbind (fail_point (Before Initialize)) (\<lambda>_ h.
       fail_point (After Initialize)
         (h\<lparr>rh_core := fake_core_default, rh_channel_open := True, rh_published := [], rh_metrics := []\<rparr>))"

definition start_fresh_session :: "durable_codec \<Rightarrow> unit harness_m" where
  "start_fresh_session co h =
     (let h = h\<lparr>rh_durable := durable_fresh, rh_session_id := 1\<rparr>;
          h = h\<lparr>rh_durable := (rh_durable h)\<lparr>ds_last_session_id := 1\<rparr>\<rparr>
      in hbind (persist_into co (rh_durable h))
           (\<lambda>_ h. (Inr (), h\<lparr>rh_incomplete_prior := False, rh_restart_outcome := Some FreshStart\<rparr>)) h)"

definition recover_session :: "durable_codec \<Rightarrow> durable_state \<Rightarrow> unit harness_m" where
  "recover_session co d h =
     (let inflight = ds_inflight d; d = d\<lparr>ds_inflight := None\<rparr>;
          h = h\<lparr>rh_incomplete_prior := inflight \<noteq> None\<rparr>
      in case checked_add64 (ds_last_session_id d) 1 of
           None \<Rightarrow> (Inl ReSessionOverflow, reject_checkpoint h)
         | Some session_id \<Rightarrow>
             (let h = h\<lparr>rh_session_id := session_id\<rparr>; d = d\<lparr>ds_last_session_id := session_id\<rparr>
              in hbind (persist_into co d)
                   (\<lambda>_ h. (Inr (), h\<lparr>rh_durable := d,
                      rh_restart_outcome :=
                        Some (if rh_incomplete_prior h then RecoveredIncomplete else RecoveredClean)\<rparr>)) h))"

definition validate_checkpoint :: "durable_codec \<Rightarrow> unit harness_m" where
  "validate_checkpoint co =
     hbind (fail_point (Before CheckpointValidation)) (\<lambda>_ h.
       case take_fault MalformedCheckpoint h of
         (True, h) \<Rightarrow>
           (Inl ReMalformedCheckpoint,
            reject_checkpoint (h\<lparr>rh_store := store_malformed ''{injected-malformed-checkpoint''\<rparr>))
       | (False, h) \<Rightarrow>
           (case store_load co (rh_store h) of
              Inr None \<Rightarrow> start_fresh_session co h
            | Inr (Some d) \<Rightarrow>
                (if ds_committed_tick_seq d = u64_max then (Inl ReTickOverflow, reject_checkpoint h)
                 else recover_session co d h)
            | Inl err \<Rightarrow> (Inl err, reject_checkpoint h)))"

definition boot :: "durable_codec \<Rightarrow> unit harness_m" where
  "boot co h =
     hbind harness_initialize (\<lambda>_.
     hbind (validate_checkpoint co) (\<lambda>_.
     hbind (fail_point (After CheckpointValidation)) (\<lambda>_ h.
       (Inr (), h\<lparr>rh_health := RtLive, rh_live := True, rh_live_loop_entered := True\<rparr>))))
     (h\<lparr>rh_health := RtStarting\<rparr>)"

section \<open>One tick\<close>

definition begin_tick :: "unit harness_m" where
  "begin_tick h =
     (if \<not> rh_live h then (Inl ReNotStarted, h)
      else (let h = h\<lparr>rh_steps_taken := (if rh_steps_taken h = - 1 then - 1 else rh_steps_taken h + 1)\<rparr>
            in if rh_steps_taken h > MAX_STEPS then (Inl ReStepLimit, h)
               else (Inr (), h\<lparr>rh_clock := harness_clock_advance TICK_PERIOD_NS (rh_clock h)\<rparr>)))"

definition harness_ingress :: "sequenced_ingress option harness_m" where
  "harness_ingress =
     hbind (fail_point (Before IngressB)) (\<lambda>_ h.
       case take_fault ClosedChannel h of
         (taken, h) \<Rightarrow>
           (if taken \<or> \<not> rh_channel_open h then (Inl ReClosedChannel, apply_fault ClosedChannel h)
            else (case source_next (rh_source h) of
                    (packet, src) \<Rightarrow>
                      hbind (fail_point (After IngressB)) (\<lambda>_ h. (Inr packet, h)) (h\<lparr>rh_source := src\<rparr>))))"

definition execute_tick :: "durable_codec \<Rightarrow> sequenced_ingress \<Rightarrow> (u64 \<times> u16 list) harness_m" where
  "execute_tick co packet =
     hbind (fail_point (Before TickExecute)) (\<lambda>_ h.
       case checked_add64 (ds_committed_tick_seq (rh_durable h)) 1 of
         None \<Rightarrow> (Inl ReTickOverflow, h\<lparr>rh_health := RtFaulted, rh_live := False\<rparr>)
       | Some tick_seq \<Rightarrow>
           (let nxt = (rh_durable h)\<lparr>ds_inflight := Some \<lparr> ir_session_id = rh_session_id h,
                  ir_tick_seq = tick_seq, ir_ingress_seq = si_seq packet \<rparr>\<rparr>
            in hbind (persist_into co nxt) (\<lambda>_ h.
                 case take_fault CoreStepError (h\<lparr>rh_durable := nxt\<rparr>) of
                   (True, h) \<Rightarrow> (Inl ReCoreStep, apply_fault CoreStepError h)
                 | (False, h) \<Rightarrow>
                     (case fake_core_step (si_stimuli packet) (rh_core h) of
                        (Inl e, core) \<Rightarrow> (Inl e, h\<lparr>rh_core := core\<rparr>)
                      | (Inr spike_ids, core) \<Rightarrow>
                          hbind (fail_point (After TickExecute)) (\<lambda>_ h. (Inr (tick_seq, spike_ids), h))
                            (h\<lparr>rh_core := core\<rparr>))) h))"

definition publish_metrics :: "durable_codec \<Rightarrow> u64 \<Rightarrow> u64 \<Rightarrow> u16 list \<Rightarrow> unit harness_m" where
  "publish_metrics co tick_seq ingress_seq spike_ids =
     hbind (fail_point (Before MetricPublish)) (\<lambda>_ h.
       case take_fault BackpressureTimeout h of
         (True, h) \<Rightarrow>
           (Inl ReBackpressure,
            apply_fault BackpressureTimeout
              (h\<lparr>rh_clock := harness_clock_advance BACKPRESSURE_BUDGET_NS (rh_clock h)\<rparr>))
       | (False, h) \<Rightarrow>
           (if \<not> rh_channel_open h then (Inl ReClosedPublish, h\<lparr>rh_health := RtDegraded\<rparr>)
            else (let out = \<lparr> ou_session_id = rh_session_id h, ou_tick_seq = tick_seq,
                        ou_ingress_seq = ingress_seq, ou_spike_ids = spike_ids,
                        ou_time_ns = fc_now_ns (rh_clock h) \<rparr>;
                      nxt = (rh_durable h)\<lparr>ds_committed_tick_seq := tick_seq,
                        ds_committed_ingress_seq := ingress_seq, ds_inflight := None\<rparr>
                  in hbind (persist_into co nxt) (\<lambda>_ h.
                       fail_point (After MetricPublish)
                         (h\<lparr>rh_durable := nxt,
                            rh_metrics := rh_metrics h @ [\<lparr> me_session_id = ou_session_id out,
                              me_tick_seq = ou_tick_seq out, me_ingress_seq = ou_ingress_seq out \<rparr>],
                            rh_published := rh_published h @ [out]\<rparr>)) h)))"

definition harness_tick :: "durable_codec \<Rightarrow> tick_result harness_m" where
  "harness_tick co =
     hbind begin_tick (\<lambda>_.
     hbind harness_ingress (\<lambda>packet.
       case packet of
         None \<Rightarrow> (\<lambda>h. (Inr TrNoIngress, h))
       | Some packet \<Rightarrow> (\<lambda>h.
           if si_seq packet \<le> ds_committed_ingress_seq (rh_durable h)
           then (Inr TrSkippedReplay, h\<lparr>rh_skipped_replays := rh_skipped_replays h + 1\<rparr>)
           else hbind (execute_tick co packet) (\<lambda>(tick_seq, spike_ids).
                hbind (publish_metrics co tick_seq (si_seq packet) spike_ids) (\<lambda>_ h.
                  (Inr TrCommitted, h))) h)))"

section \<open>Shutdown\<close>

definition harness_shutdown :: "unit harness_m" where
  "harness_shutdown h =
     hbind (fail_point (Before Shutdown)) (\<lambda>_ h.
       case take_fault InterruptedShutdown h of
         (True, h) \<Rightarrow> (Inl ReInterruptedShutdown, apply_fault InterruptedShutdown h)
       | (False, h) \<Rightarrow>
           hbind (fail_point (After Shutdown)) (\<lambda>_ h. (Inr (), h\<lparr>rh_health := RtStopped\<rparr>))
             (h\<lparr>rh_channel_open := False, rh_live := False\<rparr>))
     (h\<lparr>rh_health := RtShuttingDown\<rparr>)"

section \<open>The durable log\<close>

text \<open>
  What the harness promises, without its mechanism: the log is the last session, the last
  committed tick and the last committed ingress sequence (\<open>None\<close>: unreadable for good).
\<close>

type_synonym durable_log = "(u64 \<times> u64 \<times> u64) option"

inductive log_step :: "durable_log \<Rightarrow> committed_output list \<Rightarrow> durable_log \<Rightarrow> bool" where
  stay: "log_step l [] l"
| session: "s \<noteq> u64_max \<Longrightarrow> log_step (Some (s, t, i)) [] (Some (s + 1, t, i))"
| commit: "s \<noteq> 0 \<Longrightarrow> t \<noteq> u64_max \<Longrightarrow> ou_session_id out = s \<Longrightarrow> ou_tick_seq out = t + 1 \<Longrightarrow>
    i < ou_ingress_seq out \<Longrightarrow> log_step (Some (s, t, i)) [out] (Some (s, t + 1, ou_ingress_seq out))"
| corrupt: "log_step l [] None"

inductive_cases log_step_None: "log_step None outs l"
inductive_cases log_step_Some: "log_step (Some (s, t, i)) outs l"

definition log_of :: "durable_codec \<Rightarrow> durable_store \<Rightarrow> durable_log" where
  "log_of co st =
     (case store_load co st of
        Inr None \<Rightarrow> Some (0, 0, 0)
      | Inr (Some d) \<Rightarrow> Some (ds_last_session_id d, ds_committed_tick_seq d, ds_committed_ingress_seq d)
      | Inl _ \<Rightarrow> None)"

section \<open>Invariant\<close>

definition metric_of :: "committed_output \<Rightarrow> metric_event" where
  "metric_of out =
     \<lparr> me_session_id = ou_session_id out, me_tick_seq = ou_tick_seq out, me_ingress_seq = ou_ingress_seq out \<rparr>"

definition live_ok :: "durable_codec \<Rightarrow> runtime_harness \<Rightarrow> bool" where
  "live_ok co h \<longleftrightarrow>
     rh_health h = RtLive \<and> rh_channel_open h \<and> store_holds co (rh_store h) (rh_durable h) \<and>
     ds_last_session_id (rh_durable h) = rh_session_id h \<and> rh_session_id h \<noteq> 0 \<and>
     ds_inflight (rh_durable h) = None"

definition harness_inv :: "durable_codec \<Rightarrow> runtime_harness \<Rightarrow> bool" where
  "harness_inv co h \<longleftrightarrow>
     (rh_live h \<longrightarrow> live_ok co h) \<and> rh_metrics h = map metric_of (rh_published h) \<and>
     length (rh_published h) \<le> unat (rh_steps_taken h) \<and> length (rh_published h) \<le> unat MAX_STEPS"

text \<open>The harness after an operation, seen from the one before it.\<close>

definition refines :: "durable_codec \<Rightarrow> runtime_harness \<Rightarrow> runtime_harness \<Rightarrow> bool" where
  "refines co h h' \<longleftrightarrow> harness_inv co h' \<and>
     (\<exists>outs. rh_published h' = rh_published h @ outs \<and> log_step (log_of co (rh_store h)) outs (log_of co (rh_store h')))"

section \<open>Postconditions\<close>

definition hpost :: "'a harness_m \<Rightarrow> runtime_harness \<Rightarrow> ('a \<Rightarrow> runtime_harness \<Rightarrow> bool)
    \<Rightarrow> (runtime_harness \<Rightarrow> bool) \<Rightarrow> bool" where
  "hpost m h Q E = (case m h of (Inr x, h') \<Rightarrow> Q x h' | (Inl _, h') \<Rightarrow> E h')"

lemma hpost_bind [simp]: "hpost (hbind m f) h Q E = hpost m h (\<lambda>x h'. hpost (f x) h' Q E) E"
  by (auto simp: hpost_def hbind_def split: prod.split sum.split)

lemma hpost_return [simp]: "hpost (\<lambda>h. (Inr (x h), g h)) h Q E = Q (x h) (g h)"
  by (simp add: hpost_def)

definition disarm :: "runtime_harness \<Rightarrow> runtime_harness" where
  "disarm h = h\<lparr>rh_injector := \<lparr> fi_armed = None \<rparr>\<rparr>"

definition armed :: "fault_point \<Rightarrow> runtime_harness \<Rightarrow> bool" where
  "armed p h \<longleftrightarrow> fi_armed (rh_injector h) = Some p"

lemma injector_unit: "(i :: fault_injector)\<lparr>fi_armed := None\<rparr> = \<lparr> fi_armed = None \<rparr>"
  by simp

lemma fail_point_eq:
  "fail_point p h = (if armed p h then (Inl (ReInjected p), apply_fault p (disarm h)) else (Inr (), h))"
  by (simp add: fail_point_def injector_fire_def armed_def disarm_def injector_unit)

lemma take_fault_eq: "take_fault p h = (armed p h, if armed p h then disarm h else h)"
  by (simp add: take_fault_def injector_take_def armed_def disarm_def injector_unit)

lemma hpost_fail_point [simp]:
  "hpost (fail_point p) h Q E = (if armed p h then E (apply_fault p (disarm h)) else Q () h)"
  by (simp add: hpost_def fail_point_eq)

lemma apply_fault_eq: "apply_fault p h = h\<lparr>rh_health := injected_terminal_health p, rh_live := False\<rparr>"
proof -
  have "injected_terminal_health p \<in> {RtFaulted, RtDegraded, RtIncompleteShutdown, RtCheckpointInvalid}"
    by (cases p rule: injected_terminal_health.cases) simp_all
  then show ?thesis by (simp add: apply_fault_def Let_def)
qed

lemma persist_into_valid:
  assumes "codec_ok co" "durable_valid d"
  shows "\<exists>st. persist_into co d h = (Inr (), h\<lparr>rh_store := st\<rparr>) \<and> store_holds co st d"
  using store_persist_valid [OF assms, of "rh_store h"] by (auto simp: persist_into_def)

lemma hpost_persist:
  assumes "codec_ok co" "durable_valid d" "\<And>st. store_holds co st d \<Longrightarrow> Q () (h\<lparr>rh_store := st\<rparr>)"
  shows "hpost (persist_into co d) h Q E"
  using persist_into_valid [OF assms(1,2), of h] assms(3) by (auto simp: hpost_def)

lemma log_of_holds [simp]:
  "store_holds co st d \<Longrightarrow>
     log_of co st = Some (ds_last_session_id d, ds_committed_tick_seq d, ds_committed_ingress_seq d)"
  by (simp add: log_of_def store_holds_def)

lemma store_holds_valid: "store_holds co st d \<Longrightarrow> durable_valid d"
  by (auto simp: store_holds_def dest: store_load_valid)

lemma disarm_frame [simp]:
  "rh_store (disarm h) = rh_store h" "rh_durable (disarm h) = rh_durable h" "rh_published (disarm h) = rh_published h"
  "rh_metrics (disarm h) = rh_metrics h" "rh_steps_taken (disarm h) = rh_steps_taken h"
  "rh_session_id (disarm h) = rh_session_id h" "rh_live (disarm h) = rh_live h" "rh_health (disarm h) = rh_health h"
  "rh_channel_open (disarm h) = rh_channel_open h" "rh_core (disarm h) = rh_core h" "rh_clock (disarm h) = rh_clock h"
  "rh_source (disarm h) = rh_source h" "rh_incomplete_prior (disarm h) = rh_incomplete_prior h"
  "rh_restart_outcome (disarm h) = rh_restart_outcome h" "rh_live_loop_entered (disarm h) = rh_live_loop_entered h"
  "rh_skipped_replays (disarm h) = rh_skipped_replays h" "rh_injector (disarm h) = \<lparr> fi_armed = None \<rparr>"
  by (simp_all add: disarm_def)

lemma refines_cong:
  "rh_published h1 = rh_published h \<Longrightarrow> log_of co (rh_store h1) = log_of co (rh_store h) \<Longrightarrow>
     refines co h1 = refines co h"
  by (simp add: refines_def fun_eq_iff)

text \<open>A change that neither publishes nor moves the log.\<close>

lemma refines_quiet:
  assumes "rh_metrics h = map metric_of (rh_published h)" "length (rh_published h) \<le> unat (rh_steps_taken h)"
    "length (rh_published h) \<le> unat MAX_STEPS"
    "rh_published h' = rh_published h" "rh_metrics h' = rh_metrics h"
    "log_of co (rh_store h') = log_of co (rh_store h)"
    "unat (rh_steps_taken h) \<le> unat (rh_steps_taken h')" "rh_live h' \<Longrightarrow> live_ok co h'"
  shows "refines co h h'"
  using assms log_step.stay by (auto simp: refines_def harness_inv_def)

lemma unat_steps: "s \<noteq> - 1 \<Longrightarrow> unat (s + 1) = unat (s :: u32) + 1"
proof -
  assume "s \<noteq> - 1"
  then have "1 + s \<noteq> 0" by (metis add.commute eq_neg_iff_add_eq_0)
  from unatSuc [OF this] show ?thesis by (simp add: add.commute)
qed

lemma max_steps_small: "\<not> unat (- 1 :: u32) \<le> unat MAX_STEPS"
  by (simp add: MAX_STEPS_def unsigned_minus_1_eq_mask mask_eq_exp_minus_1)

text \<open>The last stage: a tick whose in-flight marker is on disk.\<close>

definition ticking :: "durable_codec \<Rightarrow> u64 \<Rightarrow> runtime_harness \<Rightarrow> bool" where
  "ticking co sq h \<longleftrightarrow>
     rh_channel_open h \<and> rh_live h \<and> rh_health h = RtLive \<and> store_holds co (rh_store h) (rh_durable h) \<and>
     ds_inflight (rh_durable h) = Some \<lparr> ir_session_id = rh_session_id h,
       ir_tick_seq = ds_committed_tick_seq (rh_durable h) + 1, ir_ingress_seq = sq \<rparr> \<and>
     rh_session_id h \<noteq> 0 \<and> rh_metrics h = map metric_of (rh_published h) \<and>
     length (rh_published h) < unat (rh_steps_taken h) \<and> length (rh_published h) < unat MAX_STEPS"

lemma ticking_valid:
  assumes "ticking co sq h"
  shows "ds_committed_tick_seq (rh_durable h) \<noteq> u64_max" "ds_committed_ingress_seq (rh_durable h) < sq"
    "ds_last_session_id (rh_durable h) = rh_session_id h"
    "ds_schema_version (rh_durable h) = DURABLE_SCHEMA_VERSION" "ds_checkpoint_id (rh_durable h) = FAKE_CHECKPOINT_ID"
  using assms store_holds_valid [of co "rh_store h" "rh_durable h"] by (auto simp: ticking_def durable_valid_def)

lemma publish_metrics_refines:
  assumes co: "codec_ok co" and h: "ticking co sq h"
  shows "hpost (publish_metrics co (ds_committed_tick_seq (rh_durable h) + 1) sq ids) h (\<lambda>_. refines co h) (refines co h)"
proof -
  note v = ticking_valid [OF h]
  have t: "rh_metrics h = map metric_of (rh_published h)" "length (rh_published h) \<le> unat (rh_steps_taken h)"
    "length (rh_published h) \<le> unat MAX_STEPS"
    using h by (auto simp: ticking_def)
  let ?nxt = "(rh_durable h)\<lparr>ds_committed_tick_seq := ds_committed_tick_seq (rh_durable h) + 1,
      ds_committed_ingress_seq := sq, ds_inflight := None\<rparr>"
  have nv: "durable_valid ?nxt" using v h by (simp add: durable_valid_def ticking_def)
  have failed: "refines co h h'" if "rh_published h' = rh_published h" "rh_metrics h' = rh_metrics h"
    "rh_store h' = rh_store h" "rh_steps_taken h' = rh_steps_taken h" "\<not> rh_live h'" for h'
    using that by (intro refines_quiet t) simp_all
  have committed: "refines co h h'"
    if "store_holds co (rh_store h') ?nxt" "rh_published h' = rh_published h @ [out]"
      "rh_metrics h' = rh_metrics h @ [metric_of out]" "rh_steps_taken h' = rh_steps_taken h"
      "ou_session_id out = rh_session_id h" "ou_tick_seq out = ds_committed_tick_seq (rh_durable h) + 1"
      "ou_ingress_seq out = sq" "rh_live h' \<Longrightarrow> live_ok co h'" for h' out
  proof -
    have "log_of co (rh_store h) = Some (rh_session_id h, ds_committed_tick_seq (rh_durable h),
        ds_committed_ingress_seq (rh_durable h))"
      using h v log_of_holds [of co "rh_store h" "rh_durable h"] by (simp add: ticking_def)
    moreover have "log_of co (rh_store h') = Some (rh_session_id h, ds_committed_tick_seq (rh_durable h) + 1,
        ou_ingress_seq out)"
      using that(7) v log_of_holds [OF that(1)] by simp
    ultimately have "log_step (log_of co (rh_store h)) [out] (log_of co (rh_store h'))"
      using v h that(5-7) by (auto simp: ticking_def intro: log_step.commit)
    then show ?thesis
      using that h by (auto simp: refines_def harness_inv_def ticking_def)
  qed
  obtain st where st: "persist_into co ?nxt h = (Inr (), h\<lparr>rh_store := st\<rparr>)" "store_holds co st ?nxt"
    using persist_into_valid [OF co nv] by blast
  let ?out = "\<lparr> ou_session_id = rh_session_id h, ou_tick_seq = ds_committed_tick_seq (rh_durable h) + 1,
      ou_ingress_seq = sq, ou_spike_ids = ids, ou_time_ns = fc_now_ns (rh_clock h) \<rparr>"
  let ?p = "h\<lparr>rh_store := st, rh_durable := ?nxt, rh_metrics := rh_metrics h @ [metric_of ?out],
      rh_published := rh_published h @ [?out]\<rparr>"
  have ready: "rh_channel_open h" "rh_health h = RtLive" "rh_session_id h \<noteq> 0" using h by (simp_all add: ticking_def)
  have "refines co h ?p"
    by (rule committed [of _ ?out]) (use st ready v in \<open>simp_all add: live_ok_def\<close>)
  moreover have "refines co h (apply_fault (After MetricPublish) (disarm ?p))"
    by (rule committed [of _ ?out]) (use st ready v in \<open>simp_all add: apply_fault_eq\<close>)
  moreover have "refines co h (apply_fault (Before MetricPublish) (disarm h))"
    by (rule failed) (simp_all add: apply_fault_eq)
  moreover have "refines co h (apply_fault BackpressureTimeout ((disarm h)\<lparr>rh_clock := c\<rparr>))" for c
    by (rule failed) (simp_all add: apply_fault_eq)
  ultimately show ?thesis
    unfolding hpost_def publish_metrics_def hbind_def fail_point_eq take_fault_eq
    using st(1) ready(1) by (simp add: Let_def metric_of_def)
qed

text \<open>A live harness with an uncommitted packet in hand.\<close>

definition fresh_packet :: "durable_codec \<Rightarrow> sequenced_ingress \<Rightarrow> runtime_harness \<Rightarrow> bool" where
  "fresh_packet co p h \<longleftrightarrow>
     rh_live h \<and> live_ok co h \<and> rh_metrics h = map metric_of (rh_published h) \<and>
     length (rh_published h) < unat (rh_steps_taken h) \<and> length (rh_published h) < unat MAX_STEPS \<and>
     ds_committed_ingress_seq (rh_durable h) < si_seq p"

lemma execute_tick_spec:
  assumes co: "codec_ok co" and h: "fresh_packet co p h"
  shows "hpost (execute_tick co p) h
     (\<lambda>x h'. ticking co (si_seq p) h' \<and> fst x = ds_committed_tick_seq (rh_durable h') + 1 \<and>
        rh_published h' = rh_published h \<and> log_of co (rh_store h') = log_of co (rh_store h)) (refines co h)"
proof -
  let ?d = "rh_durable h"
  let ?nxt = "?d\<lparr>ds_inflight := Some \<lparr> ir_session_id = rh_session_id h,
      ir_tick_seq = ds_committed_tick_seq ?d + 1, ir_ingress_seq = si_seq p \<rparr>\<rparr>"
  have holds: "store_holds co (rh_store h) ?d" and live: "rh_live h" "rh_health h = RtLive" "rh_channel_open h"
    "ds_last_session_id ?d = rh_session_id h" "rh_session_id h \<noteq> 0" "ds_inflight ?d = None"
    using h by (simp_all add: fresh_packet_def live_ok_def)
  have m: "rh_metrics h = map metric_of (rh_published h)" "length (rh_published h) < unat (rh_steps_taken h)"
    "length (rh_published h) < unat MAX_STEPS" "ds_committed_ingress_seq ?d < si_seq p"
    using h by (simp_all add: fresh_packet_def)
  have failed: "refines co h h'" if "rh_published h' = rh_published h" "rh_metrics h' = rh_metrics h"
    "log_of co (rh_store h') = log_of co (rh_store h)" "rh_steps_taken h' = rh_steps_taken h" "\<not> rh_live h'" for h'
    using that m by (intro refines_quiet) simp_all
  show ?thesis
  proof (cases "ds_committed_tick_seq ?d = u64_max")
    case True
    have "refines co h (apply_fault (Before TickExecute) (disarm h))"
      "refines co h (h\<lparr>rh_health := RtFaulted, rh_live := False\<rparr>)"
      by (rule failed; simp add: apply_fault_eq)+
    with True show ?thesis
      by (simp add: hpost_def execute_tick_def hbind_def fail_point_eq checked_add64_one)
  next
    case False
    have nv: "durable_valid ?nxt"
      using False live m(4) store_holds_valid [OF holds] by (simp add: durable_valid_def)
    obtain st where st: "persist_into co ?nxt h = (Inr (), h\<lparr>rh_store := st\<rparr>)" "store_holds co st ?nxt"
      using persist_into_valid [OF co nv] by blast
    have lg: "log_of co st = log_of co (rh_store h)"
      using log_of_holds [OF st(2)] log_of_holds [OF holds] by simp
    let ?t = "h\<lparr>rh_store := st, rh_durable := ?nxt\<rparr>"
    have faults: "refines co h (apply_fault (Before TickExecute) (disarm h))"
      "refines co h (apply_fault CoreStepError (disarm ?t))"
      "refines co h (apply_fault (After TickExecute) (disarm (?t\<lparr>rh_core := c\<rparr>)))" for c
      by (rule failed; simp add: apply_fault_eq lg)+
    have "ticking co (si_seq p) (?t\<lparr>rh_core := c\<rparr>)" for c
      using st(2) live m by (simp add: ticking_def)
    with faults lg show ?thesis
      using False st(1)
      by (simp add: hpost_def execute_tick_def hbind_def fail_point_eq take_fault_eq checked_add64_one
          fake_core_step_def Let_def)
  qed
qed

lemma hpost_mono:
  "hpost m h Q E \<Longrightarrow> (\<And>x h'. Q x h' \<Longrightarrow> Q' x h') \<Longrightarrow> (\<And>h'. E h' \<Longrightarrow> E' h') \<Longrightarrow> hpost m h Q' E'"
  by (auto simp: hpost_def split: prod.splits sum.splits)

text \<open>Everything a tick does with a fresh packet in hand.\<close>

lemma fresh_packet_refines:
  assumes co: "codec_ok co" and h: "fresh_packet co p h"
  shows "hpost (hbind (execute_tick co p) (\<lambda>(t, ids). publish_metrics co t (si_seq p) ids)) h
    (\<lambda>_. refines co h) (refines co h)"
  unfolding hpost_bind
proof (rule hpost_mono [OF execute_tick_spec [OF co h]])
  fix x :: "u64 \<times> u16 list" and h'
  assume "ticking co (si_seq p) h' \<and> fst x = ds_committed_tick_seq (rh_durable h') + 1 \<and>
        rh_published h' = rh_published h \<and> log_of co (rh_store h') = log_of co (rh_store h)"
  then obtain t ids where x: "x = (t, ids)" "ticking co (si_seq p) h'" "t = ds_committed_tick_seq (rh_durable h') + 1"
    and same: "rh_published h' = rh_published h" "log_of co (rh_store h') = log_of co (rh_store h)" by (cases x) auto
  show "hpost (case x of (t, ids) \<Rightarrow> publish_metrics co t (si_seq p) ids) h' (\<lambda>_. refines co h) (refines co h)"
    using publish_metrics_refines [OF co x(2), of ids] refines_cong [OF same] by (simp add: x(1,3))
qed

lemma hpost_ingress:
  "rh_channel_open h \<Longrightarrow> hpost harness_ingress h Q E =
     (if armed (Before IngressB) h then E (apply_fault (Before IngressB) (disarm h))
      else if armed ClosedChannel h then E (apply_fault ClosedChannel (disarm h))
      else let h' = h\<lparr>rh_source := snd (source_next (rh_source h))\<rparr>
           in if armed (After IngressB) h then E (apply_fault (After IngressB) (disarm h'))
              else Q (fst (source_next (rh_source h))) h')"
  by (auto simp: harness_ingress_def hpost_def hbind_def fail_point_eq take_fault_eq case_prod_beta armed_def Let_def)

lemma hpost_ingressI:
  assumes "rh_channel_open h" "E (apply_fault (Before IngressB) (disarm h))" "E (apply_fault ClosedChannel (disarm h))"
    "\<And>src. E (apply_fault (After IngressB) (disarm (h\<lparr>rh_source := src\<rparr>)))"
    "\<And>pk src. Q pk (h\<lparr>rh_source := src\<rparr>)"
  shows "hpost harness_ingress h Q E"
  using assms by (simp add: hpost_ingress Let_def)

lemma hpost_packet:
  "hpost (hbind (execute_tick co p) (\<lambda>(t, ids). hbind (publish_metrics co t (si_seq p) ids) (\<lambda>_ h. (Inr r, h))))
     h (\<lambda>_. Q) Q =
   hpost (hbind (execute_tick co p) (\<lambda>(t, ids). publish_metrics co t (si_seq p) ids)) h (\<lambda>_. Q) Q"
  by (simp add: case_prod_beta)

lemma tick_refines:
  assumes co: "codec_ok co" and h: "harness_inv co h"
  shows "refines co h (snd (harness_tick co h))"
proof -
  have m: "rh_metrics h = map metric_of (rh_published h)" "length (rh_published h) \<le> unat (rh_steps_taken h)"
    "length (rh_published h) \<le> unat MAX_STEPS"
    using h by (simp_all add: harness_inv_def)
  have quiet: "refines co h h'" if "rh_published h' = rh_published h" "rh_metrics h' = rh_metrics h"
    "rh_store h' = rh_store h" "unat (rh_steps_taken h) \<le> unat (rh_steps_taken h')"
    "rh_live h' \<Longrightarrow> live_ok co h'" for h'
    using that by (intro refines_quiet m) simp_all
  show ?thesis
  proof (cases "rh_live h")
    case False
    have "refines co h h" by (rule quiet) (use False in simp_all)
    with False show ?thesis by (simp add: harness_tick_def hbind_def begin_tick_def)
  next
    case True
    then have live: "live_ok co h" using h by (simp add: harness_inv_def)
    let ?s = "if rh_steps_taken h = - 1 then - 1 else rh_steps_taken h + 1"
    have le: "unat (rh_steps_taken h) \<le> unat ?s" by (simp add: unat_steps)
    show ?thesis
    proof (cases "?s > MAX_STEPS")
      case over: True
      have "refines co h (h\<lparr>rh_steps_taken := ?s\<rparr>)"
        by (rule quiet) (use le live in \<open>simp_all add: live_ok_def\<close>)
      with over True show ?thesis by (simp add: harness_tick_def hbind_def begin_tick_def Let_def)
    next
      case False
      have steps: "unat (rh_steps_taken h) < unat ?s" "unat ?s \<le> unat MAX_STEPS"
        using False unat_steps [of "rh_steps_taken h"] max_steps_small
        by (auto simp: word_le_nat_alt not_less split: if_splits)
      let ?b = "h\<lparr>rh_steps_taken := ?s, rh_clock := harness_clock_advance TICK_PERIOD_NS (rh_clock h)\<rparr>"
      have b: "begin_tick h = (Inr (), ?b)" using False True by (simp add: begin_tick_def Let_def)
      have chan: "rh_channel_open h" using live by (simp add: live_ok_def)
      have lb: "live_ok co (?b\<lparr>rh_source := src\<rparr>)" "live_ok co ?b"
        "live_ok co (?b\<lparr>rh_source := src, rh_skipped_replays := k\<rparr>)" for src k
        using live by (simp_all add: live_ok_def)
      have faults: "refines co h (apply_fault (Before IngressB) (disarm ?b))"
        "refines co h (apply_fault ClosedChannel (disarm ?b))"
        "refines co h (apply_fault (After IngressB) (disarm (?b\<lparr>rh_source := src\<rparr>)))"
        "refines co h (?b\<lparr>rh_source := src\<rparr>)" "refines co h (?b\<lparr>rh_source := src, rh_skipped_replays := k\<rparr>)" for src k
        by (rule quiet; use lb le in \<open>simp add: apply_fault_eq\<close>)+
      have fresh: "hpost (hbind (execute_tick co p) (\<lambda>(t, ids). hbind (publish_metrics co t (si_seq p) ids)
          (\<lambda>_ h. (Inr r, h)))) (?b\<lparr>rh_source := src\<rparr>) (\<lambda>_. refines co h) (refines co h)"
        if "ds_committed_ingress_seq (rh_durable h) < si_seq p" for p src and r :: tick_result
      proof -
        have "fresh_packet co p (?b\<lparr>rh_source := src\<rparr>)"
          using that lb(1) True m steps by (simp add: fresh_packet_def)
        from fresh_packet_refines [OF co this] show ?thesis
          unfolding hpost_packet using refines_cong [of "?b\<lparr>rh_source := src\<rparr>" h co] by simp
      qed
      have pkt: "hpost (case pk of None \<Rightarrow> (\<lambda>h. (Inr TrNoIngress, h))
          | Some packet \<Rightarrow> (\<lambda>h.
              if si_seq packet \<le> ds_committed_ingress_seq (rh_durable h)
              then (Inr TrSkippedReplay, h\<lparr>rh_skipped_replays := rh_skipped_replays h + 1\<rparr>)
              else hbind (execute_tick co packet) (\<lambda>(tick_seq, spike_ids).
                   hbind (publish_metrics co tick_seq (si_seq packet) spike_ids) (\<lambda>_ h. (Inr TrCommitted, h))) h))
          (?b\<lparr>rh_source := src\<rparr>) (\<lambda>_. refines co h) (refines co h)" (is "hpost (?k pk) _ _ _") for pk src
      proof (cases pk)
        case (Some p)
        show ?thesis
        proof (cases "si_seq p \<le> ds_committed_ingress_seq (rh_durable h)")
          case True
          with Some faults(5) show ?thesis by (simp add: hpost_def)
        next
          case False
          with Some fresh [where p = p and src = src and r = TrCommitted] show ?thesis
            unfolding hpost_def by simp
        qed
      qed (use faults(4) in simp)
      have "hpost (harness_tick co) h (\<lambda>_. refines co h) (refines co h) =
          hpost harness_ingress ?b (\<lambda>pk h'. hpost (?k pk) h' (\<lambda>_. refines co h) (refines co h)) (refines co h)"
        by (simp only: harness_tick_def hpost_bind) (simp only: hpost_def [of begin_tick] b prod.case sum.case)
      also have "\<dots>"
      proof (rule hpost_ingressI)
        show "rh_channel_open ?b" using chan by simp
      qed (rule faults pkt)+
      finally have "hpost (harness_tick co) h (\<lambda>_. refines co h) (refines co h)" .
      then show ?thesis by (simp add: hpost_def split: prod.splits sum.splits)
    qed
  qed
qed

section \<open>Boot, shutdown and restart\<close>

definition booted :: "durable_codec \<Rightarrow> runtime_harness \<Rightarrow> bool" where
  "booted co h \<longleftrightarrow>
     store_holds co (rh_store h) (rh_durable h) \<and> ds_last_session_id (rh_durable h) = rh_session_id h \<and>
     rh_session_id h \<noteq> 0 \<and> ds_inflight (rh_durable h) = None"

text \<open>What boot leaves alone.\<close>

definition same_run :: "runtime_harness \<Rightarrow> runtime_harness \<Rightarrow> bool" where
  "same_run h h' \<longleftrightarrow>
     rh_published h' = rh_published h \<and> rh_metrics h' = rh_metrics h \<and>
     rh_steps_taken h' = rh_steps_taken h \<and> rh_channel_open h' = rh_channel_open h"

lemma start_fresh_spec:
  assumes co: "codec_ok co" and ld: "store_load co (rh_store h) = Inr None"
  shows "hpost (start_fresh_session co) h
    (\<lambda>_ h'. booted co h' \<and> same_run h h' \<and> log_step (log_of co (rh_store h)) [] (log_of co (rh_store h')) \<and>
       rh_restart_outcome h' = Some FreshStart) E"
proof -
  let ?d = "durable_fresh\<lparr>ds_last_session_id := 1\<rparr>"
  have v: "durable_valid ?d" by (simp add: durable_valid_def durable_fresh_def)
  obtain st where st: "persist_into co ?d (h\<lparr>rh_durable := durable_fresh, rh_session_id := 1, rh_durable := ?d\<rparr>) =
      (Inr (), h\<lparr>rh_session_id := 1, rh_durable := ?d, rh_store := st\<rparr>)" "store_holds co st ?d"
    using persist_into_valid [OF co v] by fastforce
  have "log_step (Some (0, 0, 0)) [] (Some (0 + 1, 0, 0))"
    by (rule log_step.session) (simp add: u64_max_def)
  with st log_of_holds [OF st(2)] ld show ?thesis
    by (simp add: hpost_def start_fresh_session_def Let_def hbind_def booted_def same_run_def log_of_def durable_fresh_def)
qed

lemma recover_spec:
  assumes co: "codec_ok co" and ld: "store_load co (rh_store h) = Inr (Some d)"
  shows "hpost (recover_session co d) h
    (\<lambda>_ h'. booted co h' \<and> same_run h h' \<and> log_step (log_of co (rh_store h)) [] (log_of co (rh_store h')) \<and>
       rh_restart_outcome h' = Some (if ds_inflight d = None then RecoveredClean else RecoveredIncomplete))
    (\<lambda>h'. \<not> rh_live h' \<and> same_run h h' \<and> log_step (log_of co (rh_store h)) [] (log_of co (rh_store h')))"
proof (cases "ds_last_session_id d = u64_max")
  case True
  then show ?thesis
    by (simp add: hpost_def recover_session_def checked_add64_one reject_checkpoint_def same_run_def log_step.stay)
next
  case False
  let ?s = "ds_last_session_id d + 1"
  let ?d = "d\<lparr>ds_inflight := None, ds_last_session_id := ?s\<rparr>"
  have s0: "?s \<noteq> 0" using False by (auto simp: u64_max_def eq_neg_iff_add_eq_0)
  have v: "durable_valid ?d" using store_load_valid [OF ld] s0 by (simp add: durable_valid_def)
  let ?h = "h\<lparr>rh_incomplete_prior := ds_inflight d \<noteq> None, rh_session_id := ?s\<rparr>"
  obtain st where st: "persist_into co ?d ?h = (Inr (), ?h\<lparr>rh_store := st\<rparr>)" "store_holds co st ?d"
    using persist_into_valid [OF co v] by fastforce
  have "log_of co (rh_store h) = Some (ds_last_session_id d, ds_committed_tick_seq d, ds_committed_ingress_seq d)"
    using ld by (simp add: log_of_def)
  with st s0 log_of_holds [OF st(2)] False show ?thesis
    by (simp add: hpost_def recover_session_def checked_add64_one Let_def hbind_def booted_def same_run_def log_step.session)
qed

lemma validate_checkpoint_spec:
  assumes co: "codec_ok co"
  shows "hpost (validate_checkpoint co) h
    (\<lambda>_ h'. booted co h' \<and> same_run h h' \<and> log_step (log_of co (rh_store h)) [] (log_of co (rh_store h')))
    (\<lambda>h'. \<not> rh_live h' \<and> same_run h h' \<and> log_step (log_of co (rh_store h)) [] (log_of co (rh_store h')))"
proof -
  have stays: "log_step l [] l" for l by (rule log_step.stay)
  have bad: "log_of co (store_malformed ''{injected-malformed-checkpoint'') = None"
    by (simp add: log_of_def store_load_def store_malformed_def durable_decode_def MAGIC_def)
  show ?thesis
  proof (cases "armed (Before CheckpointValidation) h \<or> armed MalformedCheckpoint h")
    case True
    then show ?thesis
      by (auto simp: hpost_def validate_checkpoint_def hbind_def fail_point_eq take_fault_eq reject_checkpoint_def
          apply_fault_eq same_run_def stays bad log_step.corrupt)
  next
    case False
    then have eq: "validate_checkpoint co h =
        (case store_load co (rh_store h) of
              Inr None \<Rightarrow> start_fresh_session co h
            | Inr (Some d) \<Rightarrow>
                (if ds_committed_tick_seq d = u64_max then (Inl ReTickOverflow, reject_checkpoint h)
                 else recover_session co d h)
            | Inl err \<Rightarrow> (Inl err, reject_checkpoint h))"
      by (simp add: validate_checkpoint_def hbind_def fail_point_eq take_fault_eq)
    have rej: "\<not> rh_live (reject_checkpoint h)" "same_run h (reject_checkpoint h)" "rh_store (reject_checkpoint h) = rh_store h"
      by (simp_all add: reject_checkpoint_def same_run_def)
    show ?thesis
    proof (cases "store_load co (rh_store h)")
      case (Inl e)
      then show ?thesis by (simp add: hpost_def eq rej stays)
    next
      case ld: (Inr ob)
      show ?thesis
      proof (cases ob)
        case None
        from start_fresh_spec [OF co, of h] ld None show ?thesis by (auto simp: hpost_def eq split: prod.splits sum.splits)
      next
        case (Some d)
        with ld recover_spec [OF co, of h d] rej stays show ?thesis
          by (auto simp: hpost_def eq split: prod.splits sum.splits)
      qed
    qed
  qed
qed

definition boot_post :: "durable_codec \<Rightarrow> runtime_harness \<Rightarrow> runtime_harness \<Rightarrow> bool" where
  "boot_post co h h' \<longleftrightarrow> harness_inv co h' \<and> log_step (log_of co (rh_store h)) [] (log_of co (rh_store h'))"

lemma boot_postI:
  assumes "rh_metrics h' = map metric_of (rh_published h')" "length (rh_published h') \<le> unat (rh_steps_taken h')"
    "length (rh_published h') \<le> unat MAX_STEPS" "rh_live h' \<Longrightarrow> live_ok co h'"
    "log_step (log_of co (rh_store h)) [] (log_of co (rh_store h'))"
  shows "boot_post co h h'"
  using assms by (simp add: boot_post_def harness_inv_def)

lemma boot_refines:
  assumes co: "codec_ok co" and h: "harness_inv co h"
  shows "hpost (boot co) h (\<lambda>_ h'. boot_post co h h' \<and> rh_live h') (\<lambda>h'. boot_post co h h' \<and> \<not> rh_live h')"
proof -
  have m: "rh_metrics h = map metric_of (rh_published h)" "length (rh_published h) \<le> unat (rh_steps_taken h)"
    "length (rh_published h) \<le> unat MAX_STEPS"
    using h by (simp_all add: harness_inv_def)
  let ?s = "h\<lparr>rh_health := RtStarting\<rparr>"
  let ?i = "?s\<lparr>rh_core := fake_core_default, rh_channel_open := True, rh_published := [], rh_metrics := []\<rparr>"
  have early: "boot_post co h (apply_fault (Before Initialize) (disarm ?s))"
    "boot_post co h (apply_fault (After Initialize) (disarm ?i))"
    by (rule boot_postI; use m in \<open>simp add: apply_fault_eq log_step.stay\<close>)+
  have late: "hpost (hbind (validate_checkpoint co) (\<lambda>_. hbind (fail_point (After CheckpointValidation)) (\<lambda>_ h.
       (Inr (), h\<lparr>rh_health := RtLive, rh_live := True, rh_live_loop_entered := True\<rparr>)))) ?i
       (\<lambda>_ h'. boot_post co h h' \<and> rh_live h') (\<lambda>h'. boot_post co h h' \<and> \<not> rh_live h')"
    unfolding hpost_bind
  proof (rule hpost_mono [OF validate_checkpoint_spec [OF co]])
    fix x :: unit and v
    assume "booted co v \<and> same_run ?i v \<and> log_step (log_of co (rh_store ?i)) [] (log_of co (rh_store v))"
    then have v: "booted co v" "rh_published v = []" "rh_metrics v = []" "rh_channel_open v"
      "log_step (log_of co (rh_store h)) [] (log_of co (rh_store v))"
      by (simp_all add: same_run_def)
    have "boot_post co h (v\<lparr>rh_health := RtLive, rh_live := True, rh_live_loop_entered := True\<rparr>)"
      by (rule boot_postI) (use v in \<open>simp_all add: live_ok_def booted_def\<close>)
    moreover have "boot_post co h (apply_fault (After CheckpointValidation) (disarm v))"
      by (rule boot_postI) (use v in \<open>simp_all add: apply_fault_eq\<close>)
    ultimately show "hpost (fail_point (After CheckpointValidation)) v
        (\<lambda>_ h'. hpost (\<lambda>h. (Inr (), h\<lparr>rh_health := RtLive, rh_live := True, rh_live_loop_entered := True\<rparr>)) h'
          (\<lambda>_ h'. boot_post co h h' \<and> rh_live h') (\<lambda>h'. boot_post co h h' \<and> \<not> rh_live h'))
        (\<lambda>h'. boot_post co h h' \<and> \<not> rh_live h')"
      by (simp add: apply_fault_eq)
  next
    fix v
    assume "\<not> rh_live v \<and> same_run ?i v \<and> log_step (log_of co (rh_store ?i)) [] (log_of co (rh_store v))"
    then show "boot_post co h v \<and> \<not> rh_live v"
      by (intro conjI boot_postI) (simp_all add: same_run_def)
  qed
  have eq: "hpost (boot co) h Q E = hpost (hbind harness_initialize (\<lambda>_. hbind (validate_checkpoint co)
      (\<lambda>_. hbind (fail_point (After CheckpointValidation)) (\<lambda>_ h.
       (Inr (), h\<lparr>rh_health := RtLive, rh_live := True, rh_live_loop_entered := True\<rparr>))))) ?s Q E" for Q E
    by (simp only: boot_def hpost_def)
  have ini: "hpost harness_initialize ?s Q E =
      (if armed (Before Initialize) ?s then E (apply_fault (Before Initialize) (disarm ?s))
       else if armed (After Initialize) ?i then E (apply_fault (After Initialize) (disarm ?i)) else Q () ?i)" for Q E
    by (auto simp: harness_initialize_def hpost_def hbind_def fail_point_eq)
  show ?thesis
    unfolding eq hpost_bind [of harness_initialize] ini
    using early late by (auto simp: apply_fault_eq)
qed

lemma shutdown_refines:
  assumes h: "harness_inv co h"
  shows "refines co h (snd (harness_shutdown h))" "\<not> rh_live (snd (harness_shutdown h))"
proof -
  have m: "rh_metrics h = map metric_of (rh_published h)" "length (rh_published h) \<le> unat (rh_steps_taken h)"
    "length (rh_published h) \<le> unat MAX_STEPS"
    using h by (simp_all add: harness_inv_def)
  show "refines co h (snd (harness_shutdown h))" "\<not> rh_live (snd (harness_shutdown h))"
    by (auto simp: harness_shutdown_def hbind_def fail_point_eq take_fault_eq apply_fault_eq intro!: refines_quiet m)
qed

section \<open>Evaluation\<close>

text \<open>Unfolding rules that run the harness on a concrete state; the store is \<open>persisted\<close>.\<close>

lemmas harness_eval =
  hbind_def fail_point_eq take_fault_eq armed_def apply_fault_eq disarm_def boot_def harness_initialize_def
  validate_checkpoint_def start_fresh_session_def recover_session_def reject_checkpoint_def persist_into_def
  builder_build_def builder_new_def builder_store_def builder_fault_def injector_none_def injector_arm_def
  checked_add64_one durable_fresh_def

lemmas tick_eval =
  harness_tick_def begin_tick_def harness_ingress_def execute_tick_def publish_metrics_def
  harness_shutdown_def arm_fault_def injector_set_def source_next_def source_new_def packets_for_seed_def
  fake_core_step_def

section \<open>Any sequence of operations\<close>

text \<open>
  What a user of the harness can do, a crash and restart included: the store survives, all else
  is built anew from a seed, a fault to arm and the packets of the new source.
\<close>

datatype harness_action =
    HoBoot
  | HoTick
  | HoShutdown
  | HoArm fault_point
  | HoPush sequenced_ingress
  | HoPushFront sequenced_ingress
  | HoRestart u64 "fault_point option" "sequenced_ingress list"

fun harness_op :: "durable_codec \<Rightarrow> harness_action \<Rightarrow> runtime_harness \<Rightarrow> runtime_harness" where
  "harness_op co HoBoot h = snd (boot co h)"
| "harness_op co HoTick h = snd (harness_tick co h)"
| "harness_op co HoShutdown h = snd (harness_shutdown h)"
| "harness_op co (HoArm p) h = arm_fault p h"
| "harness_op co (HoPush p) h = push_ingress p h"
| "harness_op co (HoPushFront p) h = push_ingress_front p h"
| "harness_op co (HoRestart seed fault ps) h =
     (let b = builder_packets ps (builder_store (rh_store h) (builder_new seed))
      in builder_build (case fault of None \<Rightarrow> b | Some p \<Rightarrow> builder_fault p b))"

text \<open>The outputs an operation publishes: only a tick publishes.\<close>

fun op_outputs :: "harness_action \<Rightarrow> runtime_harness \<Rightarrow> runtime_harness \<Rightarrow> committed_output list" where
  "op_outputs HoTick h h' = drop (length (rh_published h)) (rh_published h')"
| "op_outputs _ h h' = []"

definition run_op ::
  "durable_codec \<Rightarrow> harness_action \<Rightarrow> runtime_harness \<times> committed_output list
     \<Rightarrow> runtime_harness \<times> committed_output list" where
  "run_op co op = (\<lambda>(h, hist). let h' = harness_op co op h in (h', hist @ op_outputs op h h'))"

lemma run_op_eq:
  "run_op co op (h, hist) = (harness_op co op h, hist @ op_outputs op h (harness_op co op h))"
  by (simp add: run_op_def Let_def)

lemma op_refines:
  assumes "codec_ok co" "harness_inv co h"
  shows "harness_inv co (harness_op co op h) \<and>
    log_step (log_of co (rh_store h)) (op_outputs op h (harness_op co op h)) (log_of co (rh_store (harness_op co op h)))"
proof -
  have stays: "log_step l [] l" for l by (rule log_step.stay)
  show ?thesis
  proof (cases op)
    case HoBoot
    with boot_refines [OF assms] show ?thesis
      by (auto simp: hpost_def boot_post_def split: prod.splits sum.splits)
  next
    case HoTick
    with tick_refines [OF assms] show ?thesis by (auto simp: refines_def)
  next
    case HoShutdown
    obtain outs where outs: "rh_published (snd (harness_shutdown h)) = rh_published h @ outs"
      "harness_inv co (snd (harness_shutdown h))"
      using shutdown_refines(1) [OF assms(2)] by (auto simp: refines_def)
    have "rh_store (snd (harness_shutdown h)) = rh_store h"
      by (simp add: harness_shutdown_def hbind_def fail_point_eq take_fault_eq apply_fault_eq)
    with HoShutdown outs(2) stays show ?thesis by simp
  next
    case (HoRestart seed fault ps)
    with stays show ?thesis
      by (cases fault) (simp_all add: harness_inv_def builder_build_def builder_new_def builder_store_def
          builder_packets_def builder_fault_def Let_def)
  qed (use assms(2) stays in \<open>simp_all add: arm_fault_def push_ingress_def push_ingress_front_def harness_inv_def live_ok_def\<close>)
qed

text \<open>A run of the log, and the runs of the harness as runs of the log.\<close>

inductive log_run :: "durable_log \<Rightarrow> committed_output list \<Rightarrow> durable_log \<Rightarrow> bool" where
  start: "log_run l [] l"
| step: "log_run l outs l' \<Longrightarrow> log_step l' new l'' \<Longrightarrow> log_run l (outs @ new) l''"

lemma run_refines:
  assumes "codec_ok co" "harness_inv co h"
  shows "harness_inv co (fst (fold (run_op co) ops (h, []))) \<and>
    log_run (log_of co (rh_store h)) (snd (fold (run_op co) ops (h, [])))
      (log_of co (rh_store (fst (fold (run_op co) ops (h, [])))))"
proof (induction ops rule: rev_induct)
  case Nil
  with assms(2) show ?case by (simp add: log_run.start)
next
  case (snoc op ops)
  obtain h' hist where r: "fold (run_op co) ops (h, []) = (h', hist)" by fastforce
  with snoc have "harness_inv co h'" "log_run (log_of co (rh_store h)) hist (log_of co (rh_store h'))" by simp_all
  then show ?case
    using op_refines [OF assms(1), of h' op] by (auto simp: r run_op_eq intro: log_run.step)
qed

text \<open>What holds of every run of the log.\<close>

definition once :: "committed_output \<Rightarrow> committed_output \<Rightarrow> bool" where
  "once a b \<longleftrightarrow> ou_ingress_seq a < ou_ingress_seq b \<and> ou_session_id a \<le> ou_session_id b"

definition history_ok :: "u64 \<times> u64 \<times> u64 \<Rightarrow> committed_output list \<Rightarrow> bool" where
  "history_ok l hist \<longleftrightarrow>
     sorted_wrt once hist \<and>
     map (\<lambda>out. unat (ou_tick_seq out)) hist = [unat (fst (snd l)) + 1 ..< unat (fst (snd l)) + 1 + length hist] \<and>
     (\<forall>out \<in> set hist. snd (snd l) < ou_ingress_seq out \<and> fst l \<le> ou_session_id out)"

lemma log_run_history:
  assumes "log_run (Some l) hist l'"
  shows "history_ok l hist \<and>
    (case l' of None \<Rightarrow> True
     | Some (s, t, i) \<Rightarrow> fst l \<le> s \<and> snd (snd l) \<le> i \<and> unat t = unat (fst (snd l)) + length hist \<and>
         (\<forall>out \<in> set hist. ou_session_id out \<le> s \<and> ou_ingress_seq out \<le> i))"
  using assms
proof (induction "Some l" hist l' rule: log_run.induct)
  case start
  then show ?case by (cases l) (simp add: history_ok_def)
next
  case (step outs l' new l'')
  from step.hyps(3) show ?case
  proof (cases rule: log_step.cases)
    case (session s t i)
    then have "s \<le> s + 1" using u64_add_one_less [of s] by simp
    with session step.hyps(2) show ?thesis by (auto intro: order_trans)
  next
    case (commit s t out i)
    have "t \<noteq> u64_max" using commit by simp
    then have t: "unat (t + 1) = unat t + 1" using unat_checked_add64 [of t 1 "t + 1"] by (simp add: checked_add64_one)
    have "sorted_wrt once (outs @ [out])"
      using commit step.hyps(2) by (auto simp: history_ok_def sorted_wrt_append once_def intro: le_less_trans)
    with commit step.hyps(2) t show ?thesis
      by (auto simp: history_ok_def intro: order_trans less_imp_le le_less_trans)
  qed (use step.hyps(2) in \<open>auto split: option.splits\<close>)
qed

lemma built_inv: "harness_inv co (builder_build b)"
  by (simp add: harness_inv_def builder_build_def)

lemma built_store [simp]: "rh_store (builder_build b) = hb_store b"
  by (simp add: builder_build_def)

text \<open>
  C3: The harness implements the durable log: whatever sequence of boots, ticks, shutdowns,
  armed faults, pushed packets, crashes and restarts it goes through, what its store holds
  afterwards and what it published on the way are a run of the log, in which a session only
  counts up by one and a commit takes the next tick number and a higher ingress sequence and
  publishes exactly that; and a live harness has that log open with no work in flight.
\<close>

theorem harness_refines_log:
  assumes "codec_ok co"
  shows "let (h, hist) = fold (run_op co) ops (builder_build b, [])
     in log_run (log_of co (hb_store b)) hist (log_of co (rh_store h)) \<and>
        (rh_live h \<longrightarrow> store_holds co (rh_store h) (rh_durable h) \<and> ds_inflight (rh_durable h) = None \<and>
           ds_last_session_id (rh_durable h) = rh_session_id h \<and> rh_health h = RtLive)"
  using run_refines [OF assms built_inv, of ops b] by (auto simp: harness_inv_def live_ok_def case_prod_beta)

text \<open>
  C22: Exactly once across crashes: over any such history that starts from a readable store,
  the published ticks are numbered without gap or repetition from the last committed one on,
  their ingress sequences strictly increase from the last committed one, so no ingress is ever
  published twice, and session ids never go back; each harness publishes at most 64 ticks and
  records exactly one metric for each.
\<close>

theorem published_exactly_once:
  assumes "codec_ok co" and "log_of co (hb_store b) = Some (s, t, i)"
    and "fold (run_op co) ops (builder_build b, []) = (h, hist)"
  shows "map (\<lambda>out. unat (ou_tick_seq out)) hist = [unat t + 1 ..< unat t + 1 + length hist] \<and>
     sorted_wrt (\<lambda>a b. ou_ingress_seq a < ou_ingress_seq b \<and> ou_session_id a \<le> ou_session_id b) hist \<and>
     distinct (map ou_ingress_seq hist) \<and> (\<forall>out \<in> set hist. i < ou_ingress_seq out \<and> s \<le> ou_session_id out) \<and>
     rh_metrics h = map metric_of (rh_published h) \<and> length (rh_published h) \<le> 64"
proof -
  have run: "harness_inv co h \<and> log_run (Some (s, t, i)) hist (log_of co (rh_store h))"
    using run_refines [OF assms(1) built_inv, of ops b] assms(2,3) by simp
  then have hist: "history_ok (s, t, i) hist" using log_run_history by blast
  then have once: "sorted_wrt once hist" by (simp add: history_ok_def)
  have "sorted_wrt (\<lambda>a b. a < b) (map ou_ingress_seq hist)"
    unfolding sorted_wrt_map by (rule sorted_wrt_mono_rel [OF _ once]) (simp add: once_def)
  then have "distinct (map ou_ingress_seq hist)" by (simp add: strict_sorted_iff)
  with run hist once show ?thesis
    by (auto simp: history_ok_def harness_inv_def once_def [abs_def] MAX_STEPS_def)
qed

theorem harness_refines_log_witness:
  "let (h, hist) = fold (run_op demo_codec) [HoBoot, HoTick, HoRestart 9 (Some CoreStepError) [], HoBoot]
        (builder_build (builder_new 7), [])
   in log_run (Some (0, 0, 0)) hist (log_of demo_codec (rh_store h))"
proof -
  have "log_of demo_codec (hb_store (builder_new 7)) = Some (0, 0, 0)"
    by (simp add: log_of_def builder_new_def)
  with harness_refines_log [OF demo_codec_ok, of "[HoBoot, HoTick, HoRestart 9 (Some CoreStepError) [], HoBoot]"
      "builder_new 7"] show ?thesis by (auto simp: case_prod_beta)
qed

text \<open>One boot and one tick on a first packet, for any codec that keeps its promise.\<close>

lemma first_tick_publishes:
  assumes "codec_ok co"
  shows "\<exists>h out. fold (run_op co) [HoBoot, HoTick] (builder_build (builder_new seed), []) = (h, [out]) \<and>
    ou_tick_seq out = 1 \<and> ou_ingress_seq out = 1 \<and> ou_session_id out = 1"
  using assms
  by (simp add: run_op_eq harness_eval tick_eval store_persist_eq durable_valid_def u64_max_def MAX_STEPS_def Let_def)

theorem published_exactly_once_witness:
  "\<exists>h out. fold (run_op demo_codec) [HoBoot, HoTick] (builder_build (builder_new 7), []) = (h, [out]) \<and>
     rh_metrics h = map metric_of (rh_published h) \<and> 0 < ou_ingress_seq out"
proof -
  obtain h out where r: "fold (run_op demo_codec) [HoBoot, HoTick] (builder_build (builder_new 7), []) = (h, [out])"
    using first_tick_publishes [OF demo_codec_ok] by blast
  have "log_of demo_codec (hb_store (builder_new 7)) = Some (0, 0, 0)"
    by (simp add: log_of_def builder_new_def)
  from published_exactly_once [OF demo_codec_ok this r] r show ?thesis by auto
qed

end
