(* ===== verification/Fault_Matrix.thy ===== *)
theory Fault_Matrix
  imports Harness
begin

text \<open>
  The fault suite of \<open>src/runtime/tests.rs\<close> as a theorem: for every seed and every injection
  point, a session with that fault and the restart after it end as the oracle
  \<open>expected_outcome\<close> of \<open>src/runtime/mod.rs\<close> says.
\<close>

section \<open>The fault matrix\<close>

text \<open>The sessions the fault suite drives for a seed and an injection point.\<close>

definition is_shutdown_fault :: "fault_point \<Rightarrow> bool" where
  "is_shutdown_fault p \<longleftrightarrow> p \<in> {Before Shutdown, After Shutdown, InterruptedShutdown}"

definition injected_builder :: "u64 \<Rightarrow> fault_point \<Rightarrow> harness_builder" where
  "injected_builder seed p =
     (if p = MalformedCheckpoint
      then builder_fault p (builder_store (store_malformed ''{not-a-checkpoint'') (builder_new seed))
      else if is_shutdown_fault p then builder_new seed
      else builder_fault p (builder_new seed))"

definition run_injected_session :: "durable_codec \<Rightarrow> u64 \<Rightarrow> fault_point \<Rightarrow> runtime_harness" where
  "run_injected_session co seed p =
     (case boot co (builder_build (injected_builder seed p)) of
        (Inl e, h) \<Rightarrow> h
      | (Inr _, h) \<Rightarrow>
          if is_shutdown_fault p
          then snd (harness_shutdown (arm_fault p (snd (harness_tick co h))))
          else if rh_live h then snd (harness_tick co h) else h)"

definition boot_restart :: "durable_codec \<Rightarrow> u64 \<Rightarrow> durable_store \<Rightarrow> runtime_harness" where
  "boot_restart co seed st = snd (boot co (builder_build (builder_store st (builder_new seed))))"

lemma malformed_load: "\<exists>e. store_load co (store_malformed (CHR ''{'' # s)) = Inl e"
  by (simp add: store_load_def store_malformed_def durable_decode_def MAGIC_def)

text \<open>The report of one drive: the session with the fault, then a restart on its store.\<close>

definition matches_oracle :: "durable_codec \<Rightarrow> u64 \<Rightarrow> fault_point \<Rightarrow> expected \<Rightarrow> bool" where
  "matches_oracle co seed p ex \<longleftrightarrow>
     (let first = run_injected_session co seed p; restarted = boot_restart co seed (rh_store first)
      in rh_health first = ex_terminal_health ex \<and>
         rh_restart_outcome restarted = Some (ex_restart ex) \<and>
         of_nat (length (rh_published first)) = ex_published_before_crash ex \<and>
         of_nat (length (rh_metrics first)) = ex_published_before_crash ex \<and>
         rh_live_loop_entered first = ex_live_loop_entered ex \<and>
         (rh_incomplete_prior restarted \<longleftrightarrow> ex_restart ex = RecoveredIncomplete) \<and>
         (ds_inflight (rh_durable first) \<noteq> None \<longleftrightarrow> ex_restart ex = RecoveredIncomplete) \<and>
         (if ex_restart ex = RejectedInvalid then \<not> rh_live restarted \<and> \<not> rh_live_loop_entered restarted
          else rh_live restarted \<and> rh_published restarted = [] \<and> rh_metrics restarted = [] \<and>
               fk_last_stimuli (rh_core restarted) = None \<and>
               rh_session_id restarted = ds_last_session_id (rh_durable first) + 1 \<and>
               ds_committed_tick_seq (rh_durable restarted) = ds_committed_tick_seq (rh_durable first) \<and>
               ds_committed_ingress_seq (rh_durable restarted) = ds_committed_ingress_seq (rh_durable first)))"

text \<open>The live harness after a first boot, before any tick.\<close>

definition first_session :: durable_state where
  "first_session = durable_fresh\<lparr>ds_last_session_id := 1\<rparr>"

definition fresh_live :: "durable_codec \<Rightarrow> u64 \<Rightarrow> fault_injector \<Rightarrow> runtime_harness" where
  "fresh_live co seed fi =
     (builder_build ((builder_new seed)\<lparr>hb_injector := fi\<rparr>))
       \<lparr>rh_store := persisted co first_session, rh_durable := first_session, rh_session_id := 1, rh_health := RtLive,
        rh_live := True, rh_live_loop_entered := True, rh_restart_outcome := Some FreshStart, rh_channel_open := True\<rparr>"

lemma boot_fresh:
  assumes "codec_ok co"
    and "fi_armed fi \<notin> Some ` {Before Initialize, After Initialize, Before CheckpointValidation,
           After CheckpointValidation, MalformedCheckpoint}"
  shows "boot co (builder_build ((builder_new seed)\<lparr>hb_injector := fi\<rparr>)) = (Inr (), fresh_live co seed fi)"
  using assms
  by (cases "fi_armed fi")
    (simp_all add: fresh_live_def first_session_def harness_eval store_persist_eq durable_valid_def)

text \<open>The three kinds of restart.\<close>

lemma restart_fresh:
  assumes "codec_ok co"
  shows "boot_restart co seed store_empty = fresh_live co seed injector_none"
proof -
  have "builder_store store_empty (builder_new seed) = (builder_new seed)\<lparr>hb_injector := injector_none\<rparr>"
    by (simp add: builder_store_def builder_new_def)
  with boot_fresh [OF assms, of injector_none seed] show ?thesis
    by (simp add: boot_restart_def injector_none_def)
qed

lemma restart_recovers:
  assumes co: "codec_ok co" and ld: "store_load co st = Inr (Some d)"
    and b: "ds_last_session_id d \<noteq> u64_max" "ds_committed_tick_seq d \<noteq> u64_max"
  shows "\<exists>h. boot_restart co seed st = h \<and> rh_live h \<and> rh_published h = [] \<and> rh_metrics h = [] \<and>
    rh_core h = fake_core_default \<and> rh_session_id h = ds_last_session_id d + 1 \<and>
    rh_durable h = d\<lparr>ds_inflight := None, ds_last_session_id := ds_last_session_id d + 1\<rparr> \<and>
    rh_incomplete_prior h = (ds_inflight d \<noteq> None) \<and>
    rh_restart_outcome h = Some (if ds_inflight d = None then RecoveredClean else RecoveredIncomplete)"
proof -
  have s0: "ds_last_session_id d + 1 \<noteq> 0" using b(1) by (auto simp: u64_max_def eq_neg_iff_add_eq_0)
  have "durable_valid (d\<lparr>ds_inflight := None, ds_last_session_id := ds_last_session_id d + 1\<rparr>)"
    using store_load_valid [OF ld] s0 by (simp add: durable_valid_def)
  with ld b show ?thesis
    by (simp add: boot_restart_def harness_eval store_persist_eq [OF co] Let_def)
qed

lemma restart_rejected:
  assumes "store_load co st = Inl e"
  shows "\<exists>h. boot_restart co seed st = h \<and> \<not> rh_live h \<and> \<not> rh_live_loop_entered h \<and> \<not> rh_incomplete_prior h \<and>
    rh_restart_outcome h = Some RejectedInvalid"
  using assms by (simp add: boot_restart_def harness_eval)

section \<open>The sessions with a fault\<close>

definition inflight_session :: durable_state where
  "inflight_session = first_session\<lparr>ds_inflight := Some \<lparr> ir_session_id = 1, ir_tick_seq = 1, ir_ingress_seq = 1 \<rparr>\<rparr>"

definition committed_session :: durable_state where
  "committed_session = first_session\<lparr>ds_committed_tick_seq := 1, ds_committed_ingress_seq := 1\<rparr>"

lemma sessions_valid [simp]:
  "durable_valid first_session" "durable_valid inflight_session" "durable_valid committed_session"
  by (simp_all add: durable_valid_def first_session_def inflight_session_def committed_session_def durable_fresh_def
      u64_max_def)

lemma sessions_step [simp]:
  "first_session\<lparr>ds_inflight := Some \<lparr> ir_session_id = 1, ir_tick_seq = 1, ir_ingress_seq = 1 \<rparr>\<rparr> = inflight_session"
  "inflight_session\<lparr>ds_committed_tick_seq := 1, ds_committed_ingress_seq := 1, ds_inflight := None\<rparr> = committed_session"
  by (simp_all add: first_session_def inflight_session_def committed_session_def durable_fresh_def)

lemma sessions_fields [simp]:
  "ds_committed_tick_seq first_session = 0" "ds_committed_ingress_seq first_session = 0"
  "ds_last_session_id first_session = 1" "ds_inflight first_session = None"
  "ds_committed_tick_seq inflight_session = 0" "ds_committed_ingress_seq inflight_session = 0"
  "ds_last_session_id inflight_session = 1" "ds_inflight inflight_session \<noteq> None"
  "ds_committed_tick_seq committed_session = 1" "ds_committed_ingress_seq committed_session = 1"
  "ds_last_session_id committed_session = 1" "ds_inflight committed_session = None"
  by (simp_all add: first_session_def inflight_session_def committed_session_def durable_fresh_def)

lemma small_not_max [simp]: "(0 :: u64) \<noteq> u64_max" "(1 :: u64) \<noteq> u64_max"
  by (simp_all add: u64_max_def)

text \<open>How a session ended, as far as the report and a restart can tell.\<close>

definition ended :: "durable_codec \<Rightarrow> runtime_harness \<Rightarrow> rt_health \<Rightarrow> nat \<Rightarrow> durable_state \<Rightarrow> bool" where
  "ended co h hl n d \<longleftrightarrow>
     rh_health h = hl \<and> rh_live_loop_entered h \<and> length (rh_published h) = n \<and> length (rh_metrics h) = n \<and>
     rh_durable h = d \<and> rh_store h = persisted co d"

lemma ended_matches:
  assumes co: "codec_ok co" and e: "ended co (run_injected_session co seed p) hl n d" and v: "durable_valid d"
    and b: "ds_last_session_id d \<noteq> u64_max" "ds_committed_tick_seq d \<noteq> u64_max"
  shows "matches_oracle co seed p \<lparr> ex_terminal_health = hl,
    ex_restart = (if ds_inflight d = None then RecoveredClean else RecoveredIncomplete),
    ex_published_before_crash = of_nat n, ex_live_loop_entered = True \<rparr>"
  using e restart_recovers [OF co store_persist_eq(2) [OF co v] b, of seed]
  by (simp add: ended_def matches_oracle_def Let_def fake_core_default_def)

definition tick_fault :: "fault_point \<Rightarrow> bool" where
  "tick_fault p \<longleftrightarrow> p \<in> {Before IngressB, After IngressB, Before TickExecute, After TickExecute, Before MetricPublish,
     After MetricPublish, CoreStepError, ClosedChannel, BackpressureTimeout}"

lemma injected_tick:
  assumes "codec_ok co" "tick_fault p"
  shows "run_injected_session co seed p = snd (harness_tick co (fresh_live co seed (injector_arm p)))"
proof -
  have b: "injected_builder seed p = (builder_new seed)\<lparr>hb_injector := injector_arm p\<rparr>"
    using assms(2) by (auto simp: tick_fault_def injected_builder_def is_shutdown_fault_def builder_fault_def)
  have "boot co (builder_build (injected_builder seed p)) = (Inr (), fresh_live co seed (injector_arm p))"
    unfolding b by (rule boot_fresh [OF assms(1)]) (use assms(2) in \<open>auto simp: tick_fault_def injector_arm_def\<close>)
  with assms(2) show ?thesis
    by (auto simp: run_injected_session_def tick_fault_def is_shutdown_fault_def fresh_live_def)
qed

lemmas live_eval =
  fresh_live_def builder_build_def builder_new_def hbind_def fail_point_eq take_fault_eq armed_def apply_fault_eq
  disarm_def persist_into_def injector_arm_def checked_add64_one MAX_STEPS_def Let_def

lemma tick_ended:
  assumes "codec_ok co"
  shows "ended co (snd (harness_tick co (fresh_live co seed (injector_arm (Before IngressB))))) RtDegraded 0 first_session"
    "ended co (snd (harness_tick co (fresh_live co seed (injector_arm (After IngressB))))) RtDegraded 0 first_session"
    "ended co (snd (harness_tick co (fresh_live co seed (injector_arm ClosedChannel)))) RtDegraded 0 first_session"
    "ended co (snd (harness_tick co (fresh_live co seed (injector_arm (Before TickExecute))))) RtFaulted 0 first_session"
    "ended co (snd (harness_tick co (fresh_live co seed (injector_arm (After TickExecute))))) RtFaulted 0 inflight_session"
    "ended co (snd (harness_tick co (fresh_live co seed (injector_arm CoreStepError)))) RtFaulted 0 inflight_session"
    "ended co (snd (harness_tick co (fresh_live co seed (injector_arm (Before MetricPublish))))) RtDegraded 0 inflight_session"
    "ended co (snd (harness_tick co (fresh_live co seed (injector_arm BackpressureTimeout)))) RtDegraded 0 inflight_session"
    "ended co (snd (harness_tick co (fresh_live co seed (injector_arm (After MetricPublish))))) RtFaulted 1 committed_session"
  using assms
  by (simp_all add: ended_def tick_eval live_eval store_persist_eq)

lemma first_boot:
  "codec_ok co \<Longrightarrow> boot co (builder_build (builder_new seed)) = (Inr (), fresh_live co seed injector_none)"
  using boot_fresh [of co injector_none seed] by (simp add: builder_new_def injector_none_def)

lemma shutdown_ended:
  assumes co: "codec_ok co"
  shows "ended co (run_injected_session co seed (Before Shutdown)) RtIncompleteShutdown 1 committed_session"
    "ended co (run_injected_session co seed (After Shutdown)) RtFaulted 1 committed_session"
    "ended co (run_injected_session co seed InterruptedShutdown) RtIncompleteShutdown 1 committed_session"
  using first_boot [OF co, of seed] co
  by (simp_all add: run_injected_session_def is_shutdown_fault_def injected_builder_def ended_def tick_eval live_eval
      store_persist_eq injector_none_def)

lemma boot_faults:
  assumes co: "codec_ok co"
  shows "matches_oracle co seed (Before Initialize) (expected_outcome (Before Initialize))"
    "matches_oracle co seed (After Initialize) (expected_outcome (After Initialize))"
    "matches_oracle co seed (Before CheckpointValidation) (expected_outcome (Before CheckpointValidation))"
proof -
  let ?r = "\<lambda>p. run_injected_session co seed p"
  have "rh_health (?r p) = RtFaulted \<and> rh_published (?r p) = [] \<and> rh_metrics (?r p) = [] \<and>
      \<not> rh_live_loop_entered (?r p) \<and> rh_durable (?r p) = durable_fresh \<and> rh_store (?r p) = store_empty"
    if "p \<in> {Before Initialize, After Initialize, Before CheckpointValidation}" for p
    using that
    by (elim insertE emptyE) (simp_all add: run_injected_session_def injected_builder_def is_shutdown_fault_def
        harness_eval Let_def)
  then have "matches_oracle co seed p \<lparr> ex_terminal_health = RtFaulted, ex_restart = FreshStart,
      ex_published_before_crash = 0, ex_live_loop_entered = False \<rparr>"
    if "p \<in> {Before Initialize, After Initialize, Before CheckpointValidation}" for p
    using that by (simp add: matches_oracle_def Let_def restart_fresh [OF co])
      (simp add: fresh_live_def builder_build_def builder_new_def fake_core_default_def durable_fresh_def)
  then show "matches_oracle co seed (Before Initialize) (expected_outcome (Before Initialize))"
    "matches_oracle co seed (After Initialize) (expected_outcome (After Initialize))"
    "matches_oracle co seed (Before CheckpointValidation) (expected_outcome (Before CheckpointValidation))"
    by simp_all
qed

lemma checkpoint_faults:
  assumes co: "codec_ok co"
  shows "matches_oracle co seed (After CheckpointValidation) (expected_outcome (After CheckpointValidation))"
    "matches_oracle co seed MalformedCheckpoint (expected_outcome MalformedCheckpoint)"
proof -
  let ?a = "run_injected_session co seed (After CheckpointValidation)"
  have a: "rh_health ?a = RtFaulted \<and> rh_published ?a = [] \<and> rh_metrics ?a = [] \<and> \<not> rh_live_loop_entered ?a \<and>
      rh_durable ?a = first_session \<and> rh_store ?a = persisted co first_session"
    using co by (simp add: run_injected_session_def injected_builder_def is_shutdown_fault_def harness_eval
        store_persist_eq durable_valid_def first_session_def Let_def)
  then show "matches_oracle co seed (After CheckpointValidation) (expected_outcome (After CheckpointValidation))"
    using restart_recovers [OF co store_persist_eq(2) [OF co sessions_valid(1)], of seed]
    by (simp add: matches_oracle_def Let_def fake_core_default_def)
  let ?m = "run_injected_session co seed MalformedCheckpoint"
  have m: "rh_health ?m = RtCheckpointInvalid \<and> rh_published ?m = [] \<and> rh_metrics ?m = [] \<and>
      \<not> rh_live_loop_entered ?m \<and> rh_durable ?m = durable_fresh \<and>
      rh_store ?m = store_malformed ''{injected-malformed-checkpoint''"
    by (simp add: run_injected_session_def injected_builder_def harness_eval Let_def)
  obtain e where "store_load co (store_malformed ''{injected-malformed-checkpoint'') = Inl e"
    using malformed_load by blast
  from restart_rejected [OF this, of seed] m
  show "matches_oracle co seed MalformedCheckpoint (expected_outcome MalformedCheckpoint)"
    by (simp add: matches_oracle_def Let_def durable_fresh_def)
qed

lemma fault_points: "p \<in> set fault_point_all"
proof (cases p)
  case (Before b)
  then show ?thesis by (cases b) (simp_all add: fault_point_all_def)
next
  case (After b)
  then show ?thesis by (cases b) (simp_all add: fault_point_all_def)
qed (simp_all add: fault_point_all_def)

text \<open>
  C7: The fault matrix holds for every seed, not only the six of the suite: at each of the
  seventeen injection points the session ends in the health the oracle names, having entered
  the live loop or not and having published what the oracle counts, with a metric for each
  publication; and the restart on its store ends as the oracle says, with the next session
  number, the committed sequences unchanged, nothing published and an empty core.
\<close>

theorem fault_matrix:
  assumes "codec_ok co"
  shows "\<forall>p. p \<in> set fault_point_all \<and> matches_oracle co seed p (expected_outcome p)"
proof
  fix p
  have t: "matches_oracle co seed p \<lparr> ex_terminal_health = hl,
      ex_restart = (if ds_inflight d = None then RecoveredClean else RecoveredIncomplete),
      ex_published_before_crash = of_nat n, ex_live_loop_entered = True \<rparr>"
    if "ended co (run_injected_session co seed p) hl n d" "d \<in> {first_session, inflight_session, committed_session}"
    for hl n d
    using that(2) by (intro ended_matches [OF assms that(1)]) auto
  have "matches_oracle co seed p (expected_outcome p)"
  proof (cases "tick_fault p")
    case True
    note t = t [unfolded injected_tick [OF assms True]]
    from True show ?thesis
      unfolding tick_fault_def
      by (elim insertE emptyE; hypsubst) (use tick_ended [OF assms, of seed] t in \<open>force simp: ingress_degraded_def incomplete_tick_def\<close>)+
  next
    case False
    then consider "p \<in> {Before Initialize, After Initialize, Before CheckpointValidation, After CheckpointValidation,
        MalformedCheckpoint}" | "p \<in> {Before Shutdown, After Shutdown, InterruptedShutdown}"
      using fault_points [of p] by (auto simp: fault_point_all_def tick_fault_def)
    then show ?thesis
    proof cases
      case 1
      with boot_faults [OF assms, of seed] checkpoint_faults [OF assms, of seed] show ?thesis by blast
    next
      case 2
      with shutdown_ended [OF assms, of seed] t show ?thesis
        by (elim insertE emptyE; hypsubst) (force simp: shutdown_incomplete_def)+
    qed
  qed
  then show "p \<in> set fault_point_all \<and> matches_oracle co seed p (expected_outcome p)"
    using fault_points by simp
qed

theorem fault_matrix_witness:
  "matches_oracle demo_codec 42 (After TickExecute) (expected_outcome (After TickExecute))"
  using fault_matrix [OF demo_codec_ok, of 42, THEN spec [of _ "After TickExecute"]] by blast

end
