(* ===== verification/Http_Client.thy ===== *)
theory Http_Client
  imports Control
begin

text \<open>
  The client side of the control surface, as the drivers that launch the daemon have it
  (\<open>examples/usefulness_common/process.rs\<close>, and \<open>http_get\<close>, \<open>readyz_ok\<close> and the waiting loops
  of the secondary experiment): one request over a fresh connection, the reading of the
  answer, and the life of the daemon process from its start to its reaping. The peer is an
  argument, so that the control surface modelled in \<open>Control\<close> can be put in its place.
\<close>

section \<open>Text\<close>

text \<open>\<open>str::split_once\<close>, and \<open>parse\<close> of an unsigned integer below \<open>bound\<close>.\<close>

fun split_once :: "string \<Rightarrow> string \<Rightarrow> (string \<times> string) option" where
  "split_once p [] = (if p = [] then Some ([], []) else None)"
| "split_once p (c # s) =
     (case strip_prefix p (c # s) of
        Some r \<Rightarrow> Some ([], r)
      | None \<Rightarrow> map_option (\<lambda>(a, b). (c # a, b)) (split_once p s))"

definition parse_uint :: "nat \<Rightarrow> string \<Rightarrow> nat option" where
  "parse_uint bound s =
     (let digits = (if length s > 1 \<and> hd s = CHR ''+'' then tl s else s)
      in if digits = [] \<or> \<not> list_all is_ascii_digit digits \<or> bound \<le> read_nat digits then None
         else Some (read_nat digits))"

text \<open>
  \<open>String::from_utf8_lossy\<close>: every maximal broken piece becomes one replacement character.
  \<open>utf8_more\<close> counts the continuation bytes that may follow the first byte.
\<close>

definition utf8_width :: "char \<Rightarrow> nat" where
  "utf8_width a =
     (if in_range 0 0x7F a then 1 else if in_range 0xC2 0xDF a then 2
      else if in_range 0xE0 0xEF a then 3 else if in_range 0xF0 0xF4 a then 4 else 0)"

definition utf8_second :: "char \<Rightarrow> char \<Rightarrow> bool" where
  "utf8_second a b =
     (if in_range 0xE0 0xE0 a then in_range 0xA0 0xBF b
      else if in_range 0xED 0xED a then in_range 0x80 0x9F b
      else if in_range 0xF0 0xF0 a then in_range 0x90 0xBF b
      else if in_range 0xF4 0xF4 a then in_range 0x80 0x8F b
      else utf8_cont b)"

definition utf8_more :: "char \<Rightarrow> string \<Rightarrow> nat" where
  "utf8_more a s =
     (case s of
        b # s' \<Rightarrow> (if utf8_width a > 1 \<and> utf8_second a b
                   then 1 + length (takeWhile utf8_cont (take (utf8_width a - 2) s')) else 0)
      | [] \<Rightarrow> 0)"

definition REPLACEMENT :: string where
  "REPLACEMENT = [CHR 0xEF, CHR 0xBF, CHR 0xBD]"

fun utf8_lossy :: "string \<Rightarrow> string" where
  "utf8_lossy [] = []"
| "utf8_lossy (a # s) =
     (let n = utf8_more a s
      in (if utf8_width a = Suc n then a # take n s else REPLACEMENT) @ utf8_lossy (drop n s))"

lemma utf8_widths:
  "in_range 0 0x7F a \<Longrightarrow> utf8_width a = 1"
  "in_range 0xC2 0xDF a \<Longrightarrow> utf8_width a = 2"
  "in_range 0xE0 0xEF a \<Longrightarrow> utf8_width a = 3"
  "in_range 0xF0 0xF4 a \<Longrightarrow> utf8_width a = 4"
  by (simp_all add: utf8_width_def in_range_def)

lemma utf8_seconds:
  "in_range 0xC2 0xDF a \<Longrightarrow> utf8_second a b = utf8_cont b"
  "in_range 0xE0 0xEF a \<Longrightarrow> utf8_second a b =
     (if in_range 0xE0 0xE0 a then in_range 0xA0 0xBF b
      else if in_range 0xED 0xED a then in_range 0x80 0x9F b else utf8_cont b)"
  "in_range 0xF0 0xF4 a \<Longrightarrow> utf8_second a b =
     (if in_range 0xF0 0xF0 a then in_range 0x90 0xBF b
      else if in_range 0xF4 0xF4 a then in_range 0x80 0x8F b else utf8_cont b)"
  by (simp_all add: utf8_second_def in_range_def)

text \<open>A string is valid when its first sequence is complete and what follows is valid.\<close>

lemma valid_utf8_Cons:
  "valid_utf8 (a # s) \<longleftrightarrow> utf8_width a = Suc (utf8_more a s) \<and> valid_utf8 (drop (utf8_more a s) s)"
proof -
  consider (one) "in_range 0 0x7F a" | (two) "in_range 0xC2 0xDF a" | (three) "in_range 0xE0 0xEF a"
    | (four) "in_range 0xF0 0xF4 a"
    | (bad) "\<not> in_range 0 0x7F a" "\<not> in_range 0xC2 0xDF a" "\<not> in_range 0xE0 0xEF a" "\<not> in_range 0xF0 0xF4 a"
    by blast
  then show ?thesis
  proof cases
    case one
    then show ?thesis by (cases s) (simp_all add: utf8_widths utf8_more_def)
  next
    case two
    then have "\<not> in_range 0 0x7F a" by (simp add: in_range_def)
    with two show ?thesis by (cases s) (simp_all add: utf8_widths utf8_seconds utf8_more_def)
  next
    case three
    then have "\<not> in_range 0 0x7F a" "\<not> in_range 0xC2 0xDF a" by (simp_all add: in_range_def)
    with three show ?thesis
      by (cases s; cases "tl s") (auto simp: utf8_widths utf8_seconds utf8_more_def)
  next
    case four
    then have "\<not> in_range 0 0x7F a" "\<not> in_range 0xC2 0xDF a" "\<not> in_range 0xE0 0xEF a" by (simp_all add: in_range_def)
    with four show ?thesis
      by (cases s; cases "tl s"; cases "tl (tl s)")
        (auto simp: utf8_widths utf8_seconds utf8_more_def numeral_2_eq_2)
  next
    case bad
    then have "utf8_width a = 0" by (simp only: utf8_width_def if_False)
    with bad show ?thesis by simp
  qed
qed

lemma utf8_lossy_valid: "valid_utf8 s \<Longrightarrow> utf8_lossy s = s"
  by (induction s rule: utf8_lossy.induct) (simp_all add: valid_utf8_Cons Let_def del: valid_utf8.simps(2))

lemma valid_utf8_append: "valid_utf8 s \<Longrightarrow> \<forall>c \<in> set p. in_range 0 0x7F c \<Longrightarrow> valid_utf8 (p @ s)"
  by (induction p) auto

section \<open>One request\<close>

datatype http_exchange =
    HxRefused
  | HxSetup string
  | HxBroken
  | HxAnswer string

definition http_request :: "string \<Rightarrow> string" where
  "http_request path =
     ''GET '' @ path @ '' HTTP/1.1'' @ crlf @ ''Host: localhost'' @ crlf @ ''Connection: close'' @ crlf @ crlf"

definition parse_http :: "string \<Rightarrow> nat \<times> string" where
  "parse_http response =
     (let status = (case split_whitespace response of
            _ # s # _ \<Rightarrow> (case parse_uint 65536 s of Some n \<Rightarrow> n | None \<Rightarrow> 0)
          | _ \<Rightarrow> 0);
          body = (case split_once (crlf @ crlf) response of None \<Rightarrow> [] | Some (_, body) \<Rightarrow> body)
      in (status, body))"

text \<open>The peer gets the request and says what came of the exchange.\<close>

definition http_get :: "(string \<Rightarrow> http_exchange) \<Rightarrow> string \<Rightarrow> string + (nat \<times> string) option" where
  "http_get peer path =
     (case peer (http_request path) of
        HxRefused \<Rightarrow> Inr None
      | HxSetup e \<Rightarrow> Inl e
      | HxBroken \<Rightarrow> Inr None
      | HxAnswer raw \<Rightarrow> Inr (Some (parse_http (utf8_lossy raw))))"

text \<open>The client of the secondary experiment: every failure is an error, the text is not parsed.\<close>

datatype http_error = HeAddress | HeConnect | HeSetup string | HeIo | HeUtf8

definition secondary_http_get :: "(string \<Rightarrow> http_exchange) \<Rightarrow> string \<Rightarrow> string \<Rightarrow> http_error + string" where
  "secondary_http_get peer addr path =
     (if parse_socket_addr addr = None then Inl HeAddress
      else (case peer (http_request path) of
        HxRefused \<Rightarrow> Inl HeConnect
      | HxSetup e \<Rightarrow> Inl (HeSetup e)
      | HxBroken \<Rightarrow> Inl HeIo
      | HxAnswer raw \<Rightarrow> if valid_utf8 raw then Inr raw else Inl HeUtf8))"

definition readyz_ok :: "(string \<Rightarrow> http_exchange) \<Rightarrow> string \<Rightarrow> bool" where
  "readyz_ok peer control =
     (case secondary_http_get peer control ''/readyz'' of
        Inr r \<Rightarrow> strip_prefix ''HTTP/1.1 200'' r \<noteq> None
      | Inl _ \<Rightarrow> False)"

section \<open>The daemon process\<close>

text \<open>
  The handle of a started process as the standard library keeps it: the status found by the
  call that reaped the process stays in the handle, and from then on no call reaches the
  operating system. An exit status is the exit code, \<open>None\<close> when a signal ended the process.
\<close>

type_synonym exit_status = "int option"

record child =
  ch_pid :: u32
  ch_status :: "exit_status option"

text \<open>What happens to a process, in order.\<close>

datatype process_effect = EfSpawn u32 | EfTerm u32 | EfKill u32 | EfReap u32

definition child_try_wait ::
  "string + exit_status option \<Rightarrow> child \<Rightarrow> (string + exit_status option) \<times> child \<times> process_effect list" where
  "child_try_wait os c =
     (case ch_status c of
        Some s \<Rightarrow> (Inr (Some s), c, [])
      | None \<Rightarrow> (case os of
            Inr (Some s) \<Rightarrow> (Inr (Some s), c\<lparr>ch_status := Some s\<rparr>, [EfReap (ch_pid c)])
          | _ \<Rightarrow> (os, c, [])))"

text \<open>\<open>kill\<close> followed by \<open>wait\<close>, results ignored: what both drop handlers do.\<close>

definition kill_and_wait :: "child option \<Rightarrow> process_effect list" where
  "kill_and_wait c =
     (case c of
        Some c \<Rightarrow> (if ch_status c = None then [EfKill (ch_pid c), EfReap (ch_pid c)] else [])
      | None \<Rightarrow> [])"

record daemon_process =
  dp_child :: "child option"
  dp_spawned_at :: instant

datatype process_error =
    PeSpawn string
  | PeReaped
  | PeWait string
  | PeExitedEarly
  | PeNeverReady
  | PeHttp string
  | PeKill string
  | PeKillFailed u32
  | PeNoExit

type_synonym 'a process_step = "(process_error + 'a) \<times> daemon_process \<times> process_effect list"

definition READY_DEADLINE :: duration where "READY_DEADLINE = 10000000000"
definition EXIT_DEADLINE :: duration where "EXIT_DEADLINE = 10000000000"

definition process_spawn :: "string + u32 \<Rightarrow> instant \<Rightarrow> process_error + daemon_process" where
  "process_spawn child now =
     bind_res (map_err PeSpawn child)
       (\<lambda>p. Inr \<lparr> dp_child = Some \<lparr> ch_pid = p, ch_status = None \<rparr>, dp_spawned_at = now \<rparr>)"

definition process_pid :: "daemon_process \<Rightarrow> u32" where
  "process_pid dp = (case dp_child dp of Some c \<Rightarrow> ch_pid c | None \<Rightarrow> 0)"

definition process_exited :: "string + exit_status option \<Rightarrow> daemon_process \<Rightarrow> bool process_step" where
  "process_exited os dp =
     (case dp_child dp of
        None \<Rightarrow> (Inl PeReaped, dp, [])
      | Some c \<Rightarrow>
          (let (r, c, es) = child_try_wait os c
           in (bind_res (map_err PeWait r) (\<lambda>status. Inr (status \<noteq> None)), dp\<lparr>dp_child := Some c\<rparr>, es)))"

record ready_poll =
  ry_wait :: "string + exit_status option"
  ry_peer :: "string \<Rightarrow> http_exchange"
  ry_now :: instant

definition process_ready :: "ready_poll \<Rightarrow> daemon_process \<Rightarrow> bool process_step" where
  "process_ready p dp =
     (case process_exited (ry_wait p) dp of
        (Inl e, dp, es) \<Rightarrow> (Inl e, dp, es)
      | (Inr gone, dp, es) \<Rightarrow>
          ((if gone then Inl PeExitedEarly
            else bind_res (map_err PeHttp (http_get (ry_peer p) ''/readyz''))
                   (\<lambda>r. Inr (case r of Some (status, _) \<Rightarrow> status = 200 | None \<Rightarrow> False))), dp, es))"

text \<open>
  The loop: each poll reads the clock once after the probe, for the deadline when the daemon
  is not ready and for the elapsed time when it is. \<open>None\<close>: still polling when the list ends.
\<close>

fun wait_ready_loop :: "instant \<Rightarrow> ready_poll list \<Rightarrow> daemon_process \<Rightarrow> duration process_step option" where
  "wait_ready_loop deadline [] dp = None"
| "wait_ready_loop deadline (p # ps) dp =
     (case process_ready p dp of
        (Inl e, dp, es) \<Rightarrow> Some (Inl e, dp, es)
      | (Inr True, dp, es) \<Rightarrow> Some (Inr (ry_now p - dp_spawned_at dp), dp, es)
      | (Inr False, dp, es) \<Rightarrow>
          (if ry_now p > deadline then Some (Inl PeNeverReady, dp, es)
           else map_option (\<lambda>(r, dp, es'). (r, dp, es @ es')) (wait_ready_loop deadline ps dp)))"

definition wait_ready :: "instant \<Rightarrow> ready_poll list \<Rightarrow> daemon_process \<Rightarrow> duration process_step option" where
  "wait_ready start polls dp = wait_ready_loop (start + READY_DEADLINE) polls dp"

text \<open>The shell runs \<open>kill -TERM\<close> on the pid; \<open>shell\<close> says whether it ran and succeeded.\<close>

definition send_sigterm :: "string + bool \<Rightarrow> daemon_process \<Rightarrow> (process_error + unit) \<times> process_effect list" where
  "send_sigterm shell dp =
     (case shell of
        Inl e \<Rightarrow> (Inl (PeKill e), [])
      | Inr success \<Rightarrow>
          (if success then Inr () else Inl (PeKillFailed (process_pid dp)), [EfTerm (process_pid dp)]))"

record exit_poll =
  xp_wait :: "string + exit_status option"
  xp_now :: instant

fun exit_loop :: "instant \<Rightarrow> instant \<Rightarrow> exit_poll list \<Rightarrow> daemon_process \<Rightarrow> duration process_step option" where
  "exit_loop sent deadline [] dp = None"
| "exit_loop sent deadline (p # ps) dp =
     (case process_exited (xp_wait p) dp of
        (Inl e, dp, es) \<Rightarrow> Some (Inl e, dp, es)
      | (Inr True, dp, es) \<Rightarrow> Some (Inr (xp_now p - sent), dp, es)
      | (Inr False, dp, es) \<Rightarrow>
          (if xp_now p > deadline then Some (Inl PeNoExit, dp, es)
           else map_option (\<lambda>(r, dp, es'). (r, dp, es @ es')) (exit_loop sent deadline ps dp)))"

text \<open>After the loop the child is taken out of the handle; its \<open>wait\<close> returns the kept status.\<close>

definition process_terminate ::
  "instant \<Rightarrow> string + bool \<Rightarrow> exit_poll list \<Rightarrow> daemon_process \<Rightarrow> (duration \<times> exit_status) process_step option" where
  "process_terminate sent shell polls dp =
     (case send_sigterm shell dp of
        (Inl e, es) \<Rightarrow> Some (Inl e, dp, es)
      | (Inr _, es) \<Rightarrow>
          (case exit_loop sent (sent + EXIT_DEADLINE) polls dp of
             None \<Rightarrow> None
           | Some (Inl e, dp, es') \<Rightarrow> Some (Inl e, dp, es @ es')
           | Some (Inr exit, dp, es') \<Rightarrow>
               (case dp_child dp of
                  None \<Rightarrow> Some (Inl PeReaped, dp, es @ es')
                | Some c \<Rightarrow>
                    Some (Inr (exit, case ch_status c of Some s \<Rightarrow> s | None \<Rightarrow> None), dp\<lparr>dp_child := None\<rparr>, es @ es'))))"

definition process_drop :: "daemon_process \<Rightarrow> process_effect list" where
  "process_drop dp = kill_and_wait (dp_child dp)"

section \<open>The daemon process of the secondary experiment\<close>

record startup_poll =
  sp_peer :: "string \<Rightarrow> http_exchange"
  sp_wait :: "string + exit_status option"
  sp_elapsed :: duration

text \<open>Each poll: the probe, the child, the clock, in this order.\<close>

fun secondary_wait_ready ::
  "string \<Rightarrow> startup_poll list \<Rightarrow> child \<Rightarrow> ((process_error + u64) \<times> child \<times> process_effect list) option" where
  "secondary_wait_ready control [] c = None"
| "secondary_wait_ready control (p # ps) c =
     (if readyz_ok (sp_peer p) control then Some (Inr (of_nat (sp_elapsed p div 1000000)), c, [])
      else (case child_try_wait (sp_wait p) c of
          (Inl e, c, es) \<Rightarrow> Some (Inl (PeWait e), c, es)
        | (Inr (Some status), c, es) \<Rightarrow> Some (Inl PeExitedEarly, c, es)
        | (Inr None, c, es) \<Rightarrow>
            (if sp_elapsed p > READY_DEADLINE then Some (Inl PeNeverReady, c, es)
             else map_option (\<lambda>(r, c, es'). (r, c, es @ es')) (secondary_wait_ready control ps c))))"

text \<open>\<open>wait_for\<close>: each poll is the value of the condition and the time elapsed after it.\<close>

fun wait_for :: "duration \<Rightarrow> (bool \<times> duration) list \<Rightarrow> bool option" where
  "wait_for deadline [] = None"
| "wait_for deadline ((holds, elapsed) # ps) =
     (if holds then Some True else if elapsed > deadline then Some False else wait_for deadline ps)"

text \<open>Each poll is the time elapsed before it and what the child says.\<close>

fun wait_for_exit ::
  "(duration \<times> (string + exit_status option)) list \<Rightarrow> child
     \<Rightarrow> ((process_error + exit_status option) \<times> child \<times> process_effect list) option" where
  "wait_for_exit [] c = None"
| "wait_for_exit ((elapsed, os) # ps) c =
     (if elapsed > EXIT_DEADLINE then Some (Inr None, c, [])
      else (case child_try_wait os c of
          (Inl e, c, es) \<Rightarrow> Some (Inl (PeWait e), c, es)
        | (Inr (Some status), c, es) \<Rightarrow> Some (Inr (Some status), c, es)
        | (Inr None, c, es) \<Rightarrow> map_option (\<lambda>(r, c, es'). (r, c, es @ es')) (wait_for_exit ps c)))"

record exit_info =
  ei_sigterm_sent :: bool
  ei_status :: "exit_status option"
  ei_exit_ns :: duration

definition EXIT_BUDGET :: duration where "EXIT_BUDGET = 2000000000"

text \<open>The fields \<open>exit_status_code\<close>, \<open>exit_success\<close> and \<open>exit_within_budget\<close> of the summary.\<close>

definition exit_fields :: "exit_info \<Rightarrow> int option \<times> bool \<times> bool" where
  "exit_fields ei =
     (Option.bind (ei_status ei) (\<lambda>code. code), ei_status ei = Some (Some 0),
      ei_status ei \<noteq> None \<and> ei_exit_ns ei \<le> EXIT_BUDGET)"

definition secondary_terminate ::
  "string + bool \<Rightarrow> (duration \<times> (string + exit_status option)) list \<Rightarrow> duration \<Rightarrow> u32 \<Rightarrow> child
     \<Rightarrow> ((process_error + exit_info) \<times> child option \<times> process_effect list) option" where
  "secondary_terminate kill polls elapsed p c =
     (case kill of
        Inl e \<Rightarrow> Some (Inl (PeKill e), Some c, [])
      | Inr success \<Rightarrow>
          (case wait_for_exit polls c of
             None \<Rightarrow> None
           | Some (Inl e, c, es) \<Rightarrow> Some (Inl e, Some c, EfTerm p # es)
           | Some (Inr status, c, es) \<Rightarrow>
               Some (Inr \<lparr> ei_sigterm_sent = success, ei_status = status, ei_exit_ns = elapsed \<rparr>,
                 if status \<noteq> None then None else Some c, EfTerm p # es)))"

section \<open>The client reads what the server rendered\<close>

lemma split_once_line:
  assumes "CR \<notin> set l"
  shows "split_once (crlf @ crlf) (l @ crlf @ s) =
    (case strip_prefix crlf s of
       Some r \<Rightarrow> Some (l, r)
     | None \<Rightarrow> map_option (\<lambda>(a, b). (l @ crlf @ a, b)) (split_once (crlf @ crlf) s))"
  using assms
proof (induction l)
  case Nil
  have "LF \<noteq> CR" by (simp add: LF_def CR_def)
  then show ?case
    by (simp add: crlf_def option.map_comp comp_def case_prod_beta split: option.split)
next
  case (Cons c l)
  then show ?case
    by (auto simp: crlf_def option.map_comp comp_def case_prod_beta split: option.split)
qed

lemma show_nat_digits: "list_all is_ascii_digit (show_nat n)"
proof (induction n rule: show_nat.induct)
  case (1 n)
  have "is_ascii_digit (digit_char d)" if "d < 10" for d
    using of_char_digit_char [OF that] that by (simp add: is_ascii_digit_def less_eq_char_def)
  with 1 show ?case by (subst show_nat.simps) simp
qed

lemma parse_uint_show: "n < bound \<Longrightarrow> parse_uint bound (show_nat n) = Some n"
proof -
  have "hd (show_nat n) \<noteq> CHR ''+''"
    using show_nat_digits [of n] show_nat_nonempty [of n]
    by (cases "show_nat n") (auto simp: is_ascii_digit_def less_eq_char_def simp del: show_nat_nonempty)
  then show "n < bound \<Longrightarrow> parse_uint bound (show_nat n) = Some n"
    by (simp add: parse_uint_def show_nat_digits)
qed

lemma digits_visible: "list_all is_ascii_digit w \<Longrightarrow> list_all visible w"
  by (auto simp: list_all_iff is_ascii_digit_def visible_def in_range_def less_eq_char_def)

lemma second_word:
  assumes "list_all visible v" "v \<noteq> []" "list_all visible w" "w \<noteq> []"
  shows "split_whitespace (v @ '' '' @ w @ '' '' @ s) = v # w # split_whitespace s"
  using assms by (simp add: split_whitespace_def split_space_word del: split_space.simps(2))

lemma response_body:
  assumes "CR \<notin> set ct"
  shows "\<exists>h. split_once (crlf @ crlf) (http_response st ct body) = Some (h, body)"
proof -
  have sp: "CR \<noteq> CHR '' ''" by (simp add: CR_def)
  have no: "CR \<notin> set (''HTTP/1.1 '' @ show_nat st @ '' '' @ http_reason st)" "CR \<notin> set (''Content-Type: '' @ ct)"
    "CR \<notin> set (''Content-Length: '' @ show_nat (length body))" "CR \<notin> set ''Connection: close''"
    using assms show_nat_plain by (auto simp: CR_def http_reason_no_cr [unfolded CR_def])
  have eq: "http_response st ct body =
      (''HTTP/1.1 '' @ show_nat st @ '' '' @ http_reason st) @ crlf @ (''Content-Type: '' @ ct) @ crlf @
      (''Content-Length: '' @ show_nat (length body)) @ crlf @ ''Connection: close'' @ crlf @ crlf @ body"
    by (simp add: http_response_def)
  have head: "strip_prefix crlf ((''Content-Type: '' @ r) @ t) = None" "strip_prefix crlf ((''Content-Length: '' @ r) @ t) = None"
    "strip_prefix crlf (''Connection: close'' @ r) = None" for r t
    by (simp_all add: crlf_def CR_def)
  have body: "split_once (crlf @ crlf) (''Connection: close'' @ crlf @ crlf @ body) = Some (''Connection: close'', body)"
    using split_once_line [OF no(4), of "crlf @ body"] by simp
  show ?thesis
    unfolding eq
    by (simp only: body split_once_line [OF no(1)] split_once_line [OF no(2)] split_once_line [OF no(3)] head
        option.case option.map prod.case) simp
qed

lemma parse_http_response_text:
  assumes "CR \<notin> set ct" "st < 65536"
  shows "parse_http (http_response st ct body) = (st, body)"
proof -
  have "list_all visible ''HTTP/1.1''" by (simp add: visible_def in_range_def)
  then have "split_whitespace (''HTTP/1.1'' @ '' '' @ show_nat st @ '' '' @ s) =
      ''HTTP/1.1'' # show_nat st # split_whitespace s" for s
    by (rule second_word) (simp_all add: digits_visible show_nat_digits)
  then have "\<exists>ws. split_whitespace (http_response st ct body) = ''HTTP/1.1'' # show_nat st # ws"
    by (simp add: http_response_def Let_def)
  moreover obtain h where "split_once (crlf @ crlf) (http_response st ct body) = Some (h, body)"
    using response_body [OF assms(1)] by blast
  ultimately show ?thesis
    using parse_uint_show [OF assms(2)] by (auto simp: parse_http_def)
qed

section \<open>The control surface as the peer\<close>

text \<open>The daemon's side of an exchange: the request arrives in some non-empty pieces.\<close>

definition control_peer ::
  "(health_snapshot \<Rightarrow> string option) \<Rightarrow> instant \<Rightarrow> (string \<Rightarrow> string list) \<Rightarrow> health_handle \<Rightarrow> string \<Rightarrow> http_exchange" where
  "control_peer to_json now split h req =
     (case handle_connection to_json now (map RdData (split req)) (IoOk ()) h of
        Inr resp \<Rightarrow> HxAnswer resp
      | Inl _ \<Rightarrow> HxBroken)"

definition in_pieces :: "(string \<Rightarrow> string list) \<Rightarrow> bool" where
  "in_pieces split \<longleftrightarrow> (\<forall>req. concat (split req) = req \<and> [] \<notin> set (split req))"

text \<open>What the client is to get: \<open>busy\<close> while the health state is written, else the routed answer.\<close>

definition control_answer ::
  "(health_snapshot \<Rightarrow> string option) \<Rightarrow> instant \<Rightarrow> health_handle \<Rightarrow> string \<Rightarrow> nat \<times> string \<times> string" where
  "control_answer to_json now h path =
     (if hh_writer h then (503, text_plain, ''busy'' @ nl)
      else route to_json (path_without_query path) (handle_snapshot now h))"

text \<open>The server stops reading somewhere after the end of the request line.\<close>

lemma read_to_line_end:
  assumes "[] \<notin> set ds" "LF \<in> set (buf @ concat ds)" "LF \<notin> set buf" "length (buf @ concat ds) \<le> REQUEST_BUF"
  shows "\<exists>p r. read_request_line buf (map RdData ds @ later) = IoOk p \<and> buf @ concat ds = p @ r \<and> LF \<in> set p"
  using assms
proof (induction ds arbitrary: buf)
  case (Cons d ds)
  have d: "0 < length d" "length buf + length d \<le> REQUEST_BUF" using Cons.prems(1,4) by auto
  then have got: "take (REQUEST_BUF - length buf) d = d" and lt: "length buf < REQUEST_BUF" by (simp, linarith)
  show ?case
  proof (cases "LF \<in> set (buf @ d)")
    case True
    then show ?thesis
      using d lt got by (intro exI [of _ "buf @ d"] exI [of _ "concat ds"]) (simp add: request_line_complete_def Let_def)
  next
    case False
    have "\<exists>p r. read_request_line (buf @ d) (map RdData ds @ later) = IoOk p \<and> (buf @ d) @ concat ds = p @ r \<and> LF \<in> set p"
      by (rule Cons.IH) (use Cons.prems False in auto)
    then show ?thesis using d lt got False by (simp add: request_line_complete_def Let_def)
  qed
qed simp

lemma first_line_prefix:
  assumes "l @ crlf @ t = p @ r" "LF \<notin> set l" "LF \<in> set p"
  shows "first_line p = Some l"
proof -
  obtain p1 p2 where p: "p = p1 @ LF # p2" "LF \<notin> set p1" using assms(3) by (metis split_list_first)
  have "LF \<notin> set (l @ [CR])" using assms(2) by (simp add: LF_def CR_def)
  have before: "takeWhile (\<lambda>c. c \<noteq> LF) (xs @ LF # ys) = xs" if "LF \<notin> set xs" for xs ys
    using that by (subst takeWhile_append2) auto
  have "(l @ [CR]) @ LF # t = p1 @ LF # (p2 @ r)" using assms(1) p(1) by (simp add: crlf_def)
  then have "p1 = l @ [CR]"
    using before [OF \<open>LF \<notin> set (l @ [CR])\<close>] before [OF p(2)] by metis
  then show ?thesis using first_line_crlf [OF assms(2), of p2] by (simp add: p crlf_def)
qed

lemma visible_ascii: "visible c \<Longrightarrow> in_range 0 0x7F c \<and> c \<noteq> LF \<and> c \<noteq> CR"
  by (auto simp: visible_def in_range_def LF_def CR_def)

lemma peer_answers:
  assumes split: "in_pieces split"
    and path: "list_all visible path" "path \<noteq> []" "length (http_request path) \<le> REQUEST_BUF"
  shows "control_peer to_json now split h (http_request path) =
    HxAnswer (case control_answer to_json now h path of (status, content_type, body) \<Rightarrow>
      http_response status content_type body)"
proof -
  let ?req = "http_request path" and ?line = "''GET'' @ '' '' @ path @ '' HTTP/1.1''"
  let ?ds = "split (http_request path)"
  have req: "?req = ?line @ crlf @ (''Host: localhost'' @ crlf @ ''Connection: close'' @ crlf @ crlf)"
    by (simp add: http_request_def)
  have ds: "[] \<notin> set ?ds" "concat ?ds = ?req" using split by (simp_all add: in_pieces_def)
  have lf: "LF \<in> set ?req" by (simp add: http_request_def crlf_def)
  have "LF \<in> set ([] @ concat ?ds)" "length ([] @ concat ?ds) \<le> REQUEST_BUF" using lf path(3) by (simp_all only: ds append_Nil)
  from read_to_line_end [OF ds(1) this(1) _ this(2), of "[]"]
  obtain p r where p: "read_request_line [] (map RdData ?ds) = IoOk p" "?req = p @ r" "LF \<in> set p"
    by (auto simp: ds)
  have ascii: "\<forall>c \<in> set ?line. in_range 0 0x7F c \<and> c \<noteq> LF"
    using path(1) visible_ascii by (auto simp: list_all_iff in_range_def LF_def)
  have "first_line p = Some ?line"
    by (rule first_line_prefix) (use p(2,3) ascii in \<open>auto simp: req\<close>)
  moreover have "eq_ignore_ascii_case ''GET'' ''GET''" by (simp add: eq_ignore_ascii_case_def)
  ultimately have get: "parse_get_path p = PrGet (path_without_query path)"
    using request_line_get [of "''GET''" path] path(1,2) by (simp add: parse_get_path_def)
  have "\<forall>c \<in> set ?req. in_range 0 0x7F c"
    using ascii by (auto simp: req crlf_def in_range_def CR_def LF_def)
  then have "valid_utf8 p" by (intro ascii_valid_utf8) (auto simp: p(2))
  then have "control_peer to_json now split h ?req = HxAnswer (control_response to_json now p h)"
    by (simp add: control_peer_def handle_connection_def read_http_request_def p(1) timed_io_def
        write_http_response_def)
  then show ?thesis
    by (simp add: control_answer_def control_response_def try_snapshot_eq render_http_def get busy_http_def
        case_prod_beta)
qed

lemma http_response_utf8:
  assumes "valid_utf8 body" "\<forall>c \<in> set ct. in_range 0 0x7F c"
  shows "valid_utf8 (http_response st ct body)"
proof -
  have "\<forall>c \<in> set (show_nat n). in_range 0 0x7F c" for n
    using digits_visible [OF show_nat_digits, of n] visible_ascii by (auto simp: list_all_iff)
  moreover have "\<forall>c \<in> set (http_reason st). in_range 0 0x7F c" by (simp add: http_reason_def in_range_def)
  ultimately show ?thesis
    unfolding http_response_def Let_def append_assoc [symmetric]
    by (intro valid_utf8_append assms(1)) (use assms(2) in \<open>auto simp: crlf_def CR_def LF_def in_range_def\<close>)
qed

lemma answer_plain:
  "\<forall>c \<in> set (fst (snd (control_answer to_json now h path))). in_range 0 0x7F c \<and> c \<noteq> CR"
  "fst (control_answer to_json now h path) < 65536"
  by (auto simp: control_answer_def route_def probe_def text_plain_def in_range_def CR_def)

lemma readyz_answer:
  "control_answer to_json now h ''/readyz'' =
    (if hh_writer h then (503, text_plain, ''busy'' @ nl)
     else probe (sn_ready (handle_snapshot now h)) (''ready'' @ nl) (''not ready'' @ nl))"
proof -
  have "path_without_query ''/readyz'' = ''/readyz''" by code_simp
  then show ?thesis by (simp add: control_answer_def route_def)
qed

lemma http_get_peer:
  assumes split: "in_pieces split"
    and path: "list_all visible path" "path \<noteq> []" "length (http_request path) \<le> REQUEST_BUF"
    and body: "valid_utf8 (snd (snd (control_answer to_json now h path)))"
  shows "http_get (control_peer to_json now split h) path =
    Inr (Some (case control_answer to_json now h path of (status, content_type, body) \<Rightarrow> (status, body)))"
proof -
  obtain st ct b where a: "control_answer to_json now h path = (st, ct, b)" by (metis prod_cases3)
  have "valid_utf8 (http_response st ct b)"
    using http_response_utf8 answer_plain(1) [of to_json now h path] body by (simp add: a)
  moreover have "parse_http (http_response st ct b) = (st, b)"
    using parse_http_response_text answer_plain [of to_json now h path] by (auto simp: a)
  ultimately show ?thesis
    by (simp add: http_get_def peer_answers [OF split path] a utf8_lossy_valid)
qed

lemma nl_utf8: "valid_utf8 (''ready'' @ nl)" "valid_utf8 (''not ready'' @ nl)" "valid_utf8 (''busy'' @ nl)"
  by (simp_all add: nl_def in_range_def)

lemma readyz_request: "list_all visible ''/readyz''" "length (http_request ''/readyz'') \<le> REQUEST_BUF"
  by (simp_all add: visible_def in_range_def http_request_def crlf_def REQUEST_BUF_def)

lemma readyz_utf8: "valid_utf8 (snd (snd (control_answer to_json now h ''/readyz'')))"
  using nl_utf8 by (simp add: readyz_answer probe_def del: append.simps)

text \<open>
  The client of the experiments reads what the control surface rendered: for any target it
  can ask for, in whatever pieces the request arrives, it gets the status and the body, byte
  for byte, that the router chose for the health state at that moment, or the \<open>busy\<close> answer
  while that state is being written.
\<close>

theorem client_reads_server:
  assumes split: "in_pieces split"
    and path: "list_all visible path" "path \<noteq> []" "length (http_request path) \<le> REQUEST_BUF"
    and body: "valid_utf8 (snd (snd (route to_json (path_without_query path) (handle_snapshot now h))))"
  shows "http_get (control_peer to_json now split h) path =
    Inr (Some (if hh_writer h then (503, ''busy'' @ nl)
      else case route to_json (path_without_query path) (handle_snapshot now h) of
        (status, content_type, body) \<Rightarrow> (status, body)))"
  by (subst http_get_peer [OF split path])
    (use body nl_utf8(3) in \<open>simp_all add: control_answer_def del: append.simps\<close>)

theorem client_reads_server_witness:
  "http_get (control_peer demo_to_json 5 (map (\<lambda>c. [c])) (handle_started health_limits_default 0)) ''/livez?x'' =
     Inr (Some (200, ''live'' @ nl))"
proof -
  let ?h = "handle_started health_limits_default 0"
  have h: "\<not> hh_writer ?h" "sn_live (handle_snapshot 5 ?h)"
    by (simp_all add: handle_started_def handle_from_machine_def handle_snapshot_def snapshot_def health_apply_defs
        health_new_def Let_def)
  have "path_without_query ''/livez?x'' = ''/livez''" by code_simp
  with h have r: "route demo_to_json (path_without_query ''/livez?x'') (handle_snapshot 5 ?h) =
      (200, text_plain, ''live'' @ nl)"
    by (simp add: route_def probe_def)
  have "in_pieces (map (\<lambda>c. [c]))" by (simp add: in_pieces_def image_iff)
  moreover have "list_all visible ''/livez?x''" "length (http_request ''/livez?x'') \<le> REQUEST_BUF"
    by (simp_all add: visible_def in_range_def http_request_def crlf_def REQUEST_BUF_def)
  moreover have "valid_utf8 (''live'' @ nl)" by (simp add: nl_def in_range_def)
  ultimately show ?thesis
    using client_reads_server [of "map (\<lambda>c. [c])" "''/livez?x''" demo_to_json 5 ?h] h(1)
    by (simp add: r del: append.simps)
qed

section \<open>Waiting until the daemon is ready\<close>

text \<open>What a poll finds: no listener yet, or the control surface over some health state.\<close>

definition surface ::
  "(health_snapshot \<Rightarrow> string option) \<Rightarrow> (string \<Rightarrow> string list) \<Rightarrow> (instant \<times> health_handle) option
     \<Rightarrow> string \<Rightarrow> http_exchange" where
  "surface to_json split found =
     (case found of None \<Rightarrow> (\<lambda>_. HxRefused) | Some (now, h) \<Rightarrow> control_peer to_json now split h)"

definition surface_ready :: "(instant \<times> health_handle) option \<Rightarrow> bool" where
  "surface_ready found =
     (case found of None \<Rightarrow> False | Some (now, h) \<Rightarrow> \<not> hh_writer h \<and> sn_ready (handle_snapshot now h))"

lemma surface_status:
  assumes "in_pieces split"
  shows "\<exists>r. http_get (surface to_json split found) ''/readyz'' = Inr r \<and>
    (case r of Some (status, _) \<Rightarrow> status = 200 | None \<Rightarrow> False) = surface_ready found"
proof (cases found)
  case (Some f)
  obtain now h where f: "f = (now, h)" by fastforce
  have "http_get (control_peer to_json now split h) ''/readyz'' =
      Inr (Some (case control_answer to_json now h ''/readyz'' of (status, content_type, body) \<Rightarrow> (status, body)))"
    by (rule http_get_peer [OF assms readyz_request(1) _ readyz_request(2) readyz_utf8]) simp
  then show ?thesis
    by (simp add: Some f surface_def surface_ready_def readyz_answer probe_def)
qed (simp add: surface_def surface_ready_def http_get_def)

lemma surface_readyz_ok:
  assumes "in_pieces split" "parse_socket_addr addr \<noteq> None"
  shows "readyz_ok (surface to_json split found) addr = surface_ready found"
proof (cases found)
  case (Some f)
  obtain now h where f: "f = (now, h)" by fastforce
  have "\<forall>c \<in> set text_plain. in_range 0 0x7F c" by (simp add: text_plain_def in_range_def)
  then have utf8: "valid_utf8 (http_response st text_plain b)" if "valid_utf8 b" for st b
    using http_response_utf8 that by blast
  have "show_nat 200 = ''200''" "show_nat 503 = ''503''" by code_simp+
  then have "strip_prefix ''HTTP/1.1 200'' (http_response 200 ct b) \<noteq> None"
    "strip_prefix ''HTTP/1.1 200'' (http_response 503 ct b) = None" for ct b
    by (simp_all add: http_response_def Let_def)
  with utf8 nl_utf8 show ?thesis
    using peer_answers [OF assms(1) readyz_request(1) _ readyz_request(2), of to_json now h] assms(2)
    by (auto simp: Some f surface_def surface_ready_def readyz_ok_def secondary_http_get_def readyz_answer
        probe_def simp del: append.simps)
qed (simp add: surface_def surface_ready_def readyz_ok_def secondary_http_get_def)

text \<open>The observations of a whole wait: what the child says, what the probe finds, the clock.\<close>

type_synonym startup = "(exit_status option \<times> (instant \<times> health_handle) option \<times> nat) list"

definition primary_polls ::
  "(health_snapshot \<Rightarrow> string option) \<Rightarrow> (string \<Rightarrow> string list) \<Rightarrow> startup \<Rightarrow> ready_poll list" where
  "primary_polls to_json split obs =
     map (\<lambda>(status, found, t). \<lparr> ry_wait = Inr status, ry_peer = surface to_json split found, ry_now = t \<rparr>) obs"

definition secondary_polls ::
  "(health_snapshot \<Rightarrow> string option) \<Rightarrow> (string \<Rightarrow> string list) \<Rightarrow> startup \<Rightarrow> startup_poll list" where
  "secondary_polls to_json split obs =
     map (\<lambda>(status, found, t). \<lparr> sp_peer = surface to_json split found, sp_wait = Inr status, sp_elapsed = t \<rparr>) obs"

definition still_waits :: "nat \<Rightarrow> exit_status option \<times> (instant \<times> health_handle) option \<times> nat \<Rightarrow> bool" where
  "still_waits deadline = (\<lambda>(status, found, t). status = None \<and> \<not> surface_ready found \<and> t \<le> deadline)"

text \<open>The wait is over with success at the first ready poll, if all before it are to wait.\<close>

definition ready_after ::
  "nat \<Rightarrow> (exit_status option \<Rightarrow> bool) \<Rightarrow> startup \<Rightarrow> nat \<Rightarrow> bool" where
  "ready_after deadline ok obs t \<longleftrightarrow>
     (\<exists>before status found later. obs = before @ (status, found, t) # later \<and> list_all (still_waits deadline) before \<and>
        ok status \<and> surface_ready found)"

lemma ready_after_Nil [simp]: "\<not> ready_after deadline ok [] t"
  by (simp add: ready_after_def)

lemma ready_after_Cons:
  "ready_after deadline ok ((status, found, u) # obs) t \<longleftrightarrow>
     ok status \<and> surface_ready found \<and> t = u \<or>
     still_waits deadline (status, found, u) \<and> ready_after deadline ok obs t"
  (is "?l \<longleftrightarrow> ?now \<or> ?then")
proof
  assume ?l
  then obtain before s f later where ob: "(status, found, u) # obs = before @ (s, f, t) # later"
    "list_all (still_waits deadline) before" "ok s" "surface_ready f" unfolding ready_after_def by blast
  show "?now \<or> ?then"
  proof (cases before)
    case Nil
    with ob show ?thesis by simp
  next
    case (Cons b before')
    with ob have "still_waits deadline (status, found, u)" "obs = before' @ (s, f, t) # later"
      "list_all (still_waits deadline) before'" by simp_all
    with ob(3,4) show ?thesis unfolding ready_after_def by blast
  qed
next
  assume "?now \<or> ?then"
  then show ?l
  proof
    assume ?now
    then show ?l unfolding ready_after_def by (intro exI [of _ "[]"]) auto
  next
    assume ?then
    then obtain before s f later where ob: "obs = before @ (s, f, t) # later"
      "list_all (still_waits deadline) ((status, found, u) # before)" "ok s" "surface_ready f"
      unfolding ready_after_def by auto
    then have "(status, found, u) # obs = ((status, found, u) # before) @ (s, f, t) # later" by simp
    with ob(2-4) show ?l unfolding ready_after_def by blast
  qed
qed

definition alive :: "u32 \<Rightarrow> child option \<Rightarrow> bool" where
  "alive p c \<longleftrightarrow> c = Some \<lparr> ch_pid = p, ch_status = None \<rparr>"

lemma primary_poll:
  assumes "in_pieces split" "alive p (dp_child dp)"
  shows "process_ready \<lparr> ry_wait = Inr status, ry_peer = surface to_json split found, ry_now = t \<rparr> dp =
    (case status of
       None \<Rightarrow> (Inr (surface_ready found), dp, [])
     | Some s \<Rightarrow> (Inl PeExitedEarly, dp\<lparr>dp_child := Some \<lparr> ch_pid = p, ch_status = Some s \<rparr>\<rparr>, [EfReap p]))"
proof -
  obtain r where r: "http_get (surface to_json split found) ''/readyz'' = Inr r"
    "(case r of Some (status, _) \<Rightarrow> status = 200 | None \<Rightarrow> False) = surface_ready found"
    using surface_status [OF assms(1)] by blast
  show ?thesis
    using assms(2)
    by (cases status) (simp_all add: process_ready_def process_exited_def child_try_wait_def alive_def r)
qed

lemma primary_waits:
  assumes "in_pieces split" "alive p (dp_child dp)"
  shows "wait_ready_loop deadline (primary_polls to_json split obs) dp = Some (Inr d, dp', es) \<longleftrightarrow>
      dp' = dp \<and> es = [] \<and> (\<exists>t. ready_after deadline (\<lambda>status. status = None) obs t \<and> d = t - dp_spawned_at dp)"
    and "wait_ready_loop deadline (primary_polls to_json split obs) dp = None \<longleftrightarrow> list_all (still_waits deadline) obs"
proof (induction obs)
  case (Cons ob obs)
  obtain status found t where ob: "ob = (status, found, t)" by (metis prod_cases3)
  note poll = primary_poll [OF assms]
  have id: "map_option (\<lambda>(r, dp, es'). (r, dp, [] @ es')) w = w" for w :: "duration process_step option"
    by (cases w) simp_all
  { case 1 show ?case
      using Cons.IH(1)
      by (cases status; cases "surface_ready found"; cases "t \<le> deadline")
        (auto simp: ob primary_polls_def poll ready_after_Cons still_waits_def id simp del: append_Nil) }
  { case 2 show ?case
      using Cons.IH(2)
      by (cases status; cases "surface_ready found"; cases "t \<le> deadline")
        (auto simp: ob primary_polls_def poll still_waits_def id simp del: append_Nil) }
qed (simp_all add: primary_polls_def)

lemma secondary_waits:
  assumes "in_pieces split" "parse_socket_addr control \<noteq> None" "alive p (Some c)"
  shows "secondary_wait_ready control (secondary_polls to_json split obs) c = Some (Inr ms, c', es) \<longleftrightarrow>
      c' = c \<and> es = [] \<and> (\<exists>t. ready_after READY_DEADLINE (\<lambda>_. True) obs t \<and> ms = of_nat (t div 1000000))"
    and "secondary_wait_ready control (secondary_polls to_json split obs) c = None \<longleftrightarrow>
      list_all (still_waits READY_DEADLINE) obs"
proof (induction obs)
  case (Cons ob obs)
  obtain status found t where ob: "ob = (status, found, t)" by (metis prod_cases3)
  note ok = surface_readyz_ok [OF assms(1,2)]
  have wait: "child_try_wait (Inr s) c =
      (Inr s, if s = None then c else c\<lparr>ch_status := s\<rparr>, if s = None then [] else [EfReap (ch_pid c)])" for s
    using assms(3) by (cases s) (simp_all add: child_try_wait_def alive_def)
  have id: "map_option (\<lambda>(r, c, es'). (r, c, [] @ es')) w = w"
    for w :: "((process_error + u64) \<times> child \<times> process_effect list) option"
    by (cases w) simp_all
  { case 1 show ?case
      using Cons.IH(1)
      by (cases status; cases "surface_ready found"; cases "t \<le> READY_DEADLINE")
        (auto simp: ob secondary_polls_def ok wait ready_after_Cons still_waits_def id simp del: append_Nil) }
  { case 2 show ?case
      using Cons.IH(2)
      by (cases status; cases "surface_ready found"; cases "t \<le> READY_DEADLINE")
        (auto simp: ob secondary_polls_def ok wait still_waits_def id simp del: append_Nil) }
qed (simp_all add: secondary_polls_def)


lemma demo_digits: "to_digit 10 CHR ''0'' = Some 0" "to_digit 10 CHR ''1'' = Some 1" "to_digit 10 CHR ''.'' = None" "to_digit 10 CHR '':'' = None"
  by (simp_all add: to_digit_def)

lemma demo_addr: "parse_socket_addr ''1.0.0.1:80'' \<noteq> None"
proof -
  have number: "read_number 10 (Some 3) False 256 (c # CHR ''.'' # s) = Some (d, CHR ''.'' # s)" 
   "read_number 10 (Some 3) False 256 (c # CHR '':'' # s) = Some (d, CHR '':'' # s)" if "to_digit 10 c = Some d" "d < 10" for c d s
   using that by (simp_all add: read_number_def demo_digits digits_value_def)
  have four: "(4::nat) = Suc (Suc (Suc (Suc 0)))" by simp
  have ip: "read_ipv4_addr ''1.0.0.1:80'' = Some ([1,0,0,1], '':80'')"
    unfolding read_ipv4_addr_def four by (simp add: read_separator_def read_given_char_def number demo_digits)
  have port: "read_port '':80'' = Some (80, [])"
   by (simp add: read_port_def read_given_char_def read_number_def digits_value_def to_digit_def)
  show ?thesis by (simp add: parse_socket_addr_def parse_with_def read_socket_addr_def read_socket_addr_v4_def ip port)
qed

definition demo_ready :: health_handle where
  "demo_ready = handle_from_machine (fold health_step
     [(1, ProcessStarted), (2, InitializationCompleted),
      (3, CheckpointValidated \<lparr> ci_id = ''fresh'', ci_digest = None \<rparr>)] (health_new health_limits_default))"

lemma demo_ready_ready: "surface_ready (Some (5, demo_ready))" "\<not> surface_ready None"
  by (simp_all add: surface_ready_def demo_ready_def handle_from_machine_def handle_snapshot_def snapshot_ready
      health_step_def health_apply_defs health_new_def hm_is_ready_def hm_is_initialized_def hm_is_serving_def)


section \<open>The life of the child\<close>

text \<open>
  After any operation on a started process: it still runs and was only signalled, or it has
  been reaped, once, and its pid is never used again.
\<close>

definition signals :: "u32 \<Rightarrow> process_effect list \<Rightarrow> bool" where
  "signals p es \<longleftrightarrow> set es \<subseteq> {EfTerm p, EfKill p}"

definition child_life :: "u32 \<Rightarrow> child option \<Rightarrow> process_effect list \<Rightarrow> bool" where
  "child_life p c es \<longleftrightarrow>
     alive p c \<and> signals p es \<or>
     option_all (\<lambda>c. ch_status c \<noteq> None) c \<and> (\<exists>mid. es = mid @ [EfReap p] \<and> signals p mid)"

lemma child_life_prepend: "signals p pre \<Longrightarrow> child_life p c es \<Longrightarrow> child_life p c (pre @ es)"
  unfolding child_life_def by (force simp: signals_def)

lemma child_life_start: "alive p c \<Longrightarrow> child_life p c []"
  by (simp add: child_life_def signals_def)

lemma child_life_drop:
  assumes "child_life p c es"
  shows "\<exists>mid. es @ kill_and_wait c = mid @ [EfReap p] \<and> signals p mid"
  using assms unfolding child_life_def
proof
  assume "alive p c \<and> signals p es"
  then show ?thesis
    by (intro exI [of _ "es @ [EfKill p]"]) (auto simp: kill_and_wait_def alive_def signals_def)
next
  assume "option_all (\<lambda>c. ch_status c \<noteq> None) c \<and> (\<exists>mid. es = mid @ [EfReap p] \<and> signals p mid)"
  then show ?thesis by (cases c) (auto simp: kill_and_wait_def)
qed

lemma try_wait_life:
  assumes "alive p (Some c)" "child_try_wait os c = (r, c', es)"
  shows "child_life p (Some c') es"
    "r = Inr (Some st) \<Longrightarrow> ch_status c' \<noteq> None" "(\<forall>st. r \<noteq> Inr (Some st)) \<Longrightarrow> c' = c \<and> es = []"
  using assms
  by (auto simp: child_try_wait_def alive_def child_life_def signals_def split: sum.splits option.splits)

lemma exited_life:
  assumes "alive p (dp_child dp)" "process_exited os dp = (r, dp', es)"
  shows "child_life p (dp_child dp') es"
    "r = Inr True \<Longrightarrow> \<exists>c. dp_child dp' = Some c \<and> ch_status c \<noteq> None"
    "r \<noteq> Inr True \<Longrightarrow> dp' = dp \<and> es = []"
proof -
  let ?c = "\<lparr> ch_pid = p, ch_status = None \<rparr>"
  obtain w c' es' where w: "child_try_wait os ?c = (w, c', es')" by (metis prod_cases3)
  have c: "dp_child dp = Some ?c" using assms(1) by (simp add: alive_def)
  have "alive p (Some ?c)" by (simp add: alive_def)
  note life = try_wait_life [OF this w]
  from assms(2) have r: "r = bind_res (map_err PeWait w) (\<lambda>status. Inr (status \<noteq> None))"
    "dp' = dp\<lparr>dp_child := Some c'\<rparr>" "es = es'"
    by (auto simp: process_exited_def c w)
  show "child_life p (dp_child dp') es" using life(1) by (simp add: r)
  show "r = Inr True \<Longrightarrow> \<exists>c. dp_child dp' = Some c \<and> ch_status c \<noteq> None"
    using life(2) by (auto simp: r bind_res_Inr)
  show "r \<noteq> Inr True \<Longrightarrow> dp' = dp \<and> es = []"
  proof -
    assume "r \<noteq> Inr True"
    then have "\<forall>st. w \<noteq> Inr (Some st)" by (auto simp: r)
    with life(3) have "c' = ?c" "es' = []" by blast+
    then show ?thesis by (simp add: r c [symmetric])
  qed
qed

lemma wait_ready_life:
  assumes "alive p (dp_child dp)"
  shows "wait_ready_loop deadline polls dp = Some (r, dp', es) \<Longrightarrow>
    child_life p (dp_child dp') es \<and> (\<forall>d. r = Inr d \<longrightarrow> dp' = dp \<and> es = [])"
proof (induction polls arbitrary: es)
  case (Cons poll polls)
  obtain r1 dp1 es1 where poll: "process_ready poll dp = (r1, dp1, es1)" by (metis prod_cases3)
  obtain w where w: "process_exited (ry_wait poll) dp = (w, dp1, es1)"
    using poll by (auto simp: process_ready_def split: prod.splits sum.splits)
  note life = exited_life [OF assms w]
  have gone: "r1 = Inl PeExitedEarly" if "w = Inr True" using poll that by (simp add: process_ready_def w)
  show ?case
  proof (cases r1)
    case (Inl e)
    with Cons.prems poll life(1) show ?thesis by auto
  next
    case (Inr ok)
    with gone life(3) have "dp1 = dp" "es1 = []" by auto
    with Cons poll Inr child_life_start [OF assms] show ?thesis
      by (cases ok) (auto split: if_splits)
  qed
qed simp

lemma exit_loop_life:
  assumes "alive p (dp_child dp)"
  shows "exit_loop sent deadline polls dp = Some (r, dp', es) \<Longrightarrow>
    child_life p (dp_child dp') es \<and> (\<forall>d. r = Inr d \<longrightarrow> (\<exists>c. dp_child dp' = Some c \<and> ch_status c \<noteq> None))"
proof (induction polls arbitrary: es)
  case (Cons poll polls)
  obtain r1 dp1 es1 where poll: "process_exited (xp_wait poll) dp = (r1, dp1, es1)" by (metis prod_cases3)
  note life = exited_life [OF assms poll]
  show ?case
  proof (cases "r1 = Inr True")
    case True
    with Cons.prems poll life(1,2) show ?thesis by auto
  next
    case False
    with life(3) have "dp1 = dp" "es1 = []" by auto
    with Cons poll False child_life_start [OF assms] show ?thesis
      by (cases r1) (auto split: if_splits bool.splits)
  qed
qed simp

lemma reaped_life:
  assumes "child_life p (Some c) es" "ch_status c \<noteq> None"
  shows "child_life p None es"
  using assms by (auto simp: child_life_def alive_def)

lemma terminate_life:
  assumes "alive p (dp_child dp)" "process_terminate sent shell polls dp = Some (r, dp', es)"
  shows "child_life p (dp_child dp') es"
proof -
  have pid: "process_pid dp = p" using assms(1) by (simp add: process_pid_def alive_def)
  obtain k es0 where k: "send_sigterm shell dp = (k, es0)" by fastforce
  then have sig: "signals p es0" by (auto simp: send_sigterm_def pid signals_def split: sum.splits)
  then have start: "child_life p (dp_child dp) es0" using assms(1) by (simp add: child_life_def)
  show ?thesis
  proof (cases k)
    case (Inl e)
    with assms(2) k start show ?thesis by (simp add: process_terminate_def)
  next
    case (Inr u)
    with assms(2) k obtain x dp1 es1 where loop: "exit_loop sent (sent + EXIT_DEADLINE) polls dp = Some (x, dp1, es1)"
      by (auto simp: process_terminate_def split: option.splits)
    note life = exit_loop_life [OF assms(1) loop]
    then have both: "child_life p (dp_child dp1) (es0 @ es1)" using sig child_life_prepend by blast
    show ?thesis
    proof (cases x)
      case (Inl e)
      with assms(2) k Inr loop both show ?thesis by (simp add: process_terminate_def)
    next
      case (Inr d)
      with life obtain c where c: "dp_child dp1 = Some c" "ch_status c \<noteq> None" by blast
      with assms(2) k \<open>k = Inr u\<close> loop Inr both reaped_life show ?thesis
        by (auto simp: process_terminate_def)
    qed
  qed
qed

lemma secondary_wait_ready_life:
  assumes "alive p (Some c)"
  shows "secondary_wait_ready control polls c = Some (r, c', es) \<Longrightarrow>
    child_life p (Some c') es \<and> (\<forall>ms. r = Inr ms \<longrightarrow> c' = c \<and> es = [])"
proof (induction polls arbitrary: es)
  case (Cons poll polls)
  obtain r1 c1 es1 where poll: "child_try_wait (sp_wait poll) c = (r1, c1, es1)" by (metis prod_cases3)
  note life = try_wait_life [OF assms poll]
  show ?case
  proof (cases "\<exists>st. r1 = Inr (Some st)")
    case True
    with Cons.prems poll life(1) child_life_start [OF assms] show ?thesis by (auto split: if_splits)
  next
    case False
    with life(3) have "c1 = c" "es1 = []" by auto
    with Cons poll False child_life_start [OF assms] show ?thesis
      by (cases r1) (auto split: if_splits option.splits)
  qed
qed simp

lemma wait_for_exit_life:
  assumes "alive p (Some c)"
  shows "wait_for_exit polls c = Some (r, c', es) \<Longrightarrow>
    child_life p (Some c') es \<and> (\<forall>st. r = Inr (Some st) \<longrightarrow> ch_status c' \<noteq> None)"
proof (induction polls arbitrary: es)
  case (Cons poll polls)
  obtain t os where ob: "poll = (t, os)" by fastforce
  obtain r1 c1 es1 where poll: "child_try_wait os c = (r1, c1, es1)" by (metis prod_cases3)
  note life = try_wait_life [OF assms poll]
  show ?case
  proof (cases "\<exists>st. r1 = Inr (Some st)")
    case True
    with Cons.prems poll life(1,2) child_life_start [OF assms] show ?thesis by (auto simp: ob split: if_splits)
  next
    case False
    with life(3) have "c1 = c" "es1 = []" by auto
    with Cons poll False child_life_start [OF assms] show ?thesis
      by (cases r1) (auto simp: ob split: if_splits option.splits)
  qed
qed simp

lemma secondary_terminate_life:
  assumes "alive p (Some c)" "secondary_terminate kill polls elapsed p c = Some (r, c', es)"
  shows "child_life p c' es"
proof (cases kill)
  case (Inl e)
  with assms child_life_start [OF assms(1)] show ?thesis by (auto simp: secondary_terminate_def)
next
  case (Inr success)
  with assms(2) obtain x c1 es1 where w: "wait_for_exit polls c = Some (x, c1, es1)"
    by (auto simp: secondary_terminate_def split: option.splits)
  note life = wait_for_exit_life [OF assms(1) w]
  have "signals p [EfTerm p]" by (simp add: signals_def)
  with life have "child_life p (Some c1) (EfTerm p # es1)" using child_life_prepend [of p "[EfTerm p]"] by simp
  then show ?thesis
    using assms(2) Inr w life reaped_life
    by (cases x) (auto simp: secondary_terminate_def split: if_splits)
qed

end
