(* ===== verification/Measurement.thy ===== *)
theory Measurement
  imports Http_Client Config
begin

text \<open>
  What the experiment drivers measure on the side: the memory of a process, read from
  \<open>/proc/<pid>/status\<close> (\<open>vm_status_kb\<close> of \<open>examples/usefulness_common/mod.rs\<close>, \<open>proc_memory_kb\<close> of
  \<open>examples/usefulness_secondary_common/mod.rs\<close>), and the percentiles of latencies (\<open>percentile\<close>,
  \<open>latency_json\<close> of \<open>examples/usefulness_transport.rs\<close>), computed in \<open>f64\<close>.
\<close>

section \<open>JSON values\<close>

text \<open>\<open>serde_json::Value\<close>; a number is an unsigned, a negative or a floating-point one.\<close>

datatype json =
    JNull
  | JBool bool
  | JUnsigned u64
  | JNegative int
  | JFloat f64
  | JString string
  | JArray "json list"
  | JObject "(string \<times> json) list"

section \<open>Lines of a text\<close>

text \<open>\<open>str::lines\<close>: a line ends in \<open>LF\<close> or \<open>CR LF\<close>; the rest of the text is a line if there is any.\<close>

definition line_end :: "string \<Rightarrow> string" where
  "line_end l = (case strip_suffix [CR] l of Some l' \<Rightarrow> l' | None \<Rightarrow> l)"

definition str_lines :: "string \<Rightarrow> string list" where
  "str_lines s =
     (let ps = split_on LF s
      in map line_end (butlast ps) @ (if last ps = [] then [] else [last ps]))"

lemma split_on_line: "c \<notin> set l \<Longrightarrow> split_on c (l @ c # s) = l # split_on c s"
  by (induction l) auto

lemma str_lines_Nil [simp]: "str_lines [] = []"
  by (simp add: str_lines_def)

lemma line_end_same: "CR \<notin> set l \<Longrightarrow> line_end l = l"
  by (auto simp: line_end_def strip_suffix_Some split: option.split)

lemma str_lines_line:
  "LF \<notin> set l \<Longrightarrow> CR \<notin> set l \<Longrightarrow> str_lines (l @ LF # s) = l # str_lines s"
  by (simp add: str_lines_def Let_def split_on_line line_end_same)

lemma str_lines_texts:
  "list_all (\<lambda>l. LF \<notin> set l \<and> CR \<notin> set l) ls \<Longrightarrow> str_lines (concat (map (\<lambda>l. l @ [LF]) ls)) = ls"
  by (induction ls) (simp_all add: str_lines_line)

section \<open>Memory of a process\<close>

text \<open>The second word of the first line that starts with the key, as a number.\<close>

definition status_field :: "string \<Rightarrow> string \<Rightarrow> u64 option" where
  "status_field text key =
     (case find (\<lambda>l. strip_prefix key l \<noteq> None) (str_lines text) of
        None \<Rightarrow> None
      | Some l \<Rightarrow>
          (case split_whitespace l of
             _ # v # _ \<Rightarrow> map_option of_nat (parse_uint (2 ^ 64) v)
           | _ \<Rightarrow> None))"

definition vm_status_kb :: "filesystem \<Rightarrow> u32 option \<Rightarrow> string \<Rightarrow> u64 option" where
  "vm_status_kb fs p key =
     (let path = (case p of None \<Rightarrow> ''/proc/self/status''
                  | Some p \<Rightarrow> ''/proc/'' @ show_nat (unat p) @ ''/status'')
      in case read_to_string fs (path_of path) of
           Inl _ \<Rightarrow> None
         | Inr status \<Rightarrow> status_field status key)"

definition proc_memory_kb :: "filesystem \<Rightarrow> string \<Rightarrow> u64 option \<times> u64 option" where
  "proc_memory_kb fs status_path =
     (case read_to_string fs (path_of status_path) of
        Inl _ \<Rightarrow> (None, None)
      | Inr text \<Rightarrow> (status_field text ''VmHWM:'', status_field text ''VmRSS:''))"

section \<open>Arithmetic on \<open>f64\<close>\<close>

text \<open>A product whose factors are an infinity and a zero is not a number.\<close>

fun f_mul :: "(bool \<Rightarrow> rat \<Rightarrow> ieee) \<Rightarrow> ieee \<Rightarrow> ieee \<Rightarrow> ieee" where
  "f_mul rnd (Fin s m) (Fin t n) = rnd (s \<noteq> t) (m * n)"
| "f_mul rnd (Fin s m) (Inf t) = (if m = 0 then NaN else Inf (s \<noteq> t))"
| "f_mul rnd (Inf s) (Fin t n) = (if n = 0 then NaN else Inf (s \<noteq> t))"
| "f_mul rnd (Inf s) (Inf t) = Inf (s \<noteq> t)"
| "f_mul rnd _ _ = NaN"

definition f64_mul :: "f64 \<Rightarrow> f64 \<Rightarrow> f64" where
  "f64_mul = f_mul round_f64"

definition f64_sub :: "f64 \<Rightarrow> f64 \<Rightarrow> f64" where
  "f64_sub = f_sub round_f64"

definition usize_as_f64 :: "usize \<Rightarrow> f64" where
  "usize_as_f64 n = round_f64 False (of_nat n)"

text \<open>\<open>f64::round\<close> takes halves away from zero and is exact; \<open>as usize\<close> cuts and saturates.\<close>

fun f64_round_half :: "f64 \<Rightarrow> f64" where
  "f64_round_half (Fin s m) = Fin s (of_int \<lfloor>m + 1 / 2\<rfloor>)"
| "f64_round_half x = x"

fun f64_as_usize :: "f64 \<Rightarrow> usize" where
  "f64_as_usize (Fin s m) = (if s then 0 else min (nat \<lfloor>m\<rfloor>) usize_max)"
| "f64_as_usize (Inf s) = (if s then 0 else usize_max)"
| "f64_as_usize NaN = 0"

section \<open>Percentiles\<close>

definition percentile :: "u64 list \<Rightarrow> f64 \<Rightarrow> u64 option" where
  "percentile xs p =
     (if xs = [] then None
      else let rank = f64_as_usize (f64_round_half (f64_mul (f64_sub (usize_as_f64 (length xs)) f_one) p))
           in if rank < length xs then Some (xs ! rank) else None)"

record latency_summary =
  ls_count :: nat
  ls_p50 :: "u64 option"
  ls_p99 :: "u64 option"
  ls_max :: "u64 option"
  ls_min :: "u64 option"

definition latency_json :: "u64 list \<Rightarrow> latency_summary" where
  "latency_json latencies_ns =
     (let ordered = sort latencies_ns
      in \<lparr> ls_count = length ordered, ls_p50 = percentile ordered (f64_lit (1 / 2)),
           ls_p99 = percentile ordered (f64_lit (99 / 100)),
           ls_max = (if ordered = [] then None else Some (last ordered)),
           ls_min = (if ordered = [] then None else Some (hd ordered)) \<rparr>)"

section \<open>The rank of a percentile\<close>

text \<open>A multiple of a power of two with few enough digits is its own rounding.\<close>

lemma round_mag_dyadic:
  assumes q: "q = of_nat k / 2 ^ j" and k: "k < 2 ^ 53" and j: "j < 1000"
  shows "round_mag 53 (- 1022) q = q"
proof (cases "k = 0")
  case False
  let ?u = "ulp_exp 53 (- 1022) q"
  have pos: "0 < q" using False q by simp
  have pj: "(2 :: rat) powi (53 - int j) = 2 ^ 53 / 2 ^ j"
    using power_int_diff [of "2 :: rat" 53 "int j"] by (simp only: power_int_numeral power_int_of_nat) simp
  have "(of_nat k :: rat) < 2 ^ 53"
    using k of_nat_less_iff [of k "2 ^ 53", where ?'a = rat] by simp
  then have "q < 2 powi (53 - int j)" unfolding pj q by (rule divide_strict_right_mono) simp
  then have "(2 :: rat) powi rlog2 q < 2 powi (53 - int j)" using rlog2_lower [OF pos] by simp
  then have "rlog2 q < 53 - int j" by (rule powi_less_imp)
  then have u: "0 \<le> - int j - ?u" using j by (simp add: ulp_exp_def)
  have "(2 :: rat) powi (- int j - ?u) = 1 / 2 ^ j / 2 powi ?u"
    using power_int_diff [of "2 :: rat" "- int j" ?u]
    by (simp only: power_int_minus power_int_of_nat inverse_eq_divide) simp
  then have "q / 2 powi ?u = of_nat k * 2 powi (- int j - ?u)" using q by simp
  also have "\<dots> = of_int (int k * 2 ^ nat (- int j - ?u))" using powi_nat_of_int [OF u] by simp
  finally have e: "q / 2 powi ?u = of_int (int k * 2 ^ nat (- int j - ?u))" .
  then have "of_int (round_half_even (q / 2 powi ?u)) = q / 2 powi ?u" by (simp only: round_half_even_int)
  with pos show ?thesis by (simp add: round_mag_def)
qed (simp add: q round_mag_def)

lemma round_mag_nat: "k < 2 ^ 53 \<Longrightarrow> round_mag 53 (- 1022) (of_nat k) = of_nat k"
  by (rule round_mag_dyadic [of _ k 0]) simp_all

lemma round_f64_small:
  assumes "0 \<le> q" "q \<le> of_nat k" "k < 2 ^ 53"
  shows "round_f64 False q = Fin False (round_mag 53 (- 1022) q)"
    and "0 \<le> round_mag 53 (- 1022) q" and "round_mag 53 (- 1022) q \<le> of_nat k"
proof -
  have le: "round_mag 53 (- 1022) q \<le> of_nat k"
    using round_mag_mono [OF assms(2), of 53 "- 1022"] by (simp add: round_mag_nat [OF assms(3)])
  also have "\<dots> < (2 ^ 53 :: rat)"
    using assms(3) of_nat_less_iff [of k "2 ^ 53", where ?'a = rat] by simp
  also have "\<dots> \<le> 2 powi 1024"
    using power_int_increasing [of 53 1024 "2 :: rat"] by simp
  finally show "round_f64 False q = Fin False (round_mag 53 (- 1022) q)"
    by (simp add: round_f64_def fl_round_def)
  show "round_mag 53 (- 1022) q \<le> of_nat k" by (rule le)
qed (rule round_mag_nonneg)

lemma length_minus_one:
  assumes "n < 2 ^ 53" "0 < n"
  shows "f64_sub (usize_as_f64 n) f_one = Fin False (of_nat (n - 1))"
proof -
  have exact: "round_f64 False (of_nat k) = Fin False (of_nat k)" if "k \<le> n" for k
  proof -
    have k: "k < 2 ^ 53" using that assms(1) by (rule le_less_trans)
    show ?thesis using round_f64_small(1) [of "of_nat k" k, OF _ order_refl k] by (simp add: round_mag_nat [OF k])
  qed
  have d: "(of_nat n :: rat) - 1 = of_nat (n - 1)" using assms(2) by (simp add: of_nat_diff)
  have "f64_sub (usize_as_f64 n) f_one =
      (if of_nat (n - 1) = (0 :: rat) then Fin False 0 else round_f64 False (of_nat (n - 1)))"
    unfolding f64_sub_def usize_as_f64_def exact [OF order_refl] f_one_def by (simp only: f_sub.simps fval.simps if_False Let_def d) simp
  then show ?thesis
    by (cases "of_nat (n - 1) = (0 :: rat)") (simp_all only: exact [OF diff_le_self] simp_thms if_True if_False)
qed

definition rank_of :: "nat \<Rightarrow> rat \<Rightarrow> nat" where
  "rank_of n x = nat \<lfloor>round_mag 53 (- 1022) (of_nat (n - 1) * x) + 1 / 2\<rfloor>"

lemma rank_bound:
  assumes "n < 2 ^ 53" "0 \<le> x" "x \<le> 1"
  shows "rank_of n x \<le> n - 1"
proof -
  have "round_mag 53 (- 1022) (of_nat (n - 1) * x) \<le> of_nat (n - 1)"
    using round_f64_small(3) [of "of_nat (n - 1) * x" "n - 1"] assms by (simp add: mult_left_le)
  then have "\<lfloor>round_mag 53 (- 1022) (of_nat (n - 1) * x) + 1 / 2\<rfloor> \<le> int (n - 1)" by (simp add: floor_le_iff)
  then show ?thesis by (simp add: rank_of_def)
qed

lemma rank_mono: "x \<le> y \<Longrightarrow> rank_of n x \<le> rank_of n y"
  unfolding rank_of_def by (intro nat_mono floor_mono add_right_mono round_mag_mono mult_left_mono) simp_all

lemma rank_half:
  assumes "n < 2 ^ 53"
  shows "rank_of n (1 / 2) = n div 2"
proof -
  have "round_mag 53 (- 1022) (of_nat (n - 1) * (1 / 2)) = of_nat (n - 1) / 2"
    using round_mag_dyadic [of "of_nat (n - 1) / 2" "n - 1" 1] assms by simp
  moreover have "\<lfloor>(of_nat (n - 1) / 2 + 1 / 2 :: rat)\<rfloor> = int (n div 2)"
  proof (cases n)
    case (Suc m)
    have e: "(of_nat m / 2 + 1 / 2 :: rat) = of_int (int (Suc m)) / of_int 2" by (simp add: field_simps)
    have f: "\<lfloor>(of_int (int (Suc m)) :: rat) / of_int 2\<rfloor> = int (Suc m) div 2" by (rule floor_divide_of_int_eq)
    show ?thesis using f by (simp only: Suc diff_Suc_1 e zdiv_int of_nat_numeral)
  qed (simp add: floor_eq_iff)
  ultimately show ?thesis unfolding rank_of_def by (simp only: nat_int)
qed

lemma percentile_rank:
  assumes n: "length s < 2 ^ 53" and s: "s \<noteq> []" and x: "0 \<le> x" "x \<le> 1"
  shows "percentile s (Fin False x) = Some (s ! rank_of (length s) x)"
proof -
  let ?n = "length s"
  have pos: "0 < ?n" using s by simp
  have prod: "round_f64 False (of_nat (?n - 1) * x) = Fin False (round_mag 53 (- 1022) (of_nat (?n - 1) * x))"
    using x n by (intro round_f64_small(1) [of _ "?n - 1"]) (simp_all add: mult_left_le)
  have r: "rank_of ?n x \<le> ?n - 1" by (rule rank_bound [OF n x])
  then have "rank_of ?n x \<le> usize_max" using n by (simp add: usize_max_def)
  moreover have "f64_mul (f64_sub (usize_as_f64 ?n) f_one) (Fin False x) =
      Fin False (round_mag 53 (- 1022) (of_nat (?n - 1) * x))"
    unfolding length_minus_one [OF n pos] f64_mul_def by (simp only: f_mul.simps prod simp_thms)
  ultimately have "f64_as_usize (f64_round_half (f64_mul (f64_sub (usize_as_f64 ?n) f_one) (Fin False x))) = rank_of ?n x"
    unfolding rank_of_def by (simp only: f64_round_half.simps f64_as_usize.simps floor_of_int min_def if_False if_True)
  moreover have "rank_of ?n x < ?n" using r pos by linarith
  ultimately show ?thesis using s by (simp add: percentile_def)
qed

lemma unit_literal:
  assumes "0 \<le> q" "q \<le> 1"
  shows "f64_lit q = Fin False (round_mag 53 (- 1022) q)"
  using round_f64_small(1) [of q 1] assms by (simp add: f64_lit_def)

text \<open>Rounding is off by half a unit in the last place at most.\<close>

lemma round_half_even_error: "\<bar>of_int (round_half_even q) - q\<bar> \<le> 1 / 2"
  using floor_correct [of q] by (auto simp: round_half_even_def Let_def abs_le_iff)

lemma round_mag_error:
  assumes "q = 0 \<or> 2 powi (- 1022) \<le> q"
  shows "\<bar>round_mag 53 (- 1022) q - q\<bar> \<le> q / 2 ^ 53"
proof (cases "q = 0")
  case False
  let ?u = "2 powi (ulp_exp 53 (- 1022) q) :: rat" and ?r = "round_half_even (q / 2 powi (ulp_exp 53 (- 1022) q))"
  have big: "2 powi (- 1022) \<le> q" using assms False by blast
  have pos: "0 < q" using big by (rule less_le_trans [rotated]) simp
  have "(2 :: rat) powi (- 1022) < 2 powi (rlog2 q + 1)" using big rlog2_upper [OF pos] by (rule le_less_trans)
  then have "- 1022 < rlog2 q + 1" by (rule powi_less_imp)
  then have "ulp_exp 53 (- 1022) q = rlog2 q - 52" by (simp add: ulp_exp_def)
  then have u: "?u = 2 powi rlog2 q / 2 ^ 52"
    using power_int_diff [of "2 :: rat" "rlog2 q" 52] by (simp only: power_int_numeral) simp
  have "round_mag 53 (- 1022) q - q = (of_int ?r - q / ?u) * ?u"
    using pos by (simp add: round_mag_def left_diff_distrib)
  then have "\<bar>round_mag 53 (- 1022) q - q\<bar> = \<bar>of_int ?r - q / ?u\<bar> * ?u" by (simp add: abs_mult)
  also have "\<dots> \<le> 1 / 2 * ?u" by (rule mult_right_mono [OF round_half_even_error]) simp
  also have "\<dots> = 2 powi rlog2 q / 2 ^ 53" unfolding u by simp
  also have "\<dots> \<le> q / 2 ^ 53" by (rule divide_right_mono [OF rlog2_lower [OF pos]]) simp
  finally show ?thesis .
qed (simp add: round_mag_def)

text \<open>The rank is the nearest one, up to the rounding errors of the literal and the product.\<close>

lemma rank_near:
  assumes n: "n < 2 ^ 50" and q: "1 / 2 \<le> q" "q \<le> 1"
  defines "x \<equiv> round_mag 53 (- 1022) q"
  shows "\<bar>of_nat (rank_of n x) - q * of_nat (n - 1)\<bar> < (1 :: rat)"
proof -
  let ?m = "of_nat (n - 1) :: rat" and ?r = "round_mag 53 (- 1022) (of_nat (n - 1) * x)"
  have tiny: "(2 :: rat) powi (- 1022) \<le> 1 / 2"
    using power_int_increasing [of "- 1022" "- 1" "2 :: rat"] by (simp add: power_int_minus)
  have m: "0 \<le> ?m" "?m \<le> 2 ^ 50" using n of_nat_le_iff [of "n - 1" "2 ^ 50", where ?'a = rat] by simp_all
  have x: "\<bar>x - q\<bar> \<le> 1 / 2 ^ 53" "1 / 2 \<le> x" "x \<le> 1"
  proof -
    have "\<bar>x - q\<bar> \<le> q / 2 ^ 53" unfolding x_def using round_mag_error [of q] tiny q by linarith
    then show "\<bar>x - q\<bar> \<le> 1 / 2 ^ 53" using q(2) by simp
    show "x \<le> 1" unfolding x_def using round_f64_small(3) [of q 1] q by simp
    show "1 / 2 \<le> x"
      unfolding x_def using round_mag_mono [OF q(1), of 53 "- 1022"] round_mag_dyadic [of "1 / 2" 1 1] by simp
  qed
  have "?m * \<bar>x - q\<bar> \<le> 2 ^ 50 * (1 / 2 ^ 53)" using m x(1) by (intro mult_mono) simp_all
  then have prod: "\<bar>?m * x - q * ?m\<bar> \<le> 1 / 8"
    using m(1) abs_mult [of ?m "x - q"] by (simp add: right_diff_distrib mult.commute [of q])
  have "?m * x \<le> ?m" using mult_left_mono [OF x(3) m(1)] by simp
  moreover have "?m * x = 0 \<or> 2 powi (- 1022) \<le> ?m * x"
  proof (cases "n - 1 = 0")
    case False
    then have "1 \<le> ?m" by (metis One_nat_def Suc_leI neq0_conv of_nat_1 of_nat_mono)
    then have "1 / 2 \<le> ?m * x" using mult_mono [of 1 ?m "1 / 2" x] x(2) by simp
    with tiny show ?thesis by linarith
  qed simp
  ultimately have "\<bar>?r - ?m * x\<bar> \<le> 1 / 8" using round_mag_error [of "?m * x"] m(2) by simp
  moreover have "0 \<le> ?r" by (rule round_mag_nonneg)
  then have rank: "(of_nat (rank_of n x) :: rat) = of_int \<lfloor>?r + 1 / 2\<rfloor>" by (simp add: rank_of_def)
  have "\<bar>of_nat (rank_of n x) - ?r\<bar> \<le> 1 / 2"
    unfolding rank abs_le_iff using floor_correct [of "?r + 1 / 2"] by linarith
  ultimately show ?thesis using prod by linarith
qed

section \<open>Percentiles of latencies\<close>

text \<open>
  C17: The percentiles the transport driver reports, computed in \<open>f64\<close>, are those of the sorted
  latencies: up to \<open>2 ^ 50\<close> of them the rank of the median is exactly half the count, the rank of
  the 99th percentile is less than one away from 0.99 of the last rank, no rank is out of range,
  minimum and maximum bound all latencies, and minimum, median, 99th percentile and maximum
  are in this order.
\<close>

theorem percentiles_of_latencies:
  assumes "length latencies < 2 ^ 50"
  shows "let l = latency_json latencies; n = length latencies; s = sort latencies
    in ls_count l = n \<and>
       (if n = 0 then ls_min l = None \<and> ls_p50 l = None \<and> ls_p99 l = None \<and> ls_max l = None
        else \<exists>k. k < n \<and> \<bar>of_nat k - 99 / 100 * of_nat (n - 1)\<bar> < (1 :: rat) \<and> n div 2 \<le> k \<and>
          ls_min l = Some (s ! 0) \<and> ls_p50 l = Some (s ! (n div 2)) \<and> ls_p99 l = Some (s ! k) \<and>
          ls_max l = Some (s ! (n - 1)) \<and>
          s ! 0 \<le> s ! (n div 2) \<and> s ! (n div 2) \<le> s ! k \<and> s ! k \<le> s ! (n - 1) \<and>
          s ! 0 = Min (set latencies) \<and> s ! (n - 1) = Max (set latencies))"
proof (cases "latencies = []")
  case False
  let ?n = "length latencies" and ?s = "sort latencies"
  let ?x = "round_mag 53 (- 1022) (99 / 100)" and ?h = "round_mag 53 (- 1022) (1 / 2)"
  have n: "?n < 2 ^ 53" and pos: "0 < ?n" using assms False by simp_all
  have h: "?h = 1 / 2" by (rule round_mag_dyadic [of _ 1 1]) simp_all
  have x: "0 \<le> ?x" "?x \<le> 1" "1 / 2 \<le> ?x"
    using round_f64_small(2,3) [of "99 / 100" 1] round_mag_mono [of "1 / 2" "99 / 100" 53 "- 1022"] h by simp_all
  let ?k = "rank_of ?n ?x"
  have k: "?k < ?n" using rank_bound [OF n x(1,2)] pos by linarith
  have le: "?n div 2 \<le> ?k" using rank_mono [OF x(3), of ?n] by (simp add: rank_half [OF n])
  have ne: "?s \<noteq> []" using False by (metis set_empty set_sort)
  have p: "percentile ?s (f64_lit (1 / 2)) = Some (?s ! (?n div 2))" "percentile ?s (f64_lit (99 / 100)) = Some (?s ! ?k)"
    using percentile_rank [of ?s "1 / 2"] percentile_rank [of ?s ?x] ne n x unit_literal [of "1 / 2"] unit_literal [of "99 / 100"]
    by (simp_all add: h rank_half)
  have sorted: "?s ! i \<le> ?s ! j" if "i \<le> j" "j < ?n" for i j
    by (rule sorted_nth_mono [OF sorted_sort]) (use that in simp_all)
  have nth: "?s ! i \<in> set latencies" if "i < ?n" for i using that by (metis length_sort nth_mem set_sort)
  have all: "?s ! 0 \<le> y \<and> y \<le> ?s ! (?n - 1)" if y: "y \<in> set latencies" for y
  proof -
    obtain i where "i < ?n" "y = ?s ! i" using y by (metis in_set_conv_nth length_sort set_sort)
    with sorted [of 0 i] sorted [of i "?n - 1"] show ?thesis by simp
  qed
  have ends: "?s ! 0 = Min (set latencies)" "?s ! (?n - 1) = Max (set latencies)"
    using all nth pos by (auto intro!: Min_eqI [symmetric] Max_eqI [symmetric])
  have l: "ls_count (latency_json latencies) = ?n" "ls_min (latency_json latencies) = Some (?s ! 0)"
    "ls_p50 (latency_json latencies) = Some (?s ! (?n div 2))" "ls_p99 (latency_json latencies) = Some (?s ! ?k)"
    "ls_max (latency_json latencies) = Some (?s ! (?n - 1))"
    by (simp_all only: latency_json_def Let_def p latency_summary.simps length_sort if_not_P [OF ne] hd_conv_nth [OF ne]
        last_conv_nth [OF ne])
  have near: "\<bar>of_nat ?k - 99 / 100 * of_nat (?n - 1)\<bar> < (1 :: rat)" using assms by (intro rank_near) simp_all
  have nz: "?n \<noteq> 0" "0 \<le> ?n div 2" "?n div 2 < ?n" "?k \<le> ?n - 1" "?n - 1 < ?n" using pos k by simp_all
  show ?thesis
    unfolding Let_def if_not_P [OF nz(1)]
    by (intro conjI exI [of _ ?k] l k near le ends sorted nz)
qed (simp add: latency_json_def percentile_def)

theorem percentiles_of_latencies_witness:
  "ls_p50 (latency_json [30, 10, 20]) = Some 20 \<and> ls_min (latency_json [30, 10, 20]) = Some 10"
  using percentiles_of_latencies [of "[30, 10, 20]"] by (auto simp: Let_def)

section \<open>What the kernel prints is read back\<close>

text \<open>
  A row of \<open>/proc/<pid>/status\<close> as the kernel prints memory: the key and a colon, a tab, the value
  padded with spaces, the unit.
\<close>

definition TAB :: char where
  "TAB = CHR 0x09"

definition status_row :: "string \<times> nat \<times> nat \<Rightarrow> string" where
  "status_row = (\<lambda>(key, pad, n). key @ '':'' @ TAB # replicate pad (CHR '' '') @ show_nat n @ '' kB'')"

definition status_text :: "(string \<times> nat \<times> nat) list \<Rightarrow> string" where
  "status_text rows = concat (map (\<lambda>l. l @ [LF]) (map status_row rows))"

definition row_ok :: "string \<times> nat \<times> nat \<Rightarrow> bool" where
  "row_ok = (\<lambda>(key, pad, n). list_all visible key \<and> CHR '':'' \<notin> set key \<and> n < 2 ^ 64)"

lemma space_len_tab [simp]: "space_len (TAB # s) = 1"
  by (cases "TAB # s" rule: space_len.cases) (auto simp: TAB_def in_range_def ascii_space_def)

lemma word_ascii: "list_all visible w \<Longrightarrow> c \<in> set w \<Longrightarrow> in_range 0 0x7F c"
  by (auto simp: list_all_iff visible_def in_range_def)

lemma visible_no_end: "list_all visible w \<Longrightarrow> LF \<notin> set w \<and> CR \<notin> set w"
  by (auto simp: list_all_iff visible_def in_range_def LF_def CR_def)

lemma show_visible: "list_all visible (show_nat n)"
  by (rule digits_visible [OF show_nat_digits])

lemma row_words:
  assumes "list_all visible key"
  shows "\<exists>rest. split_whitespace (status_row (key, pad, n)) = (key @ '':'') # show_nat n # rest"
proof -
  have pad: "split_space [] (replicate pad (CHR '' '') @ s) = split_space [] s" for s
    by (induction pad) (simp_all del: split_space.simps(2))
  have colon: "list_all visible (key @ '':'')" using assms by (simp add: visible_def in_range_def)
  have "split_whitespace (status_row (key, pad, n)) =
      split_space ([] @ key @ '':'') (TAB # replicate pad (CHR '' '') @ show_nat n @ '' kB'')"
    using split_space_word [OF colon, of "[]"] by (simp add: split_whitespace_def status_row_def)
  also have "\<dots> = (key @ '':'') # split_space [] (show_nat n @ '' kB'')"
    by (subst split_space.simps(2)) (simp add: pad del: split_space.simps(2))
  also have "split_space [] (show_nat n @ '' kB'') = show_nat n # split_space [] ''kB''"
    using split_space_word [OF show_visible, of "[]" n "'' kB''"] by (simp del: split_space.simps(2))
  finally show ?thesis by blast
qed

lemma row_line: "row_ok r \<Longrightarrow> LF \<notin> set (status_row r) \<and> CR \<notin> set (status_row r)"
  using visible_no_end visible_no_end [OF show_visible]
  by (auto simp: row_ok_def status_row_def TAB_def LF_def CR_def)

lemma row_key:
  assumes "CHR '':'' \<notin> set key" "CHR '':'' \<notin> set k"
  shows "strip_prefix (k @ '':'') (status_row (key, pad, n)) \<noteq> None \<longleftrightarrow> key = k"
proof -
  have "key @ '':'' @ s = (k @ '':'') @ r \<Longrightarrow> key = k" for s r
    using assms by (induction key k rule: list_induct2') auto
  then show ?thesis by (auto simp: strip_prefix_Some status_row_def)
qed

lemma status_rows:
  assumes "list_all row_ok rows" "CHR '':'' \<notin> set key"
  shows "status_field (status_text rows) (key @ '':'') = map_option (\<lambda>(pad, n). of_nat n) (map_of rows key)"
proof -
  have lines: "str_lines (status_text rows) = map status_row rows"
    unfolding status_text_def using assms(1) row_line by (intro str_lines_texts) (auto simp: list_all_iff)
  have "status_field (status_text rows) (key @ '':'') =
      (case find (\<lambda>l. strip_prefix (key @ '':'') l \<noteq> None) (map status_row rows) of None \<Rightarrow> None
       | Some l \<Rightarrow> (case split_whitespace l of _ # v # _ \<Rightarrow> map_option of_nat (parse_uint (2 ^ 64) v) | _ \<Rightarrow> None))"
    by (simp add: status_field_def lines)
  also have "\<dots> = map_option (\<lambda>(pad, n). of_nat n) (map_of rows key)"
    using assms(1)
  proof (induction rows)
    case (Cons r rows)
    obtain k pad n where r: "r = (k, pad, n)" by (cases r)
    have k: "list_all visible k" "CHR '':'' \<notin> set k" "n < 2 ^ 64" using Cons.prems by (simp_all add: r row_ok_def)
    obtain rest where "split_whitespace (status_row r) = (k @ '':'') # show_nat n # rest"
      using row_words [OF k(1)] r by blast
    with Cons k show ?case
      by (simp add: r row_key [OF k(2) assms(2)] parse_uint_show del: not_None_eq)
  qed simp
  finally show ?thesis .
qed

text \<open>
  The memory of a process is read back as the kernel prints it: for a status file of rows with
  64-bit values, padded in any way, both readers give the value of the first row with the key asked
  for, and nothing for a key that is not there; a file that cannot be read gives nothing.
\<close>

theorem status_memory_roundtrip:
  assumes "list_all row_ok rows" "CHR '':'' \<notin> set key"
  shows "let path = ''/proc/'' @ show_nat (unat p) @ ''/status'';
      field = (\<lambda>k. map_option (\<lambda>(pad, n). of_nat n) (map_of rows k))
    in (fs_read fs (path_of path) = Inr (status_text rows) \<longrightarrow>
          vm_status_kb fs (Some p) (key @ '':'') = field key \<and>
          proc_memory_kb fs path = (field ''VmHWM'', field ''VmRSS'')) \<and>
       (fs_read fs (path_of path) = Inl e \<longrightarrow>
          vm_status_kb fs (Some p) (key @ '':'') = None \<and> proc_memory_kb fs path = (None, None))"
proof -
  have "\<forall>c \<in> set (status_row r). in_range 0 0x7F c" if "row_ok r" for r
    using that word_ascii word_ascii [OF show_visible]
    by (auto simp: row_ok_def status_row_def TAB_def in_range_def)
  then have "valid_utf8 (status_text rows)"
    using assms(1) by (intro ascii_valid_utf8) (auto simp: status_text_def list_all_iff LF_def in_range_def)
  then show ?thesis
    using status_rows [OF assms] status_rows [OF assms(1), of "''VmHWM''"] status_rows [OF assms(1), of "''VmRSS''"]
    by (simp add: Let_def vm_status_kb_def proc_memory_kb_def read_to_string_def)
qed

definition demo_proc :: filesystem where
  "demo_proc =
     \<lparr> fs_try_exists = (\<lambda>_. Inr True), fs_is_dir = (\<lambda>_. False), fs_is_file = (\<lambda>_. True),
       fs_read = (\<lambda>_. Inr (status_text [(''VmPeak'', 3, 900), (''VmHWM'', 4, 512), (''VmRSS'', 4, 400)])) \<rparr>"

theorem status_memory_roundtrip_witness:
  "vm_status_kb demo_proc (Some 7) ''VmRSS:'' = Some 400 \<and> proc_memory_kb demo_proc ''/proc/7/status'' = (Some 512, Some 400)"
proof -
  have "list_all row_ok [(''VmPeak'', 3, 900), (''VmHWM'', 4, 512), (''VmRSS'', 4, 400)]"
    by (simp add: row_ok_def visible_def in_range_def)
  moreover have "show_nat (unat (7 :: u32)) = ''7''" by code_simp
  ultimately show ?thesis
    using status_memory_roundtrip [of "[(''VmPeak'', 3, 900), (''VmHWM'', 4, 512), (''VmRSS'', 4, 400)]" "''VmRSS''" 7 demo_proc]
    by (simp add: Let_def demo_proc_def)
qed

end
