(* ===== verification/Driven_Run.thy ===== *)
theory Driven_Run
  imports Daemon
begin

text \<open>
  The interface of the in-process experiments (\<open>examples/\<close>): a source that hands the daemon one
  scripted packet per tick and a sink that records what each tick emits. The locale states
  what such a pair promises and proves that the daemon's ticks are then the ticks of the bare
  network, \<open>step_all\<close>, on the decoded inputs; both experiment drivers interpret it.
\<close>

section \<open>The network stepped directly\<close>

fun step_all ::
  "'r neuromod_api \<Rightarrow> (nat \<Rightarrow> neuro_modulators \<times> f32 list) \<Rightarrow> nat \<Rightarrow> nat \<Rightarrow> 'r spiking_network
     \<Rightarrow> usize list list option" where
  "step_all na input t 0 net = Some []"
| "step_all na input t (Suc n) net =
     (case na_step na (snd (input t)) (fst (input t)) net of
        (Inl _, _) \<Rightarrow> None
      | (Inr ids, net) \<Rightarrow> map_option ((#) ids) (step_all na input (Suc t) n net))"

lemma step_all_Suc:
  assumes "step_all na input t (Suc n) net = Some idss"
  obtains ids net' where "na_step na (snd (input t)) (fst (input t)) net = (Inr ids, net')"
    "step_all na input (Suc t) n net' = Some (tl idss)" "idss = ids # tl idss"
  using assms that by (auto split: prod.splits sum.splits)

lemma step_all_length: "step_all na input t n net = Some idss \<Longrightarrow> length idss = n"
proof (induction n arbitrary: t net idss)
  case (Suc n)
  obtain ids net' where "step_all na input (Suc t) n net' = Some (tl idss)" "idss = ids # tl idss"
    using step_all_Suc [OF Suc.prems] by metis
  with Suc.IH show ?case by (metis length_Cons)
qed simp

text \<open>The loop of a baseline only sees the inputs it reaches.\<close>

lemma step_all_cong:
  "(\<And>i. t \<le> i \<Longrightarrow> i < t + n \<Longrightarrow> input i = input' i) \<Longrightarrow> step_all na input t n net = step_all na input' t n net"
proof (induction n arbitrary: t net)
  case (Suc n)
  then have "step_all na input (Suc t) n net' = step_all na input' (Suc t) n net'" for net'
    by (intro Suc.IH) simp
  with Suc.prems [of t] show ?case by (simp split: prod.split sum.split)
qed simp

text \<open>What the network library promises of spike identifiers and dimensions.\<close>

definition ids_fit :: "'r neuromod_api \<Rightarrow> bool" where
  "ids_fit na \<longleftrightarrow> (\<forall>xs m n ids n'. na_step na xs m n = (Inr ids, n') \<longrightarrow> list_all (\<lambda>i. i < 65536) ids)"

definition neuromod_dims :: "'r neuromod_api \<Rightarrow> bool" where
  "neuromod_dims na \<longleftrightarrow>
     (\<forall>l i c. network_shape (na_with_dimensions na l i c) = (l, i, c)) \<and>
     (\<forall>c n. network_shape (na_set_rm_stdp_config na c n) = network_shape n)"

text \<open>Statistics after \<open>t\<close> ticks in which nothing went wrong.\<close>

definition clean_stats :: "nat \<Rightarrow> runtime_stats \<Rightarrow> bool" where
  "clean_stats t s \<longleftrightarrow>
     rs_ticks s = of_nat t \<and> rs_rejected_batches s = 0 \<and> rs_receive_errors s = 0 \<and> rs_emit_errors s = 0 \<and>
     rs_dropped_spikes s = 0 \<and> rs_diagnostic_emissions s = 0 \<and> rs_suppressed_diagnostics s = 0"

section \<open>One packet through the ingress\<close>

lemma view_finite: "finite_packet p \<Longrightarrow> finite_packet (tick_view p)"
  by (auto simp: tick_view_def finite_packet_def packet_default_def split: option.split list.split)

lemma admit_default: "admit_backend_packet packet_default b = b"
  by (simp add: admit_backend_packet_def admit_sensory_def admit_reward_def packet_default_def)

lemma admit_config: "bi_config (admit_backend_packet p b) = bi_config b"
  using ingress_step_config [of "IngAdmit p" b] by simp

text \<open>Admission of a finite packet of the source only touches the queues and the counters.\<close>

lemma tick_admit_ingress:
  assumes "finite_packet p" "\<not> ip_rejected p"
  shows "ts_ingress (tick_admit env (Some p) st) = admit_backend_packet p (ts_ingress st)"
    "ts_source (tick_admit env (Some p) st) = ts_source st"
    "clean_stats t (ts_stats st) \<Longrightarrow> clean_stats t (ts_stats (tick_admit env (Some p) st))"
proof -
  have gate: "Option.bind (Some p) backend_non_finite = None"
    using assms by (simp add: backend_non_finite_def first_non_finite_None)
  show "ts_ingress (tick_admit env (Some p) st) = admit_backend_packet p (ts_ingress st)"
    "ts_source (tick_admit env (Some p) st) = ts_source st"
    "clean_stats t (ts_stats st) \<Longrightarrow> clean_stats t (ts_stats (tick_admit env (Some p) st))"
    using assms(2) unfolding tick_admit_def gate
    by (simp_all add: account_and_admit_backend_packet_def clean_stats_def Let_def)
qed

lemma tick_admit_none: "tick_admit env None st = st"
  by (simp add: tick_admit_def)

text \<open>What the tick decides on, given the packet the source handed over.\<close>

lemma tick_input_view:
  assumes "so_next_ingress so (ts_source st) = (Inr p, src)" and "ingress_inv (ts_ingress st)"
    and "ingress_empty_open (ts_ingress st)"
    and "option_all (\<lambda>p. finite_packet p \<and> \<not> ip_rejected p \<and> packet_fits (bi_config (ts_ingress st)) p) p"
  defines "view \<equiv> tick_view (case p of Some p \<Rightarrow> p | None \<Rightarrow> packet_default)"
  shows "fst (tick_input so env st) = view" "finite_packet view"
    "ts_source (snd (tick_input so env st)) = src"
    "ingress_inv (ts_ingress (snd (tick_input so env st)))"
    "ingress_empty_open (ts_ingress (snd (tick_input so env st)))"
    "bi_config (ts_ingress (snd (tick_input so env st))) = bi_config (ts_ingress st)"
    "clean_stats t (ts_stats st) \<Longrightarrow> clean_stats t (ts_stats (snd (tick_input so env st)))"
proof -
  let ?p = "case p of Some p \<Rightarrow> p | None \<Rightarrow> packet_default"
  have p: "finite_packet ?p" "packet_fits (bi_config (ts_ingress st)) ?p"
    using assms(4) by (cases p; simp; simp add: finite_packet_def packet_fits_def packet_default_def)+
  have recv: "tick_receive so env st = (p, st\<lparr>ts_source := src\<rparr>)"
    by (simp add: tick_receive_def assms(1))
  have adm: "ts_ingress (tick_admit env p (st\<lparr>ts_source := src\<rparr>)) = admit_backend_packet ?p (ts_ingress st)"
    "ts_source (tick_admit env p (st\<lparr>ts_source := src\<rparr>)) = src"
    "clean_stats t (ts_stats st) \<Longrightarrow> clean_stats t (ts_stats (tick_admit env p (st\<lparr>ts_source := src\<rparr>)))"
    using assms(4) by (cases p; simp add: tick_admit_none admit_default tick_admit_ingress)+
  show "fst (tick_input so env st) = view" "ts_source (snd (tick_input so env st)) = src"
    "ingress_inv (ts_ingress (snd (tick_input so env st)))"
    "ingress_empty_open (ts_ingress (snd (tick_input so env st)))"
    "bi_config (ts_ingress (snd (tick_input so env st))) = bi_config (ts_ingress st)"
    "clean_stats t (ts_stats st) \<Longrightarrow> clean_stats t (ts_stats (snd (tick_input so env st)))"
    using admit_drain_view [OF assms(2,3) p(2)] admit_drain_empty [OF assms(2,3) p(2)]
      drain_for_tick_inv [OF admit_inv [OF assms(2)]]
    by (simp_all add: tick_input_def recv tick_drain_def case_prod_beta adm view_def drain_config admit_config)
  show "finite_packet view" unfolding view_def by (rule view_finite) (rule p(1))
qed

section \<open>Booting on a restored network\<close>

lemma sidecar_shape:
  assumes "neuromod_dims na" and "restore_spiking_network na cfg d = Inr net"
  shows "network_shape net = (dc_lif_count cfg, dc_izh_count cfg, dc_channels cfg)"
proof -
  let ?blank = "na_with_dimensions na (dc_lif_count cfg) (dc_izh_count cfg) (dc_channels cfg)"
  have blank: "network_shape ?blank = (dc_lif_count cfg, dc_izh_count cfg, dc_channels cfg)"
    using assms(1) by (simp add: neuromod_dims_def)
  from assms(2) have len: "length (nw_neurons ?blank) = length (sd_neurons d)" and
    net: "net = na_set_rm_stdp_config na ((nw_stdp_config ?blank)\<lparr>st_reward_lr := f_zero\<rparr>)
        (?blank\<lparr>nw_neurons := map2 restore_neuron (nw_neurons ?blank) (sd_neurons d)\<rparr>)"
    by (auto simp: restore_spiking_network_def apply_sidecar_def Let_def split: if_splits)
  have "network_shape net = network_shape (?blank\<lparr>nw_neurons := map2 restore_neuron (nw_neurons ?blank) (sd_neurons d)\<rparr>)"
    unfolding net using assms(1) by (simp add: neuromod_dims_def)
  also have "\<dots> = network_shape ?blank" using len by (simp add: network_shape_def)
  finally show ?thesis by (simp add: blank)
qed

lemma restored_valid:
  assumes "neuromod_dims na" and "restore_network fs de na cfg = Inr (net, prov)"
  shows "validate_restored_pair cfg net prov = Inr ()"
proof (cases "dc_runtime_mode cfg")
  case Simulation
  have "network_shape net = (dc_lif_count cfg, dc_izh_count cfg, dc_channels cfg) \<and> mp_schema_id prov = SIMULATION_SCHEMA_ID"
    using assms Simulation
    by (auto simp: restore_network_def bind_res_Inr blank_simulation_network_def neuromod_dims_def)
  with Simulation show ?thesis by (simp add: validate_restored_pair_def network_shape_def)
next
  case Live
  then obtain d where "restore_spiking_network na cfg d = Inr net" "mp_schema_id prov = SCHEMA_ID"
    using assms(2) by (auto simp: restore_network_def load_live_checkpoint_def bind_res_Inr provenance_of_def)
  with sidecar_shape [OF assms(1)] Live show ?thesis by (simp add: validate_restored_pair_def network_shape_def)
qed

lemma services_ignored [simp]:
  "daemon_config_validate (cfg\<lparr>dc_services := s\<rparr>) = daemon_config_validate cfg"
  "restore_network fs de na (cfg\<lparr>dc_services := s\<rparr>) = restore_network fs de na cfg"
  "validate_restored_pair (cfg\<lparr>dc_services := s\<rparr>) net prov = validate_restored_pair cfg net prov"
proof -
  show v: "daemon_config_validate (cfg\<lparr>dc_services := s\<rparr>) = daemon_config_validate cfg"
    by (simp add: daemon_config_validate_def validate_dimensions_def validate_pub_socket_opts_def
        cong: option.case_cong if_cong)
  show "restore_network fs de na (cfg\<lparr>dc_services := s\<rparr>) = restore_network fs de na cfg"
    by (simp add: restore_network_def v load_live_checkpoint_def blank_simulation_network_def
        validate_live_document_def validate_ingress_contract_def restore_spiking_network_def
        cong: runtime_mode.case_cong if_cong)
  show "validate_restored_pair (cfg\<lparr>dc_services := s\<rparr>) net prov = validate_restored_pair cfg net prov"
    by (simp add: validate_restored_pair_def)
qed

section \<open>The interface\<close>

locale driven_run =
  fixes so :: "'s source_ops" and si :: "'k sink_ops" and na :: "'r neuromod_api"
    and c :: ingress_config and channels :: nat and ticks :: nat
    and input :: "nat \<Rightarrow> neuro_modulators \<times> f32 list"
    and at_tick :: "nat \<Rightarrow> 's \<Rightarrow> bool"
    and emits :: "'k \<Rightarrow> u16 list list" and order :: "u16 list \<Rightarrow> u16 list"
  assumes next_packet: "t < ticks \<Longrightarrow> at_tick t s \<Longrightarrow>
      \<exists>p s'. so_next_ingress so s = (Inr p, s') \<and> at_tick (Suc t) s' \<and>
        option_all (\<lambda>p. finite_packet p \<and> \<not> ip_rejected p \<and> packet_fits c p) p \<and>
        (\<forall>stim. length stim = channels \<longrightarrow>
           decode_inputs na (tick_view (case p of Some p \<Rightarrow> p | None \<Rightarrow> packet_default)) stim = input t)"
    and emit_records: "\<exists>k'. si_emit si spikes wall k = (Inr (), k') \<and>
        emits k' = emits k @ [order (map se_channel spikes)]"
    and starts: "so_initialize so model s = (Inr (), s)"
    and ends: "fst (so_shutdown so s) = Inr ()" "si_flush si k = (Inr (), k)"
begin

text \<open>The state before tick \<open>t\<close>, when the bare network is at \<open>net\<close> and \<open>chs\<close> is recorded.\<close>

definition follows :: "nat \<Rightarrow> 'r spiking_network \<Rightarrow> u16 list list \<Rightarrow> ('s, 'k, 'r) tick_state \<Rightarrow> bool" where
  "follows t net chs st \<longleftrightarrow>
     ts_network st = net \<and> length (ts_stimuli st) = channels \<and> ingress_inv (ts_ingress st) \<and>
     ingress_empty_open (ts_ingress st) \<and> bi_config (ts_ingress st) = c \<and>
     at_tick t (ts_source st) \<and> emits (ts_sink st) = chs \<and> clean_stats t (ts_stats st)"

definition recorded :: "usize list \<Rightarrow> u16 list" where
  "recorded ids = order (map (\<lambda>i. of_nat i) ids)"

lemma publish_recorded:
  assumes "list_all (\<lambda>i. i < 65536) ids"
  shows "emits (ts_sink (tick_publish si env ids st)) = emits (ts_sink st) @ [recorded ids]"
    and "ts_source (tick_publish si env ids st) = ts_source st"
    and "clean_stats t (ts_stats st) \<Longrightarrow> clean_stats (Suc t) (ts_stats (tick_publish si env ids st))"
proof -
  have ids: "filter (\<lambda>i. i < 65536) ids = ids" using assms by (simp add: list_all_iff filter_id_conv)
  obtain spikes where sp: "make_spikes (te_wall env) ids = (spikes, 0)" "map se_channel spikes = map (\<lambda>i. of_nat i) ids"
    by (simp add: make_spikes_def ids comp_def Let_def)
  obtain k where k: "si_emit si spikes (te_wall env) (ts_sink st) = (Inr (), k)"
    "emits k = emits (ts_sink st) @ [order (map se_channel spikes)]"
    using emit_records by blast
  have "spikes = [] \<longrightarrow> ids = []" using sp(2) by auto
  then show "emits (ts_sink (tick_publish si env ids st)) = emits (ts_sink st) @ [recorded ids]"
    "ts_source (tick_publish si env ids st) = ts_source st"
    "clean_stats t (ts_stats st) \<Longrightarrow> clean_stats (Suc t) (ts_stats (tick_publish si env ids st))"
    using sp k by (auto simp: tick_publish_def note_dropped_def tick_emit_def recorded_def clean_stats_def Let_def)
qed

lemma follows_tick:
  assumes st: "follows t net chs st" and t: "t < ticks"
    and step: "na_step na (snd (input t)) (fst (input t)) net = (Inr ids, net')"
    and ids: "list_all (\<lambda>i. i < 65536) ids"
  shows "follows (Suc t) net' (chs @ [recorded ids]) (run_tick_published so si na env st)"
proof -
  note st' = st [unfolded follows_def]
  obtain p src where next_p: "so_next_ingress so (ts_source st) = (Inr p, src)" "at_tick (Suc t) src"
    and sound: "option_all (\<lambda>p. finite_packet p \<and> \<not> ip_rejected p \<and> packet_fits (bi_config (ts_ingress st)) p) p"
    and dec: "decode_inputs na (tick_view (case p of Some p \<Rightarrow> p | None \<Rightarrow> packet_default)) (ts_stimuli st) = input t"
    using next_packet [OF t, of "ts_source st"] st' by blast
  note view = tick_input_view [OF next_p(1) _ _ sound]
  let ?in = "snd (tick_input so env st)"
  have view': "first_non_finite (fst (tick_input so env st)) = None"
      "ts_source ?in = src" "ingress_inv (ts_ingress ?in)" "ingress_empty_open (ts_ingress ?in)"
      "bi_config (ts_ingress ?in) = c" "clean_stats t (ts_stats ?in)"
      "decode_inputs na (fst (tick_input so env st)) (ts_stimuli st) = input t"
    using view st' dec by (simp_all add: first_non_finite_None)
  have len: "length (snd (input t)) = channels"
    using arg_cong [OF dec, of "length \<circ> snd"] st' by simp
  have run: "run_tick so si na env st =
      tick_publish si env ids (?in\<lparr>ts_stimuli := snd (input t), ts_network := net'\<rparr>)"
    using st' step by (simp add: run_tick_input view'(1,7) tick_step_def case_prod_beta Let_def)
  show ?thesis
    using st' next_p view' len
    by (simp add: follows_def run_tick_published_def run publish_recorded [OF ids] Let_def)
qed

lemma follows_run:
  assumes fit: "ids_fit na"
  shows "step_all na input t n net = Some idss \<Longrightarrow> follows t net chs st \<Longrightarrow> t + n \<le> ticks \<Longrightarrow>
    \<exists>net'. follows (t + n) net' (chs @ map recorded idss) (drive_ticks so si na (map env [t..<t + n]) st)"
proof (induction n arbitrary: t net idss chs st)
  case 0
  then show ?case by (auto simp: drive_ticks_def)
next
  case (Suc n)
  let ?run = "run_tick_published so si na"
  obtain ids net' where s: "na_step na (snd (input t)) (fst (input t)) net = (Inr ids, net')"
    "step_all na input (Suc t) n net' = Some (tl idss)" "idss = ids # tl idss"
    using step_all_Suc [OF Suc.prems(1)] by metis
  have ids: "list_all (\<lambda>i. i < 65536) ids" using fit s(1) unfolding ids_fit_def by blast
  have t: "t < ticks" using Suc.prems(3) by simp
  have step: "follows (Suc t) net' (chs @ [recorded ids]) (?run (env t) st)"
    by (rule follows_tick [OF Suc.prems(2) t s(1) ids])
  obtain net'' where run: "follows (Suc t + n) net'' ((chs @ [recorded ids]) @ map recorded (tl idss))
      (drive_ticks so si na (map env [Suc t..<Suc t + n]) (?run (env t) st))"
    using Suc.IH [OF s(2) step] Suc.prems(3) by auto
  have "map env [t..<t + Suc n] = env t # map env [Suc t..<Suc t + n]"
    by (simp add: upt_conv_Cons del: upt_Suc)
  then have ticks: "drive_ticks so si na (map env [t..<t + Suc n]) st =
      drive_ticks so si na (map env [Suc t..<Suc t + n]) (?run (env t) st)"
    by (simp only: drive_ticks_def fold_simps)
  have chs: "chs @ map recorded idss = (chs @ [recorded ids]) @ map recorded (tl idss)"
    by (subst s(3)) simp
  have "t + Suc n = Suc t + n" by simp
  then show ?case using run unfolding chs ticks by metis
qed

text \<open>The whole bounded run, from construction to the backend it leaves.\<close>

lemma bounded_run:
  assumes dims: "neuromod_dims na" and fit: "ids_fit na"
    and restore: "restore_network fs de na cfg = Inr (net, prov)"
    and stepped: "step_all na input 0 ticks net = Some idss"
    and cfg: "c = dc_ingress cfg" "channels = dc_channels cfg"
    and pair: "at_tick 0 (bp_source pair)" "emits (bp_sink pair) = []"
  shows "\<exists>d stats e src. try_with_backend now cfg pair = Inr d \<and>
    run_for_ticks fs de na so si show_err clk (map env [0..<ticks]) d = (Inr stats, e) \<and>
    rs_loaded_checkpoint stats = Some prov \<and> clean_stats ticks stats \<and> emits (re_sink e) = map recorded idss \<and>
    re_source e = snd (so_shutdown so src) \<and> at_tick ticks src"
proof -
  have valid: "daemon_config_validate cfg = Inr ()"
    using restore by (auto simp: restore_network_def bind_res_Inr)
  then obtain d where d: "try_with_backend now cfg pair = Inr d"
    using validate_parts(3) [OF valid] by (simp add: try_with_backend_def ingress_new_def Let_def)
  note parts = try_with_backend_inv [OF d]
  have open_queues: "ingress_empty_open (bd_ingress d)" "bi_config (bd_ingress d) = c"
    using d ingress_new_empty ingress_new_inv(2) cfg(1) by (auto simp: try_with_backend_def bind_res_Inr Let_def)
  have ch: "dc_channels (bd_config d) = channels" by (simp add: parts(5) cfg(2))
  obtain health where boot: "boot_network fs de na so show_err clk (bd_config d) None (bp_source pair) (bd_health d) =
      (Inr (net, prov), bp_source pair, health)"
    using restore restored_valid [OF dims restore]
    by (simp add: parts(5) boot_network_def initialize_source_def starts take_restored_network_def bind_unit)
  let ?start = "tick_start (bp_source pair) (bp_sink pair) net (bd_ingress d) health
      (runtime_stats_default\<lparr>rs_loaded_checkpoint := Some prov\<rparr>) channels"
  let ?st = "drive_ticks so si na (map env [0..<ticks]) ?start"
  have "follows 0 net [] ?start"
    using parts(1) open_queues pair by (simp add: follows_def tick_start_def clean_stats_def runtime_stats_default_def)
  from follows_run [OF fit stepped this] obtain net' where end_state: "follows ticks net' (map recorded idss) ?st"
    by auto
  have loaded: "rs_loaded_checkpoint (ts_stats ?st) = Some prov" by (simp add: tick_start_def)
  have "finish_bounded_run so si s k b = (Inr (), snd (so_shutdown so s), k, ingress_shutdown b)" for s k b
    using ends(1) [of s] by (cases "so_shutdown so s") (simp add: finish_bounded_run_def ends(2))
  then have "run_for_ticks fs de na so si show_err clk (map env [0..<ticks]) d =
      (Inr (ts_stats ?st), \<lparr> re_source = snd (so_shutdown so (ts_source ?st)), re_sink = ts_sink ?st,
        re_ingress = ingress_shutdown (ts_ingress ?st), re_health = ts_health ?st \<rparr>)"
    by (simp add: run_for_ticks_def boot parts(3) ch Let_def)
  with d loaded end_state show ?thesis by (auto simp: follows_def)
qed

end

end
