(* ===== verification/Usefulness.thy ===== *)
theory Usefulness
  imports Driven_Run
begin

text \<open>
  The in-process driver of the usefulness experiment (\<open>examples/usefulness_inprocess.rs\<close> and
  \<open>examples/usefulness_common/mod.rs\<close>): the workload, the stimulus source and the recording
  sink it plugs into the daemon, the run through the daemon and the baseline run that steps
  the same restored network directly. What is written at the end, and \<open>main\<close>, are in
  \<open>Reports\<close>; the values they are made of are the fields of the run. The codec of \<open>corpus-ipc\<close> is an
  argument, and so is every clock reading.
\<close>

section \<open>Workload\<close>

record modulators =
  mo_dopamine :: f32
  mo_cortisol :: f32
  mo_acetylcholine :: f32
  mo_tempo :: f32

record workload_event =
  ev_offset :: u64
  ev_values :: "f32 list"
  ev_valid_mask :: "bool list option"
  ev_modulators :: "modulators option"

record transport_spec =
  tp_pulse_spacing_ticks :: u64
  tp_pulses :: u64
  tp_amplitude :: f32
  tp_expected_by_channel :: "string \<rightharpoonup> u16 list"

record workload =
  wl_fixture_sha256 :: string
  wl_channels :: usize
  wl_ticks_per_cycle :: u64
  wl_cycles :: u64
  wl_ticks :: u64
  wl_warmup_ticks :: u64
  wl_cycle_events :: "workload_event list"
  wl_transport :: transport_spec

datatype mode = DaemonLive | DaemonSimulation | Baseline

fun mode_as_str :: "mode \<Rightarrow> string" where
  "mode_as_str DaemonLive = ''daemon-live''"
| "mode_as_str DaemonSimulation = ''daemon-simulation''"
| "mode_as_str Baseline = ''baseline''"

fun mode_runtime_mode :: "mode \<Rightarrow> runtime_mode" where
  "mode_runtime_mode DaemonLive = Live"
| "mode_runtime_mode Baseline = Live"
| "mode_runtime_mode DaemonSimulation = Simulation"

datatype driver_error =
    DvRead string
  | DvParse string
  | DvCycles
  | DvChannels usize usize
  | DvConfig config_error
  | DvDaemon daemon_error
  | DvRestore checkpoint_error
  | DvCounts nat nat
  | DvStep nat string
  | DvFixture string string
  | DvMode mode runtime_mode
  | DvWrite string
  | DvJson string

definition workload_load ::
  "filesystem \<Rightarrow> (string \<Rightarrow> string + workload) \<Rightarrow> path \<Rightarrow> driver_error + workload" where
  "workload_load fs parse path =
     bind_res (map_err DvRead (read_to_string fs path)) (\<lambda>text.
     bind_res (map_err DvParse (parse text)) (\<lambda>workload.
       if wl_ticks workload \<noteq> wl_ticks_per_cycle workload * wl_cycles workload then Inl DvCycles
       else Inr workload))"

definition check_channels :: "usize \<Rightarrow> workload \<Rightarrow> driver_error + unit" where
  "check_channels channels workload =
     (if channels \<noteq> wl_channels workload then Inl (DvChannels channels (wl_channels workload)) else Inr ())"

definition workload_expand :: "workload \<Rightarrow> (u64 \<rightharpoonup> workload_event)" where
  "workload_expand w =
     fold (\<lambda>cycle events.
         fold (\<lambda>e events. events(of_nat cycle * wl_ticks_per_cycle w + ev_offset e \<mapsto> e)) (wl_cycle_events w) events)
       [0..<unat (wl_cycles w)] Map.empty"

definition frame_counts :: "workload \<Rightarrow> u64 \<times> u64" where
  "frame_counts w =
     (let stimuli = of_nat (length (filter (\<lambda>e. ev_values e \<noteq> []) (wl_cycle_events w)));
          mods = of_nat (length (filter (\<lambda>e. ev_modulators e \<noteq> None) (wl_cycle_events w)))
      in (stimuli * wl_cycles w, mods * wl_cycles w))"

section \<open>Frames\<close>

definition SESSION_ID :: string where
  "SESSION_ID = ''usefulness''"

text \<open>Errors of a source are texts, as \<open>anyhow\<close> shows them.\<close>

definition stimulus_frame ::
  "(ipc_message \<Rightarrow> string + string) \<Rightarrow> u64 \<Rightarrow> string \<Rightarrow> u64 \<Rightarrow> f32 list \<Rightarrow> bool list option \<Rightarrow> string + string" where
  "stimulus_frame enc now session batch_id values vmask =
     (let custom = [''schema'' \<mapsto> STIMULUS_SCHEMA];
          batch = \<lparr> sb_values = values, sb_valid_mask = vmask, sb_batch_id = batch_id, sb_timestamp = now,
                    sb_session_id = Some session, sb_metadata = Some custom \<rparr>
      in enc (IpcStimuli batch))"

definition encode_modulators ::
  "(ipc_message \<Rightarrow> string + string) \<Rightarrow> modulators \<Rightarrow> u64 \<Rightarrow> string + string" where
  "encode_modulators enc mods tick =
     (if tick \<ge> 0x8000000000000000 then Inl ''out of range integral type conversion attempted''
      else enc (IpcNeuromodulators
        \<lparr> ns_dopamine = mo_dopamine mods, ns_cortisol = mo_cortisol mods,
          ns_acetylcholine = mo_acetylcholine mods, ns_tempo = mo_tempo mods \<rparr>))"

text \<open>The codec and the batch validation of \<open>corpus-ipc\<close>.\<close>

record ipc_codec =
  ic_encode :: "ipc_message \<Rightarrow> string + string"
  ic_decode :: "string \<Rightarrow> string + ipc_message"
  ic_validate :: "stimulus_batch \<Rightarrow> string + unit"

definition decode_frames ::
  "ipc_codec \<Rightarrow> u64 \<Rightarrow> ingress_policy \<Rightarrow> string option \<Rightarrow> string option \<Rightarrow> string + ingress_packet" where
  "decode_frames co now policy stimuli mods =
     bind_res (case stimuli of
                 Some bytes \<Rightarrow>
                   map_err ingress_error_display (accept_ipc_json (ic_decode co) (ic_validate co) bytes policy now)
               | None \<Rightarrow> Inr packet_default) (\<lambda>packet.
     case mods of
       Some bytes \<Rightarrow>
         bind_res (map_err ingress_error_display (accept_ipc_json (ic_decode co) (ic_validate co) bytes policy now))
           (\<lambda>p. Inr (packet\<lparr>ip_modulators := ip_modulators p\<rparr>))
     | None \<Rightarrow> Inr packet)"

section \<open>The source and the sink\<close>

text \<open>
  The recorder both sides share behind a mutex. The source only adds polls and, at shutdown,
  the frame counts; the sink only adds emits: each holds its own copy and \<open>shared_after\<close>
  puts the two together when the run is over.
\<close>

record shared =
  sh_polls :: "(instant \<times> u64 option) list"
  sh_emits :: "(instant \<times> u16 list) list"
  sh_stimulus_frames :: u64
  sh_modulator_frames :: u64

definition shared_default :: shared where
  "shared_default = \<lparr> sh_polls = [], sh_emits = [], sh_stimulus_frames = 0, sh_modulator_frames = 0 \<rparr>"

record workload_source =
  ws_events :: "u64 \<rightharpoonup> workload_event"
  ws_tick :: u64
  ws_next_batch_id :: u64
  ws_policy :: ingress_policy
  ws_shared :: shared
  ws_stimulus_frames :: u64
  ws_modulator_frames :: u64

text \<open>The clock readings of one poll, in their order.\<close>

record poll_clock =
  pk_encode :: u64
  pk_decode_start :: instant
  pk_now :: u64
  pk_poll :: instant

definition record_poll :: "instant \<Rightarrow> u64 option \<Rightarrow> workload_source \<Rightarrow> workload_source" where
  "record_poll polled_at decode_ns s =
     s\<lparr>ws_shared := (ws_shared s)\<lparr>sh_polls := sh_polls (ws_shared s) @ [(polled_at, decode_ns)]\<rparr>\<rparr>"

definition source_stimulus_frame ::
  "ipc_codec \<Rightarrow> u64 \<Rightarrow> workload_event \<Rightarrow> workload_source \<Rightarrow> (string + string option) \<times> workload_source" where
  "source_stimulus_frame co now event s =
     (if ev_values event = [] then (Inr None, s)
      else let batch_id = ws_next_batch_id s;
               s = s\<lparr>ws_next_batch_id := ws_next_batch_id s + 1, ws_stimulus_frames := ws_stimulus_frames s + 1\<rparr>
           in (bind_res (stimulus_frame (ic_encode co) now SESSION_ID batch_id (ev_values event) (ev_valid_mask event))
                 (\<lambda>frame. Inr (Some frame)), s))"

definition source_modulator_frame ::
  "ipc_codec \<Rightarrow> workload_event \<Rightarrow> u64 \<Rightarrow> workload_source \<Rightarrow> (string + string option) \<times> workload_source" where
  "source_modulator_frame co event tick s =
     (case ev_modulators event of
        None \<Rightarrow> (Inr None, s)
      | Some mods \<Rightarrow>
          (let s = s\<lparr>ws_modulator_frames := ws_modulator_frames s + 1\<rparr>
           in (bind_res (encode_modulators (ic_encode co) mods tick) (\<lambda>frame. Inr (Some frame)), s)))"

definition workload_next_ingress ::
  "ipc_codec \<Rightarrow> (u64 \<Rightarrow> poll_clock) \<Rightarrow> workload_source \<Rightarrow> (string + ingress_packet option) \<times> workload_source" where
  "workload_next_ingress co clk s =
     (let tick = ws_tick s; s = s\<lparr>ws_tick := ws_tick s + 1\<rparr>
      in case ws_events s tick of
           None \<Rightarrow> (Inr None, record_poll (pk_poll (clk tick)) None s)
         | Some event \<Rightarrow>
             (case source_stimulus_frame co (pk_encode (clk tick)) event s of
                (Inl err, s) \<Rightarrow> (Inl err, s)
              | (Inr stimuli, s) \<Rightarrow>
                  (case source_modulator_frame co event tick s of
                     (Inl err, s) \<Rightarrow> (Inl err, s)
                   | (Inr mods, s) \<Rightarrow>
                       (case decode_frames co (pk_now (clk tick)) (ws_policy s) stimuli mods of
                          Inl err \<Rightarrow> (Inl err, s)
                        | Inr packet \<Rightarrow>
                            (let poll = pk_poll (clk tick); decode_ns = of_nat (poll - pk_decode_start (clk tick))
                             in (Inr (Some packet), record_poll poll (Some decode_ns) s))))))"

definition workload_shutdown :: "workload_source \<Rightarrow> (string + unit) \<times> workload_source" where
  "workload_shutdown s =
     (Inr (), s\<lparr>ws_shared := (ws_shared s)\<lparr>sh_stimulus_frames := ws_stimulus_frames s,
                                            sh_modulator_frames := ws_modulator_frames s\<rparr>\<rparr>)"

definition workload_source_ops :: "ipc_codec \<Rightarrow> (u64 \<Rightarrow> poll_clock) \<Rightarrow> workload_source source_ops" where
  "workload_source_ops co clk =
     \<lparr> so_next_ingress = workload_next_ingress co clk, so_initialize = (\<lambda>_ s. (Inr (), s)),
       so_shutdown = workload_shutdown \<rparr>"

record recording_sink =
  rk_shared :: shared

text \<open>\<open>clk n\<close> is the reading at the emit after \<open>n\<close> others.\<close>

definition recording_emit ::
  "(nat \<Rightarrow> instant) \<Rightarrow> spike_event list \<Rightarrow> duration \<Rightarrow> recording_sink \<Rightarrow> (string + unit) \<times> recording_sink" where
  "recording_emit clk spikes batch_time k =
     (let emitted_at = clk (length (sh_emits (rk_shared k)));
          channels = sort (map se_channel spikes)
      in (Inr (), k\<lparr>rk_shared := (rk_shared k)\<lparr>sh_emits := sh_emits (rk_shared k) @ [(emitted_at, channels)]\<rparr>\<rparr>))"

definition recording_sink_ops :: "(nat \<Rightarrow> instant) \<Rightarrow> recording_sink sink_ops" where
  "recording_sink_ops clk = \<lparr> si_emit = recording_emit clk, si_flush = (\<lambda>k. (Inr (), k)) \<rparr>"

section \<open>The run through the daemon\<close>

record tick_record =
  tr_channels :: "u16 list"
  tr_latency_ns :: u64
  tr_decode_ns :: "u64 option"

definition build_backend :: "daemon_config \<Rightarrow> workload \<Rightarrow> (workload_source, recording_sink) backend_pair" where
  "build_backend cfg workload =
     \<lparr> bp_source = \<lparr> ws_events = workload_expand workload, ws_tick = 0, ws_next_batch_id = 1,
         ws_policy = ingress_policy_new (dc_channels cfg) (Some 1000000000), ws_shared = shared_default,
         ws_stimulus_frames = 0, ws_modulator_frames = 0 \<rparr>,
       bp_sink = \<lparr> rk_shared = shared_default \<rparr> \<rparr>"

definition shared_after :: "workload_source \<Rightarrow> recording_sink \<Rightarrow> shared" where
  "shared_after source sink = (ws_shared source)\<lparr>sh_emits := sh_emits (rk_shared sink)\<rparr>"

definition tick_records :: "shared \<Rightarrow> driver_error + tick_record list" where
  "tick_records s =
     (if length (sh_polls s) \<noteq> length (sh_emits s) then Inl (DvCounts (length (sh_polls s)) (length (sh_emits s)))
      else Inr (map (\<lambda>((poll, decode_ns), (emit, channels)).
             \<lparr> tr_channels = channels, tr_latency_ns = of_nat (emit - poll), tr_decode_ns = decode_ns \<rparr>)
             (zip (sh_polls s) (sh_emits s))))"

text \<open>The values \<open>Run\<close> and its summary are made of.\<close>

record driver_run =
  dr_records :: "tick_record list"
  dr_first_measured_start :: instant
  dr_last_end :: instant
  dr_stats :: "runtime_stats option"
  dr_provenance :: "model_provenance option"
  dr_health :: "health_snapshot option"
  dr_ingress :: "ingress_metrics option"
  dr_stimulus_frames :: u64
  dr_modulator_frames :: u64
  dr_run_wall_ns :: u64

text \<open>
  Everything outside the driver: the machine it runs on. \<open>dv_started_at\<close> is the clock as the
  daemon is constructed, \<open>dv_run_at\<close> the driver's reading before the run.
\<close>

record 'r driver_env =
  dv_fs :: filesystem
  dv_decoders :: decoders
  dv_na :: "'r neuromod_api"
  dv_codec :: ipc_codec
  dv_show_error :: "daemon_error \<Rightarrow> string"
  dv_started_at :: instant
  dv_run_at :: instant
  dv_boot_clock :: "nat \<Rightarrow> instant"
  dv_tick_env :: "nat \<Rightarrow> tick_env"
  dv_poll_clock :: "u64 \<Rightarrow> poll_clock"
  dv_emit_clock :: "nat \<Rightarrow> instant"
  dv_step_clock :: "nat \<Rightarrow> instant \<times> instant"
  dv_finished_at :: instant

definition run_daemon :: "'r driver_env \<Rightarrow> daemon_config \<Rightarrow> workload \<Rightarrow> driver_error + driver_run" where
  "run_daemon dv cfg workload =
     bind_res (map_err DvDaemon (try_with_backend (dv_started_at dv) cfg (build_backend cfg workload))) (\<lambda>daemon.
       let (r, e) = run_for_ticks (dv_fs dv) (dv_decoders dv) (dv_na dv)
             (workload_source_ops (dv_codec dv) (dv_poll_clock dv)) (recording_sink_ops (dv_emit_clock dv))
             (dv_show_error dv) (dv_boot_clock dv) (map (dv_tick_env dv) [0..<unat (wl_ticks workload)]) daemon
       in bind_res (map_err DvDaemon r) (\<lambda>stats.
          let snapshot = handle_snapshot (dv_finished_at dv) (re_health e);
              metrics = ingress_metrics_of (re_ingress e);
              shared = shared_after (re_source e) (re_sink e)
          in bind_res (tick_records shared) (\<lambda>records.
             let warmup = unat (wl_warmup_ticks workload);
                 first_measured_start =
                   (if warmup < length (sh_polls shared) then fst (sh_polls shared ! warmup) else dv_finished_at dv);
                 last_end = (if sh_emits shared = [] then dv_finished_at dv else fst (last (sh_emits shared)))
             in Inr \<lparr> dr_records = records, dr_first_measured_start = first_measured_start,
                      dr_last_end = last_end, dr_stats = Some stats,
                      dr_provenance = rs_loaded_checkpoint stats, dr_health = Some snapshot,
                      dr_ingress = Some metrics, dr_stimulus_frames = sh_stimulus_frames shared,
                      dr_modulator_frames = sh_modulator_frames shared,
                      dr_run_wall_ns = of_nat (dv_finished_at dv - dv_run_at dv) \<rparr>)))"

section \<open>The baseline\<close>

definition decode_event ::
  "'r neuromod_api \<Rightarrow> workload_event option \<Rightarrow> f32 list \<Rightarrow> neuro_modulators \<times> f32 list" where
  "decode_event na event stimuli =
     (let stimuli = map (\<lambda>_. f_zero) stimuli
      in case event of
           None \<Rightarrow> (na_default_modulators na, stimuli)
         | Some event \<Rightarrow>
             (let upto = min (length (ev_values event)) (length stimuli);
                  stimuli = take upto (ev_values event) @ drop upto stimuli;
                  stimuli = (case ev_valid_mask event of
                               Some vmask \<Rightarrow> apply_mask vmask stimuli | None \<Rightarrow> stimuli);
                  modulators = (case ev_modulators event of
                      None \<Rightarrow> na_default_modulators na
                    | Some m \<Rightarrow> \<lparr> nm_dopamine = mo_dopamine m, nm_serotonin = mo_cortisol m,
                                  nm_acetylcholine = mo_acetylcholine m, nm_norepinephrine = mo_tempo m \<rparr>)
              in (modulators, stimuli)))"

text \<open>The loop from \<open>tick\<close> on, \<open>n\<close> ticks long.\<close>

fun baseline_loop ::
  "'r neuromod_api \<Rightarrow> (nat \<Rightarrow> instant \<times> instant) \<Rightarrow> (u64 \<rightharpoonup> workload_event) \<Rightarrow> nat \<Rightarrow> nat
     \<Rightarrow> 'r spiking_network \<Rightarrow> f32 list \<Rightarrow> driver_error + tick_record list" where
  "baseline_loop na clk events tick 0 network stimuli = Inr []"
| "baseline_loop na clk events tick (Suc n) network stimuli =
     (let (modulators, stimuli) = decode_event na (events (of_nat tick)) stimuli; (start, end_at) = clk tick
      in case na_step na stimuli modulators network of
           (Inl e, network) \<Rightarrow> Inl (DvStep tick e)
         | (Inr ids, network) \<Rightarrow>
             (let channels = sort (map (\<lambda>i. of_nat i :: u16) (filter (\<lambda>i. i < 65536) ids));
                  record = \<lparr> tr_channels = channels, tr_latency_ns = of_nat (end_at - start), tr_decode_ns = None \<rparr>
              in bind_res (baseline_loop na clk events (Suc tick) n network stimuli) (\<lambda>records.
                   Inr (record # records))))"

definition run_baseline :: "'r driver_env \<Rightarrow> daemon_config \<Rightarrow> workload \<Rightarrow> driver_error + driver_run" where
  "run_baseline dv cfg workload =
     bind_res (map_err DvRestore (restore_network (dv_fs dv) (dv_decoders dv) (dv_na dv) cfg))
       (\<lambda>(network, provenance).
       let events = workload_expand workload; stimuli = replicate (dc_channels cfg) f_zero;
           ticks = unat (wl_ticks workload); warmup = unat (wl_warmup_ticks workload)
       in bind_res (baseline_loop (dv_na dv) (dv_step_clock dv) events 0 ticks network stimuli) (\<lambda>records.
          let first_measured_start = (if warmup < ticks then fst (dv_step_clock dv warmup) else dv_run_at dv);
              last_end = (if ticks = 0 then dv_run_at dv else snd (dv_step_clock dv (ticks - 1)));
              (stimulus_frames, modulator_frames) = frame_counts workload
          in Inr \<lparr> dr_records = records, dr_first_measured_start = first_measured_start,
                   dr_last_end = last_end, dr_stats = None, dr_provenance = Some provenance,
                   dr_health = None, dr_ingress = None, dr_stimulus_frames = stimulus_frames,
                   dr_modulator_frames = modulator_frames,
                   dr_run_wall_ns = of_nat (dv_finished_at dv - dv_run_at dv) \<rparr>))"

section \<open>The driver\<close>

definition fixture_digest :: "'r driver_env \<Rightarrow> daemon_config \<Rightarrow> workload \<Rightarrow> driver_error + string option" where
  "fixture_digest dv cfg workload =
     (if dc_runtime_mode cfg = Simulation then Inr None
      else bind_res (map_err DvRead (fs_read (dv_fs dv) (dc_model_path cfg))) (\<lambda>bytes.
        let digest = hex_sha256 (dv_decoders dv) bytes
        in if digest \<noteq> wl_fixture_sha256 workload then Inl (DvFixture digest (wl_fixture_sha256 workload))
           else Inr (Some digest)))"

section \<open>Both decoders agree\<close>

text \<open>The packet a workload event arrives as.\<close>

definition event_packet :: "u64 \<Rightarrow> u64 \<Rightarrow> workload_event \<Rightarrow> ingress_packet" where
  "event_packet now batch_id e =
     (if ev_values e = [] then packet_default
      else \<lparr> ip_stimuli = ev_values e, ip_modulators = None, ip_valid_mask = ev_valid_mask e,
             ip_batch_id = Some batch_id, ip_timestamp_ns = Some now, ip_session_id = Some SESSION_ID,
             ip_rejected = False \<rparr>)
     \<lparr>ip_modulators := map_option (\<lambda>m. [mo_dopamine m, mo_cortisol m, mo_acetylcholine m, mo_tempo m])
        (ev_modulators e)\<rparr>"

lemma event_packet_fields [simp]:
  "ip_stimuli (event_packet now bid e) = ev_values e" "\<not> ip_rejected (event_packet now bid e)"
  "ip_modulators (event_packet now bid e) =
     map_option (\<lambda>m. [mo_dopamine m, mo_cortisol m, mo_acetylcholine m, mo_tempo m]) (ev_modulators e)"
  by (simp_all add: event_packet_def packet_default_def)

lemma decode_event_length [simp]: "length (snd (decode_event na event s)) = length s"
  by (auto simp: decode_event_def Let_def split: option.split)

lemma decode_event_nth:
  assumes "i < length s"
  shows "snd (decode_event na (Some e) s) ! i =
     (if i < length (ev_values e) \<and> (case ev_valid_mask e of None \<Rightarrow> True | Some m \<Rightarrow> i < length m \<longrightarrow> m ! i)
      then ev_values e ! i else f_zero)"
  using assms by (auto simp: decode_event_def Let_def apply_mask_nth nth_append split: option.split)

lemma decode_none:
  assumes "length s' = length s"
  shows "decode_event na None s' = decode_inputs na packet_default s"
proof (rule prod_eqI)
  show "fst (decode_event na None s') = fst (decode_inputs na packet_default s)"
    using decode_short [where p = packet_default and na = na and s = s] by (simp add: decode_event_def packet_default_def)
  show "snd (decode_event na None s') = snd (decode_inputs na packet_default s)"
    by (rule nth_equalityI)
      (use assms in \<open>simp_all add: decode_nth decoded_channel_def packet_default_def decode_event_def\<close>)
qed

lemma decode_some:
  assumes "length s' = length s"
  shows "decode_event na (Some e) s' = decode_inputs na (tick_view (event_packet now bid e)) s"
proof (rule prod_eqI)
  show "fst (decode_event na (Some e) s') = fst (decode_inputs na (tick_view (event_packet now bid e)) s)"
    by (cases "ev_modulators e")
      (simp_all add: decode_event_def decode_inputs_def tick_view_def NEUROMODULATOR_COUNT_def Let_def)
  show "snd (decode_event na (Some e) s') = snd (decode_inputs na (tick_view (event_packet now bid e)) s)"
  proof (rule nth_equalityI)
    fix i assume "i < length (snd (decode_event na (Some e) s'))"
    with assms show "snd (decode_event na (Some e) s') ! i =
        snd (decode_inputs na (tick_view (event_packet now bid e)) s) ! i"
      by (cases "ev_values e = []")
        (auto simp: decode_event_nth decode_nth decoded_channel_def tick_view_def packet_default_def event_packet_def)
  qed (use assms in simp)
qed

section \<open>The source delivers the workload\<close>

definition event_batch :: "u64 \<Rightarrow> u64 \<Rightarrow> workload_event \<Rightarrow> stimulus_batch" where
  "event_batch now bid e =
     \<lparr> sb_values = ev_values e, sb_valid_mask = ev_valid_mask e, sb_batch_id = bid, sb_timestamp = now,
       sb_session_id = Some SESSION_ID, sb_metadata = Some [''schema'' \<mapsto> STIMULUS_SCHEMA] \<rparr>"

definition event_snapshot :: "modulators \<Rightarrow> neuromodulator_snapshot" where
  "event_snapshot m =
     \<lparr> ns_dopamine = mo_dopamine m, ns_cortisol = mo_cortisol m, ns_acetylcholine = mo_acetylcholine m,
       ns_tempo = mo_tempo m \<rparr>"

definition codec_keeps :: "ipc_codec \<Rightarrow> ipc_message \<Rightarrow> bool" where
  "codec_keeps co m \<longleftrightarrow> (\<exists>bytes. ic_encode co m = Inr bytes \<and> ic_decode co bytes = Inr m)"

text \<open>
  What the experiment relies on of \<open>corpus-ipc\<close>: the messages of the workload survive the
  codec and its stimulus batches are valid.
\<close>

definition codec_serves :: "ipc_codec \<Rightarrow> workload_event \<Rightarrow> bool" where
  "codec_serves co e \<longleftrightarrow>
     (ev_values e \<noteq> [] \<longrightarrow> (\<forall>now bid. codec_keeps co (IpcStimuli (event_batch now bid e)) \<and>
        ic_validate co (event_batch now bid e) = Inr ())) \<and>
     option_all (\<lambda>m. codec_keeps co (IpcNeuromodulators (event_snapshot m))) (ev_modulators e)"

definition event_fits :: "daemon_config \<Rightarrow> workload_event \<Rightarrow> bool" where
  "event_fits cfg e \<longleftrightarrow>
     (ev_values e = [] \<or> length (ev_values e) = dc_channels cfg) \<and> list_all is_finite (ev_values e) \<and>
     option_all (\<lambda>m. list_all is_finite [mo_dopamine m, mo_cortisol m, mo_acetylcholine m, mo_tempo m])
       (ev_modulators e)"

definition poll_fresh :: "poll_clock \<Rightarrow> bool" where
  "poll_fresh k \<longleftrightarrow> pk_encode k \<le> pk_now k \<and> pk_now k - pk_encode k \<le> 1000000000"

definition workload_policy :: "daemon_config \<Rightarrow> ingress_policy" where
  "workload_policy cfg = ingress_policy_new (dc_channels cfg) (Some 1000000000)"

lemma decode_frames_event:
  assumes "codec_serves co e" "event_fits cfg e" "poll_fresh k"
    and "ev_values e \<noteq> [] \<Longrightarrow> ic_encode co (IpcStimuli (event_batch (pk_encode k) bid e)) = Inr sb"
    and "\<And>m. ev_modulators e = Some m \<Longrightarrow> ic_encode co (IpcNeuromodulators (event_snapshot m)) = Inr mb"
  shows "decode_frames co (pk_now k) (workload_policy cfg) (if ev_values e = [] then None else Some sb)
      (map_option (\<lambda>_. mb) (ev_modulators e)) = Inr (event_packet (pk_encode k) bid e)"
proof -
  have stim: "accept_ipc_json (ic_decode co) (ic_validate co) sb (workload_policy cfg) (pk_now k) =
      Inr (event_packet (pk_encode k) bid (e\<lparr>ev_modulators := None\<rparr>))" if ne: "ev_values e \<noteq> []"
  proof -
    have "codec_keeps co (IpcStimuli (event_batch (pk_encode k) bid e))"
      "ic_validate co (event_batch (pk_encode k) bid e) = Inr ()"
      using assms(1) ne by (simp_all add: codec_serves_def)
    then have "ic_decode co sb = Inr (IpcStimuli (event_batch (pk_encode k) bid e))"
      "ic_validate co (event_batch (pk_encode k) bid e) = Inr ()"
      using assms(4) [OF ne] by (auto simp: codec_keeps_def)
    moreover have "reject_stale_or_future (pk_encode k) (pk_now k) (Some 1000000000) = Inr ()"
      using assms(3) by (simp add: reject_stale_or_future_def poll_fresh_def Let_def not_less)
    moreover have "length (ev_values e) = dc_channels cfg" using assms(2) ne by (simp add: event_fits_def)
    ultimately show ?thesis
      using ne by (simp add: accept_ipc_json_def accept_ipc_message_def accept_stimulus_batch_def event_batch_def
          require_stimulus_schema_def workload_policy_def ingress_policy_new_def event_packet_def bind_unit)
  qed
  have mods: "accept_ipc_json (ic_decode co) (ic_validate co) mb (workload_policy cfg) (pk_now k) =
      Inr (packet_default\<lparr>ip_modulators := Some [mo_dopamine m, mo_cortisol m, mo_acetylcholine m, mo_tempo m]\<rparr>)"
    if m: "ev_modulators e = Some m" for m
  proof -
    have "ic_decode co mb = Inr (IpcNeuromodulators (event_snapshot m))"
      using assms(1) assms(5) [OF m] m by (auto simp: codec_serves_def codec_keeps_def)
    then show ?thesis
      by (simp add: accept_ipc_json_def accept_ipc_message_def event_snapshot_def packet_default_def)
  qed
  show ?thesis
    by (cases "ev_modulators e"; cases "ev_values e = []")
      (auto simp: decode_frames_def stim mods event_packet_def packet_default_def)
qed

text \<open>How many of the first \<open>t\<close> ticks send a frame of each kind.\<close>

definition sends_stimuli :: "workload_event \<Rightarrow> bool" where
  "sends_stimuli e \<longleftrightarrow> ev_values e \<noteq> []"

definition sends_modulators :: "workload_event \<Rightarrow> bool" where
  "sends_modulators e \<longleftrightarrow> ev_modulators e \<noteq> None"

definition event_sends :: "(workload_event \<Rightarrow> bool) \<Rightarrow> workload_event option \<Rightarrow> bool" where
  "event_sends P e = (case e of None \<Rightarrow> False | Some e \<Rightarrow> P e)"

definition events_before :: "(workload_event \<Rightarrow> bool) \<Rightarrow> workload \<Rightarrow> nat \<Rightarrow> nat" where
  "events_before P w t = length (filter (\<lambda>i. event_sends P (workload_expand w (of_nat i))) [0..<t])"

lemma events_before_0 [simp]: "events_before P w 0 = 0"
  by (simp add: events_before_def)

lemma events_before_Suc:
  "events_before P w (Suc t) = events_before P w t + of_bool (event_sends P (workload_expand w (of_nat t)))"
  by (simp add: events_before_def)

lemma workload_next:
  assumes pol: "ws_policy s = workload_policy cfg" and tick: "ws_tick s < 0x8000000000000000"
    and ev: "\<And>e. ws_events s (ws_tick s) = Some e \<Longrightarrow> codec_serves co e \<and> event_fits cfg e"
    and fresh: "poll_fresh (clk (ws_tick s))"
  shows "\<exists>s'. workload_next_ingress co clk s =
      (Inr (map_option (event_packet (pk_encode (clk (ws_tick s))) (ws_next_batch_id s)) (ws_events s (ws_tick s))), s') \<and>
    ws_tick s' = ws_tick s + 1 \<and> ws_events s' = ws_events s \<and> ws_policy s' = ws_policy s \<and>
    length (sh_polls (ws_shared s')) = Suc (length (sh_polls (ws_shared s))) \<and>
    ws_stimulus_frames s' = ws_stimulus_frames s + of_bool (event_sends sends_stimuli (ws_events s (ws_tick s))) \<and>
    ws_modulator_frames s' = ws_modulator_frames s + of_bool (event_sends sends_modulators (ws_events s (ws_tick s)))"
proof (cases "ws_events s (ws_tick s)")
  case None
  then show ?thesis by (simp add: workload_next_ingress_def record_poll_def event_sends_def Let_def)
next
  case (Some e)
  let ?k = "clk (ws_tick s)" and ?bid = "ws_next_batch_id s"
  have serves: "codec_serves co e" and fits: "event_fits cfg e" using ev [OF Some] by simp_all
  obtain sb where sb: "ev_values e \<noteq> [] \<Longrightarrow> ic_encode co (IpcStimuli (event_batch (pk_encode ?k) ?bid e)) = Inr sb"
    using serves by (cases "ev_values e = []") (auto simp: codec_serves_def codec_keeps_def)
  obtain mb where mb: "\<And>m. ev_modulators e = Some m \<Longrightarrow> ic_encode co (IpcNeuromodulators (event_snapshot m)) = Inr mb"
    using serves by (cases "ev_modulators e") (auto simp: codec_serves_def codec_keeps_def)
  have stim: "stimulus_frame (ic_encode co) (pk_encode ?k) SESSION_ID ?bid (ev_values e) (ev_valid_mask e) = Inr sb"
    if "ev_values e \<noteq> []"
    using sb [OF that] by (simp add: stimulus_frame_def event_batch_def Let_def)
  have mods: "encode_modulators (ic_encode co) m (ws_tick s) = Inr mb" if "ev_modulators e = Some m" for m
    using mb [OF that] tick by (simp add: encode_modulators_def event_snapshot_def not_le)
  note dec = decode_frames_event [OF serves fits fresh sb mb]
  show ?thesis
    using dec
    by (cases "ev_modulators e"; cases "ev_values e = []")
      (simp_all add: workload_next_ingress_def Some source_stimulus_frame_def source_modulator_frame_def stim mods
        pol record_poll_def event_sends_def sends_stimuli_def sends_modulators_def Let_def)
qed

section \<open>The source and the sink keep their promises\<close>

lemma expand_events: "workload_expand w k = Some e \<Longrightarrow> e \<in> set (wl_cycle_events w)"
proof -
  have inner: "ran m \<subseteq> S \<Longrightarrow> set es \<subseteq> S \<Longrightarrow> ran (fold (\<lambda>e m. m(f e \<mapsto> e)) es m) \<subseteq> S"
    for f :: "workload_event \<Rightarrow> u64" and es m S
  proof (induction es arbitrary: m)
    case (Cons e es)
    then have "ran (m(f e \<mapsto> e)) \<subseteq> S" by (auto simp: ran_def)
    with Cons show ?case by (simp del: fun_upd_apply)
  qed simp
  have "ran m \<subseteq> S \<Longrightarrow> set es \<subseteq> S \<Longrightarrow> ran (fold (\<lambda>c m. fold (\<lambda>e m. m(f c e \<mapsto> e)) es m) cs m) \<subseteq> S"
    for f :: "nat \<Rightarrow> workload_event \<Rightarrow> u64" and es cs m S
    by (induction cs arbitrary: m) (simp_all add: inner del: fun_upd_apply)
  from this [of Map.empty "set (wl_cycle_events w)" "wl_cycle_events w"
      "\<lambda>c e. of_nat c * wl_ticks_per_cycle w + ev_offset e" "[0..<unat (wl_cycles w)]"]
  show "workload_expand w k = Some e \<Longrightarrow> e \<in> set (wl_cycle_events w)"
    unfolding workload_expand_def by (auto intro: ranI)
qed

lemma event_packet_finite: "event_fits cfg e \<Longrightarrow> finite_packet (event_packet now bid e)"
  by (cases "ev_modulators e") (auto simp: event_fits_def finite_packet_def)

lemma event_packet_small:
  assumes "event_fits cfg e" "dc_channels cfg \<le> ic_max_payload_len c" "4 \<le> ic_max_payload_len c"
  shows "packet_fits c (event_packet now bid e)"
  using assms by (cases "ev_modulators e") (auto simp: event_fits_def packet_fits_def)

lemma valid_payload: "daemon_config_validate cfg = Inr () \<Longrightarrow> dc_channels cfg \<le> ic_max_payload_len (dc_ingress cfg)"
  by (auto simp: daemon_config_validate_def bind_unit)

text \<open>What the experiment assumes of a run, in one place.\<close>

definition experiment_ok :: "ipc_codec \<Rightarrow> (u64 \<Rightarrow> poll_clock) \<Rightarrow> daemon_config \<Rightarrow> workload \<Rightarrow> bool" where
  "experiment_ok co clk cfg w \<longleftrightarrow>
     list_all (\<lambda>e. codec_serves co e \<and> event_fits cfg e) (wl_cycle_events w) \<and> (\<forall>t. poll_fresh (clk t)) \<and>
     4 \<le> ic_max_payload_len (dc_ingress cfg) \<and>
     wl_ticks w \<le> 0x8000000000000000"

definition source_at ::
  "ipc_codec \<Rightarrow> (u64 \<Rightarrow> poll_clock) \<Rightarrow> daemon_config \<Rightarrow> workload \<Rightarrow> nat \<Rightarrow> workload_source \<Rightarrow> bool" where
  "source_at co clk cfg w t s \<longleftrightarrow>
     experiment_ok co clk cfg w \<and> daemon_config_validate cfg = Inr () \<and>
     ws_events s = workload_expand w \<and> ws_tick s = of_nat t \<and> ws_policy s = workload_policy cfg \<and>
     length (sh_polls (ws_shared s)) = t \<and>
     ws_stimulus_frames s = of_nat (events_before sends_stimuli w t) \<and>
     ws_modulator_frames s = of_nat (events_before sends_modulators w t)"

definition event_input :: "'r neuromod_api \<Rightarrow> daemon_config \<Rightarrow> workload \<Rightarrow> nat \<Rightarrow> neuro_modulators \<times> f32 list" where
  "event_input na cfg w t = decode_event na (workload_expand w (of_nat t)) (replicate (dc_channels cfg) f_zero)"

lemma source_delivers:
  assumes t: "t < unat (wl_ticks w)" and s: "source_at co clk cfg w t s"
  shows "\<exists>p s'. so_next_ingress (workload_source_ops co clk) s = (Inr p, s') \<and> source_at co clk cfg w (Suc t) s' \<and>
    option_all (\<lambda>p. finite_packet p \<and> \<not> ip_rejected p \<and> packet_fits (dc_ingress cfg) p) p \<and>
    (\<forall>stim. length stim = dc_channels cfg \<longrightarrow>
       decode_inputs na (tick_view (case p of Some p \<Rightarrow> p | None \<Rightarrow> packet_default)) stim = event_input na cfg w t)"
proof -
  let ?e = "workload_expand w (of_nat t)"
  let ?now = "pk_encode (clk (of_nat t))" and ?bid = "ws_next_batch_id s"
  let ?p = "map_option (event_packet ?now ?bid) ?e"
  note s' = s [unfolded source_at_def experiment_ok_def]
  have ev: "codec_serves co e \<and> event_fits cfg e" if "?e = Some e" for e
    using expand_events [OF that] s' by (simp add: list_all_iff)
  have "unat (wl_ticks w) \<le> unat (0x8000000000000000 :: u64)" using s' by (simp add: word_le_nat_alt)
  with t have tick: "(of_nat t :: u64) < 0x8000000000000000" by (simp add: word_less_nat_alt unat_of_nat)
  obtain src where src: "workload_next_ingress co clk s = (Inr ?p, src)"
    "ws_tick src = of_nat t + 1" "ws_events src = workload_expand w" "ws_policy src = workload_policy cfg"
    "length (sh_polls (ws_shared src)) = Suc t"
    "ws_stimulus_frames src = ws_stimulus_frames s + of_bool (event_sends sends_stimuli ?e)"
    "ws_modulator_frames src = ws_modulator_frames s + of_bool (event_sends sends_modulators ?e)"
    using workload_next [of s cfg co clk] s' ev tick by auto
  have "so_next_ingress (workload_source_ops co clk) s = (Inr ?p, src)"
    by (simp add: workload_source_ops_def src(1))
  moreover have "source_at co clk cfg w (Suc t) src"
    using s src(2-7) by (simp add: source_at_def events_before_Suc)
  moreover have "option_all (\<lambda>p. finite_packet p \<and> \<not> ip_rejected p \<and> packet_fits (dc_ingress cfg) p) ?p"
    using ev s' event_packet_finite event_packet_small [OF _ valid_payload]
    by (cases ?e) auto
  moreover have "decode_inputs na (tick_view (case ?p of Some p \<Rightarrow> p | None \<Rightarrow> packet_default)) stim = event_input na cfg w t"
    if "length stim = dc_channels cfg" for stim
  proof (cases ?e)
    case None
    have "tick_view packet_default = packet_default" by (simp add: tick_view_def packet_default_def)
    with None that show ?thesis
      using decode_none [where s = stim and s' = "replicate (dc_channels cfg) f_zero" and na = na]
      by (simp add: event_input_def)
  next
    case (Some e)
    with that show ?thesis
      using decode_some [where s = stim and s' = "replicate (dc_channels cfg) f_zero" and na = na and e = e
          and now = ?now and bid = ?bid]
      by (simp add: event_input_def)
  qed
  ultimately show ?thesis by blast
qed

definition sink_channels :: "recording_sink \<Rightarrow> u16 list list" where
  "sink_channels k = map snd (sh_emits (rk_shared k))"

interpretation primary: driven_run "workload_source_ops co clk" "recording_sink_ops eclk" na "dc_ingress cfg"
    "dc_channels cfg" "unat (wl_ticks w)" "event_input na cfg w" "source_at co clk cfg w" sink_channels sort
  for co clk eclk na cfg w
  by unfold_locales
    (use source_delivers in \<open>auto simp: recording_sink_ops_def recording_emit_def sink_channels_def
       workload_source_ops_def workload_shutdown_def Let_def\<close>)

section \<open>The baseline steps the network directly\<close>

lemma decode_event_buffer: "length s = length s' \<Longrightarrow> decode_event na e s = decode_event na e s'"
  by (simp add: decode_event_def map_replicate_const)

lemma baseline_steps:
  assumes fit: "ids_fit na"
  shows "baseline_loop na clk (workload_expand w) t n net stim = Inr records \<Longrightarrow> length stim = dc_channels cfg \<Longrightarrow>
    \<exists>idss. step_all na (event_input na cfg w) t n net = Some idss \<and>
      map tr_channels records = map (\<lambda>ids. sort (map (\<lambda>i. of_nat i) ids)) idss"
proof (induction n arbitrary: t net stim records)
  case (Suc n)
  have d: "decode_event na (workload_expand w (of_nat t)) stim = event_input na cfg w t"
    using decode_event_buffer [of stim "replicate (dc_channels cfg) f_zero"] Suc.prems(2) by (simp add: event_input_def)
  obtain r net' where s: "na_step na (snd (event_input na cfg w t)) (fst (event_input na cfg w t)) net = (r, net')"
    by fastforce
  with Suc.prems(1) obtain ids rest where r: "r = Inr ids"
    "baseline_loop na clk (workload_expand w) (Suc t) n net' (snd (event_input na cfg w t)) = Inr rest"
    "map tr_channels records = sort (map (\<lambda>i. of_nat i) (filter (\<lambda>i. i < 65536) ids)) # map tr_channels rest"
    by (auto simp: d bind_res_Inr case_prod_beta split: sum.splits)
  have "filter (\<lambda>i. i < 65536) ids = ids"
    using fit s r(1) by (metis (full_types) ids_fit_def list_all_iff filter_id_conv)
  moreover have "length (snd (event_input na cfg w t)) = dc_channels cfg" by (simp add: event_input_def)
  ultimately show ?case
    using Suc.IH [OF r(2)] s r by auto
qed simp

lemma records_channels:
  "length (sh_polls s) = length (sh_emits s) \<Longrightarrow>
     \<exists>records. tick_records s = Inr records \<and> map tr_channels records = map snd (sh_emits s)"
  by (auto simp: tick_records_def case_prod_beta comp_def intro!: nth_equalityI)

lemma equivalent_runs:
  assumes dims: "neuromod_dims (dv_na dv)" and fit: "ids_fit (dv_na dv)"
    and ok: "experiment_ok (dv_codec dv) (dv_poll_clock dv) cfg w"
    and base: "run_baseline dv cfg w = Inr rb"
  shows "\<exists>rd. run_daemon dv cfg w = Inr rd \<and>
     map tr_channels (dr_records rd) = map tr_channels (dr_records rb) \<and>
     length (dr_records rd) = unat (wl_ticks w) \<and> dr_provenance rd = dr_provenance rb \<and>
     option_all (clean_stats (unat (wl_ticks w))) (dr_stats rd) \<and> dr_stats rd \<noteq> None \<and>
     dr_stimulus_frames rd = of_nat (events_before sends_stimuli w (unat (wl_ticks w))) \<and>
     dr_modulator_frames rd = of_nat (events_before sends_modulators w (unat (wl_ticks w)))"
proof -
  let ?n = "unat (wl_ticks w)" and ?be = "build_backend cfg w"
  obtain net prov records where
    restore: "restore_network (dv_fs dv) (dv_decoders dv) (dv_na dv) cfg = Inr (net, prov)" and
    loop: "baseline_loop (dv_na dv) (dv_step_clock dv) (workload_expand w) 0 ?n net
      (replicate (dc_channels cfg) f_zero) = Inr records" and
    rb: "dr_records rb = records" "dr_provenance rb = Some prov"
    using base by (auto simp: run_baseline_def bind_res_Inr case_prod_beta Let_def)
  obtain idss where idss: "step_all (dv_na dv) (event_input (dv_na dv) cfg w) 0 ?n net = Some idss"
    "map tr_channels records = map (\<lambda>ids. sort (map (\<lambda>i. of_nat i) ids)) idss"
    using baseline_steps [OF fit loop, of cfg] by auto
  have "daemon_config_validate cfg = Inr ()"
    using restore by (auto simp: restore_network_def bind_res_Inr)
  then have start: "source_at (dv_codec dv) (dv_poll_clock dv) cfg w 0 (bp_source ?be)" "sink_channels (bp_sink ?be) = []"
    using ok by (simp_all add: source_at_def build_backend_def workload_policy_def shared_default_def sink_channels_def)
  obtain d stats e src where run: "try_with_backend (dv_started_at dv) cfg ?be = Inr d"
    "run_for_ticks (dv_fs dv) (dv_decoders dv) (dv_na dv) (workload_source_ops (dv_codec dv) (dv_poll_clock dv))
       (recording_sink_ops (dv_emit_clock dv)) (dv_show_error dv) (dv_boot_clock dv)
       (map (dv_tick_env dv) [0..<?n]) d = (Inr stats, e)"
    "rs_loaded_checkpoint stats = Some prov" "clean_stats ?n stats" "sink_channels (re_sink e) = map primary.recorded idss"
    "re_source e = snd (so_shutdown (workload_source_ops (dv_codec dv) (dv_poll_clock dv)) src)"
    "source_at (dv_codec dv) (dv_poll_clock dv) cfg w ?n src"
    using primary.bounded_run [OF dims fit restore idss(1) refl refl start] by metis
  let ?shared = "shared_after (re_source e) (re_sink e)"
  have same: "map snd (sh_emits ?shared) = map tr_channels records"
    using run(5) by (simp add: shared_after_def sink_channels_def idss(2) primary.recorded_def)
  moreover have "length (sh_polls ?shared) = ?n"
    using run(6,7) by (simp add: shared_after_def source_at_def workload_source_ops_def workload_shutdown_def)
  moreover have "length records = ?n"
    using step_all_length [OF idss(1)] arg_cong [OF idss(2), of length] by simp
  moreover have "sh_stimulus_frames ?shared = of_nat (events_before sends_stimuli w ?n)"
    "sh_modulator_frames ?shared = of_nat (events_before sends_modulators w ?n)"
    using run(6,7) by (simp_all add: shared_after_def source_at_def workload_source_ops_def workload_shutdown_def)
  ultimately obtain drecords where "tick_records ?shared = Inr drecords"
    "map tr_channels drecords = map tr_channels records" "length drecords = ?n"
    "sh_stimulus_frames ?shared = of_nat (events_before sends_stimuli w ?n)"
    "sh_modulator_frames ?shared = of_nat (events_before sends_modulators w ?n)"
    using records_channels [of ?shared] by (metis length_map)
  with run rb show ?thesis by (simp add: run_daemon_def Let_def)
qed


section \<open>A concrete experiment\<close>

definition demo_event :: workload_event where
  "demo_event = \<lparr> ev_offset = 0, ev_values = [f_one], ev_valid_mask = None, ev_modulators = None \<rparr>"

definition demo_workload :: workload where
  "demo_workload =
     \<lparr> wl_fixture_sha256 = ''ab'', wl_channels = 1, wl_ticks_per_cycle = 2, wl_cycles = 1, wl_ticks = 2,
       wl_warmup_ticks = 0, wl_cycle_events = [demo_event],
       wl_transport = \<lparr> tp_pulse_spacing_ticks = 0, tp_pulses = 0, tp_amplitude = f_zero,
                        tp_expected_by_channel = Map.empty \<rparr> \<rparr>"

text \<open>A codec good enough for this workload: the length of the text carries identifier and time.\<close>

definition demo_ipc :: ipc_codec where
  "demo_ipc =
     \<lparr> ic_encode = (\<lambda>m. case m of
         IpcStimuli b \<Rightarrow> Inr (replicate (unat (sb_batch_id b) + 0x10000000000000000 * unat (sb_timestamp b)) CHR ''x'')
       | _ \<Rightarrow> Inl ''unsupported''),
       ic_decode = (\<lambda>s. Inr (IpcStimuli (event_batch (of_nat (length s div 0x10000000000000000))
         (of_nat (length s mod 0x10000000000000000)) demo_event))),
       ic_validate = (\<lambda>_. Inr ()) \<rparr>"

definition demo_driver :: "unit driver_env" where
  "demo_driver =
     \<lparr> dv_fs = demo_fs, dv_decoders = demo_de, dv_na = demo_na, dv_codec = demo_ipc,
       dv_show_error = demo_show, dv_started_at = 0, dv_run_at = 0, dv_boot_clock = (\<lambda>_. 0), dv_tick_env = (\<lambda>_. demo_env),
       dv_poll_clock = (\<lambda>t. \<lparr> pk_encode = 10, pk_decode_start = 1, pk_now = 11, pk_poll = 2 \<rparr>),
       dv_emit_clock = (\<lambda>n. 3 + n), dv_step_clock = (\<lambda>n. (n, Suc n)), dv_finished_at = 9 \<rparr>"

lemma demo_ipc_serves: "codec_serves demo_ipc demo_event"
proof -
  have "codec_keeps demo_ipc (IpcStimuli (event_batch now bid demo_event))" for now bid
  proof -
    have "unat bid < 0x10000000000000000" using unsigned_less [of bid] by simp
    then show ?thesis by (simp add: codec_keeps_def demo_ipc_def event_batch_def)
  qed
  then show ?thesis by (simp add: codec_serves_def demo_event_def) (simp add: demo_ipc_def)
qed

lemma demo_experiment_ok: "experiment_ok demo_ipc (dv_poll_clock demo_driver) demo_cfg demo_workload"
proof -
  have "event_fits demo_cfg demo_event" by (simp add: event_fits_def demo_event_def f_one_def)
  moreover have "poll_fresh (dv_poll_clock demo_driver t)" for t
    by (simp add: poll_fresh_def demo_driver_def)
  ultimately show ?thesis
    by (simp add: experiment_ok_def demo_workload_def demo_ipc_serves) (simp add: ingress_config_default_def)
qed

lemma demo_baseline: "\<exists>records. baseline_loop demo_na clk events t n net stim = Inr records"
proof (induction n arbitrary: t net stim)
  case (Suc n)
  obtain m xs where d: "decode_event demo_na (events (of_nat t)) stim = (m, xs)" by fastforce
  moreover have "na_step demo_na xs m net = (Inr [0], net)" by (simp add: demo_na_def)
  ultimately show ?case using Suc.IH [of "Suc t" net xs] by (auto simp: case_prod_beta Let_def)
qed simp

lemma demo_runs: "\<exists>rb. run_baseline demo_driver demo_cfg demo_workload = Inr rb"
proof -
  obtain net prov where "restore_network demo_fs demo_de demo_na demo_cfg = Inr (net, prov)"
    using demo_restore [of "Fin False (1 / 2)"] f32_half by (auto simp: f_zero_def f_one_def)
  moreover obtain records where "baseline_loop demo_na (dv_step_clock demo_driver) (workload_expand demo_workload) 0
      (unat (wl_ticks demo_workload)) net (replicate (dc_channels demo_cfg) f_zero) = Inr records"
    using demo_baseline by blast
  moreover have "dv_fs demo_driver = demo_fs" "dv_decoders demo_driver = demo_de" "dv_na demo_driver = demo_na"
    by (simp_all add: demo_driver_def)
  ultimately show ?thesis unfolding run_baseline_def by (simp add: case_prod_beta Let_def)
qed

lemma demo_driver_ok:
  "neuromod_dims (dv_na demo_driver)" "ids_fit (dv_na demo_driver)"
  "experiment_ok (dv_codec demo_driver) (dv_poll_clock demo_driver) demo_cfg demo_workload"
  using demo_experiment_ok
  by (simp_all add: demo_driver_def demo_na_def neuromod_dims_def network_shape_def ids_fit_def)


end
