(* ===== verification/Transport.thy ===== *)
theory Transport
  imports Measurement Usefulness
begin

text \<open>
  The transport driver of the usefulness experiment (\<open>examples/usefulness_transport.rs\<close> and
  \<open>examples/usefulness_common/frames.rs\<close>): it starts the daemon binary, waits until it is
  ready, sends stimulus frames over ZeroMQ, collects every frame the daemon publishes, matches
  answers to pulses by order and stops the daemon. The sockets, the clocks and the process are
  observations: one record per call that looks at them. A run is \<open>None\<close> while it still polls
  when the observations of a loop end.
\<close>

section \<open>Frames\<close>

datatype frame_phase = PhSubscribe | PhPrime | PhMeasure | PhTail

fun frame_phase_as_str :: "frame_phase \<Rightarrow> string" where
  "frame_phase_as_str PhSubscribe = ''subscribe''"
| "frame_phase_as_str PhPrime = ''prime''"
| "frame_phase_as_str PhMeasure = ''measure''"
| "frame_phase_as_str PhTail = ''tail''"

definition phase_measured :: "frame_phase \<Rightarrow> bool" where
  "phase_measured ph \<longleftrightarrow> ph = PhMeasure \<or> ph = PhTail"

record pub_frame =
  fm_phase :: frame_phase
  fm_recv :: instant
  fm_channels :: "u16 list"
  fm_batch_id :: u64
  fm_timestamp :: u64

definition measured_nonempty :: "pub_frame \<Rightarrow> bool" where
  "measured_nonempty f \<longleftrightarrow> phase_measured (fm_phase f) \<and> fm_channels f \<noteq> []"

datatype transport_error =
    TeConfig config_error
  | TeDriver driver_error
  | TeSpacing u32
  | TeExpected nat
  | TeNoControl
  | TeControlAddr
  | TeZmq string
  | TeProcess process_error
  | TeDecode string
  | TeVariant
  | TeTimeout
  | TeEncode string
  | TeNoSubscription
  | TePrime
  | TeIndex
  | TePanic
  | TeHttp string
  | TeWrite string

definition parse_spikes :: "(string \<Rightarrow> string + ipc_message) \<Rightarrow> string \<Rightarrow> transport_error + u16 list \<times> u64 \<times> u64" where
  "parse_spikes dec bytes =
     bind_res (map_err TeDecode (dec bytes)) (\<lambda>m.
       case m of
         IpcSpikes batch \<Rightarrow>
           (let channels = map cs_channel (pb_spikes batch); channels = sort channels
            in Inr (channels, pb_batch_id batch, pb_timestamp batch))
       | _ \<Rightarrow> Inl TeVariant)"

text \<open>One receive: the clock before it, what \<open>poll\<close> and \<open>recv_bytes\<close> return, the clock after it.\<close>

record recv_obs =
  rv_now :: instant
  rv_poll :: "string + nat"
  rv_bytes :: "string + string"
  rv_at :: instant

definition recv_until :: "recv_obs \<Rightarrow> instant \<Rightarrow> transport_error + string option" where
  "recv_until ob deadline =
     (let remaining = deadline - rv_now ob; timeout = max (remaining div 1000000) 1
      in if remaining = 0 then Inr None
         else if timeout \<ge> 2 ^ 63 then Inl TeTimeout
         else bind_res (map_err TeZmq (rv_poll ob)) (\<lambda>n.
           if n = 0 then Inr None else bind_res (map_err TeZmq (rv_bytes ob)) (\<lambda>bytes. Inr (Some bytes))))"

record collect_obs =
  co_start :: instant
  co_recvs :: "recv_obs list"

fun collect_loop ::
  "(string \<Rightarrow> string + ipc_message) \<Rightarrow> instant \<Rightarrow> frame_phase \<Rightarrow> recv_obs list \<Rightarrow> pub_frame list
     \<Rightarrow> (transport_error + pub_frame list) option" where
  "collect_loop dec deadline ph [] frames = None"
| "collect_loop dec deadline ph (ob # obs) frames =
     (case recv_until ob deadline of
        Inl e \<Rightarrow> Some (Inl e)
      | Inr None \<Rightarrow> Some (Inr frames)
      | Inr (Some bytes) \<Rightarrow>
          (case parse_spikes dec bytes of
             Inl e \<Rightarrow> Some (Inl e)
           | Inr (channels, batch_id, timestamp) \<Rightarrow>
               collect_loop dec deadline ph obs (frames @
                 [\<lparr> fm_phase = ph, fm_recv = rv_at ob, fm_channels = channels, fm_batch_id = batch_id,
                    fm_timestamp = timestamp \<rparr>])))"

definition collect_frames ::
  "(string \<Rightarrow> string + ipc_message) \<Rightarrow> collect_obs \<Rightarrow> duration \<Rightarrow> frame_phase \<Rightarrow> pub_frame list
     \<Rightarrow> (transport_error + pub_frame list) option" where
  "collect_frames dec ob wait ph frames =
     (let deadline = co_start ob + wait in collect_loop dec deadline ph (co_recvs ob) frames)"

section \<open>The session\<close>

definition SUBSCRIBE_DEADLINE :: duration where "SUBSCRIBE_DEADLINE = 5000000000"
definition PRIME_ATTEMPTS :: nat where "PRIME_ATTEMPTS = 200"
definition PRIME_WAIT :: duration where "PRIME_WAIT = 100000000"
definition TAIL_WAIT :: duration where "TAIL_WAIT = 250000000"
definition TRANSPORT_SESSION_ID :: string where "TRANSPORT_SESSION_ID = ''usefulness-transport''"

record pulse =
  pu_index :: nat
  pu_channel :: nat
  pu_sent_at :: instant

record transport_session =
  ses_channels :: usize
  ses_amplitude :: f32
  ses_pulses :: usize
  ses_spacing :: duration
  ses_expected :: "u16 list list"

fun expected_channels :: "(string \<rightharpoonup> u16 list) \<Rightarrow> nat list \<Rightarrow> transport_error + u16 list list" where
  "expected_channels by_channel [] = Inr []"
| "expected_channels by_channel (c # cs) =
     (case by_channel (show_nat c) of
        None \<Rightarrow> Inl (TeExpected c)
      | Some channels \<Rightarrow> bind_res (expected_channels by_channel cs) (\<lambda>rest. Inr (channels # rest)))"

text \<open>The product wraps in a release build.\<close>

definition session_new :: "daemon_config \<Rightarrow> workload \<Rightarrow> transport_error + transport_session" where
  "session_new cfg workload =
     bind_res (map_err TeDriver (check_channels (dc_channels cfg) workload)) (\<lambda>_.
     let transport = wl_transport workload;
         spacing_ns = 1000000000 * tp_pulse_spacing_ticks transport div ucast (dc_tick_rate_hz cfg)
     in if spacing_ns = 0 then Inl (TeSpacing (dc_tick_rate_hz cfg))
        else bind_res (expected_channels (tp_expected_by_channel transport) [0..<dc_channels cfg]) (\<lambda>expected.
          Inr \<lparr> ses_channels = dc_channels cfg, ses_amplitude = tp_amplitude transport,
                ses_pulses = unat (tp_pulses transport), ses_spacing = unat spacing_ns, ses_expected = expected \<rparr>))"

text \<open>Writing past the vector panics.\<close>

definition session_frame ::
  "(ipc_message \<Rightarrow> string + string) \<Rightarrow> u64 \<Rightarrow> transport_session \<Rightarrow> nat \<Rightarrow> u64 \<Rightarrow> transport_error + string" where
  "session_frame enc now s channel batch_id =
     (if ses_channels s \<le> channel then Inl TePanic
      else let values = (replicate (ses_channels s) f_zero)[channel := ses_amplitude s]
           in map_err TeEncode (stimulus_frame enc now TRANSPORT_SESSION_ID batch_id values
                (Some (replicate (ses_channels s) True))))"

text \<open>The calls on the two sockets, in order.\<close>

datatype socket_call =
    OpSocket string
  | OpLinger nat
  | OpSndhwm nat
  | OpRcvhwm nat
  | OpSubscribe string
  | OpBind string
  | OpConnect string

definition socket_calls :: "daemon_config \<Rightarrow> socket_call list" where
  "socket_calls cfg =
     [OpSocket ''PUB'', OpLinger 0, OpSndhwm 1000, OpBind (''tcp://127.0.0.1:'' @ show_nat (unat (dc_spine_sub_port cfg))),
      OpSocket ''SUB'', OpLinger 0, OpRcvhwm 65536, OpSubscribe [],
      OpConnect (''tcp://127.0.0.1:'' @ show_nat (unat (dc_spine_pub_port cfg)))]"

definition open_sockets :: "(socket_call \<Rightarrow> string + unit) \<Rightarrow> daemon_config \<Rightarrow> transport_error + unit" where
  "open_sockets call cfg = map_err TeZmq (for_each_res call (socket_calls cfg))"

section \<open>Sending and collecting\<close>

text \<open>\<open>?\<close> on a loop that may still be running.\<close>

definition run_bind :: "('e + 'a) option \<Rightarrow> ('a \<Rightarrow> ('e + 'b) option) \<Rightarrow> ('e + 'b) option" where
  "run_bind m f = (case m of None \<Rightarrow> None | Some (Inl e) \<Rightarrow> Some (Inl e) | Some (Inr x) \<Rightarrow> f x)"

text \<open>What the loops thread through: the frames so far, the next batch id, the payloads sent.\<close>

record wire =
  wi_frames :: "pub_frame list"
  wi_batch_id :: u64
  wi_sent :: "string list"

record ipc_text =
  it_encode :: "ipc_message \<Rightarrow> string + string"
  it_decode :: "string \<Rightarrow> string + ipc_message"

definition wire_collect ::
  "ipc_text \<Rightarrow> collect_obs \<Rightarrow> duration \<Rightarrow> frame_phase \<Rightarrow> wire \<Rightarrow> (transport_error + wire) option" where
  "wire_collect co ob wait ph w =
     run_bind (collect_frames (it_decode co) ob wait ph (wi_frames w)) (\<lambda>frames. Some (Inr (w\<lparr>wi_frames := frames\<rparr>)))"

definition confirm_subscription :: "ipc_text \<Rightarrow> collect_obs \<Rightarrow> wire \<Rightarrow> (transport_error + wire) option" where
  "confirm_subscription co ob w =
     run_bind (wire_collect co ob SUBSCRIBE_DEADLINE PhSubscribe w) (\<lambda>w.
       if wi_frames w = [] then Some (Inl TeNoSubscription) else Some (Inr w))"

definition wire_send :: "string + unit \<Rightarrow> string \<Rightarrow> wire \<Rightarrow> transport_error + wire" where
  "wire_send outcome payload w =
     bind_res (map_err TeZmq outcome) (\<lambda>_. Inr (w\<lparr>wi_sent := wi_sent w @ [payload]\<rparr>))"

record prime_obs =
  pr_now :: u64
  pr_send :: "string + unit"
  pr_collect :: collect_obs
  pr_settle :: collect_obs

fun prime_loop ::
  "ipc_text \<Rightarrow> (nat \<Rightarrow> prime_obs) \<Rightarrow> transport_session \<Rightarrow> nat list \<Rightarrow> wire \<Rightarrow> (transport_error + nat \<times> wire) option" where
  "prime_loop co obs s [] w = Some (Inl TePrime)"
| "prime_loop co obs s (attempt # attempts) w =
     (let ob = obs attempt
      in run_bind (Some (session_frame (it_encode co) (pr_now ob) s 0 (wi_batch_id w))) (\<lambda>payload.
         run_bind (Some (wire_send (pr_send ob) payload w)) (\<lambda>w.
         let w = w\<lparr>wi_batch_id := wi_batch_id w + 1\<rparr>; before = length (wi_frames w)
         in run_bind (wire_collect co (pr_collect ob) PRIME_WAIT PhPrime w) (\<lambda>w.
            if list_ex (\<lambda>f. fm_channels f = ses_expected s ! 0) (drop before (wi_frames w))
            then run_bind (wire_collect co (pr_settle ob) (ses_spacing s * 2) PhPrime w) (\<lambda>w. Some (Inr (attempt, w)))
            else prime_loop co obs s attempts w))))"

definition prime_session ::
  "ipc_text \<Rightarrow> (nat \<Rightarrow> prime_obs) \<Rightarrow> transport_session \<Rightarrow> wire \<Rightarrow> (transport_error + nat \<times> wire) option" where
  "prime_session co obs s w = prime_loop co obs s [1..<PRIME_ATTEMPTS + 1] w"

record measure_obs =
  me_now :: u64
  me_sent_at :: instant
  me_send :: "string + unit"
  me_clock :: instant
  me_collect :: collect_obs

text \<open>The send time of the next pulse: the index has to fit, and \<open>Duration\<close> panics on overflow.\<close>

definition next_pulse_at :: "transport_session \<Rightarrow> instant \<Rightarrow> nat \<Rightarrow> transport_error + instant" where
  "next_pulse_at s start index =
     (if 2 ^ 32 \<le> index + 1 then Inl TeIndex
      else if 2 ^ 64 \<le> ses_spacing s * (index + 1) div 1000000000 then Inl TePanic
      else Inr (start + ses_spacing s * (index + 1)))"

fun measure_loop ::
  "ipc_text \<Rightarrow> (nat \<Rightarrow> measure_obs) \<Rightarrow> transport_session \<Rightarrow> instant \<Rightarrow> nat list \<Rightarrow> pulse list \<Rightarrow> wire
     \<Rightarrow> (transport_error + pulse list \<times> wire) option" where
  "measure_loop co obs s start [] pulses w = Some (Inr (pulses, w))"
| "measure_loop co obs s start (index # indices) pulses w =
     (let ob = obs index; channel = index mod ses_channels s
      in run_bind (Some (session_frame (it_encode co) (me_now ob) s channel (wi_batch_id w))) (\<lambda>payload.
         let w = w\<lparr>wi_batch_id := wi_batch_id w + 1\<rparr>
         in run_bind (Some (wire_send (me_send ob) payload w)) (\<lambda>w.
            let pulses = pulses @ [\<lparr> pu_index = index, pu_channel = channel, pu_sent_at = me_sent_at ob \<rparr>]
            in run_bind (Some (next_pulse_at s start index)) (\<lambda>next.
               run_bind (wire_collect co (me_collect ob) (next - me_clock ob) PhMeasure w) (\<lambda>w.
                 measure_loop co obs s start indices pulses w)))))"

definition measure_session ::
  "ipc_text \<Rightarrow> (nat \<Rightarrow> measure_obs) \<Rightarrow> collect_obs \<Rightarrow> instant \<Rightarrow> transport_session \<Rightarrow> wire
     \<Rightarrow> (transport_error + pulse list \<times> wire) option" where
  "measure_session co obs tail start s w =
     run_bind (measure_loop co obs s start [0..<ses_pulses s] [] w) (\<lambda>(pulses, w).
     run_bind (wire_collect co tail TAIL_WAIT PhTail w) (\<lambda>w. Some (Inr (pulses, w))))"

section \<open>Matching answers to pulses\<close>

record pulse_record =
  pe_pulse :: nat
  pe_channel :: nat
  pe_matched :: bool
  pe_latency :: "u64 option"
  pe_received :: "u16 list option"

record outcome =
  oc_latencies_ns :: "u64 list"
  oc_matched :: u64
  oc_mismatched :: u64
  oc_per_pulse :: "pulse_record list"

definition outcome_default :: outcome where
  "outcome_default = \<lparr> oc_latencies_ns = [], oc_matched = 0, oc_mismatched = 0, oc_per_pulse = [] \<rparr>"

definition answered :: "pulse \<Rightarrow> pub_frame \<Rightarrow> u16 list \<Rightarrow> outcome \<Rightarrow> outcome" where
  "answered p f want oc =
     (let matched = fm_channels f = want;
          oc = (if matched then oc\<lparr>oc_matched := oc_matched oc + 1\<rparr> else oc\<lparr>oc_mismatched := oc_mismatched oc + 1\<rparr>);
          latency = of_nat (fm_recv f - pu_sent_at p)
      in oc\<lparr>oc_latencies_ns := oc_latencies_ns oc @ [latency],
            oc_per_pulse := oc_per_pulse oc @ [\<lparr> pe_pulse = pu_index p, pe_channel = pu_channel p, pe_matched = matched,
              pe_latency = Some latency, pe_received = Some (fm_channels f) \<rparr>]\<rparr>)"

definition unanswered :: "pulse \<Rightarrow> outcome \<Rightarrow> outcome" where
  "unanswered p oc =
     oc\<lparr>oc_per_pulse := oc_per_pulse oc @ [\<lparr> pe_pulse = pu_index p, pe_channel = pu_channel p, pe_matched = False,
          pe_latency = None, pe_received = None \<rparr>]\<rparr>"

definition correlate_pulse :: "pub_frame list \<Rightarrow> u16 list list \<Rightarrow> pulse \<Rightarrow> outcome \<Rightarrow> outcome" where
  "correlate_pulse nonempty expected p oc =
     (if pu_index p < length nonempty
      then answered p (nonempty ! pu_index p) (expected ! pu_channel p) oc else unanswered p oc)"

definition correlate :: "pulse list \<Rightarrow> pub_frame list \<Rightarrow> u16 list list \<Rightarrow> outcome \<times> nat" where
  "correlate pulses frames expected =
     (let nonempty = filter measured_nonempty frames
      in (fold (correlate_pulse nonempty expected) pulses outcome_default, length nonempty))"

fun assign_pulses :: "nat \<Rightarrow> nat \<Rightarrow> pub_frame list \<Rightarrow> nat option list" where
  "assign_pulses pulses seen [] = []"
| "assign_pulses pulses seen (f # frames) =
     (if \<not> measured_nonempty f then None # assign_pulses pulses seen frames
      else (if seen < pulses then Some seen else None) # assign_pulses pulses (seen + 1) frames)"

definition pulse_assignment :: "pub_frame list \<Rightarrow> nat \<Rightarrow> nat option list" where
  "pulse_assignment frames pulses = assign_pulses pulses 0 frames"

record frame_record =
  fc_seq :: nat
  fc_phase :: string
  fc_recv_ns :: u64
  fc_channels :: "u16 list"
  fc_batch_id :: u64
  fc_timestamp :: u64
  fc_pulse :: "nat option"
  fc_send_ns :: "u64 option"

definition frame_records :: "pub_frame list \<Rightarrow> pulse list \<Rightarrow> instant \<Rightarrow> frame_record list" where
  "frame_records frames pulses started =
     (let assignment = pulse_assignment frames (length pulses)
      in map (\<lambda>(seq, (f, p)).
           \<lparr> fc_seq = seq, fc_phase = frame_phase_as_str (fm_phase f), fc_recv_ns = of_nat (fm_recv f - started),
             fc_channels = fm_channels f, fc_batch_id = fm_batch_id f, fc_timestamp = fm_timestamp f, fc_pulse = p,
             fc_send_ns = map_option (\<lambda>i. of_nat (pu_sent_at (pulses ! i) - started)) p \<rparr>)
         (enumerate 0 (zip frames assignment)))"

section \<open>The whole run\<close>

record transport_env =
  tv_fs :: filesystem
  tv_toml :: "string \<Rightarrow> string + daemon_config"
  tv_parse :: "string \<Rightarrow> string + workload"
  tv_config :: path
  tv_workload :: path
  tv_ipc :: ipc_text
  tv_socket :: "socket_call \<Rightarrow> string + unit"
  tv_spawn :: "string + u32"
  tv_spawned_at :: instant
  tv_ready_start :: instant
  tv_ready_polls :: "ready_poll list"
  tv_subscribe :: collect_obs
  tv_prime :: "nat \<Rightarrow> prime_obs"
  tv_start :: instant
  tv_measure :: "nat \<Rightarrow> measure_obs"
  tv_tail :: collect_obs
  tv_metrics :: "string \<Rightarrow> http_exchange"
  tv_health :: "string \<Rightarrow> http_exchange"
  tv_rss :: filesystem
  tv_peak :: filesystem
  tv_json :: "string \<Rightarrow> json option"
  tv_term_sent :: instant
  tv_term_shell :: "string + bool"
  tv_term_polls :: "exit_poll list"
  tv_log :: "string option"
  tv_write_frames :: "string + unit"
  tv_write_summary :: "string + unit"

record transport_setup =
  su_session :: transport_session
  su_daemon :: daemon_process
  su_ready_after :: duration

text \<open>Everything before the process is started.\<close>

definition setup_session :: "transport_env \<Rightarrow> transport_error + transport_session" where
  "setup_session te =
     bind_res (map_err TeConfig (daemon_config_load (tv_fs te) (tv_toml te) (tv_config te))) (\<lambda>cfg.
     bind_res (map_err TeDriver (workload_load (tv_fs te) (tv_parse te) (tv_workload te))) (\<lambda>workload.
     bind_res (session_new cfg workload) (\<lambda>session.
     bind_res (case dc_control_bind cfg of None \<Rightarrow> Inl TeNoControl | Some bind \<Rightarrow> Inr bind) (\<lambda>bind.
     bind_res (if parse_socket_addr bind = None then Inl TeControlAddr else Inr ()) (\<lambda>_.
     bind_res (open_sockets (tv_socket te) cfg) (\<lambda>_. Inr session))))))"

text \<open>
  The second component is what was done to processes; a process whose start-up wait failed is
  dropped on the way out.
\<close>

definition setup_new :: "transport_env \<Rightarrow> ((transport_error + transport_setup) \<times> process_effect list) option" where
  "setup_new te =
     (case setup_session te of
        Inl e \<Rightarrow> Some (Inl e, [])
      | Inr session \<Rightarrow>
          (case process_spawn (tv_spawn te) (tv_spawned_at te) of
             Inl e \<Rightarrow> Some (Inl (TeProcess e), [])
           | Inr daemon \<Rightarrow>
               (case wait_ready (tv_ready_start te) (tv_ready_polls te) daemon of
                  None \<Rightarrow> None
                | Some (Inl e, dp, es) \<Rightarrow>
                    Some (Inl (TeProcess e), EfSpawn (process_pid daemon) # es @ process_drop dp)
                | Some (Inr waited, dp, es) \<Rightarrow>
                    Some (Inr \<lparr> su_session = session, su_daemon = dp, su_ready_after = waited \<rparr>,
                      EfSpawn (process_pid daemon) # es))))"

record probes =
  po_metrics :: "(nat \<times> string) option"
  po_health :: "(nat \<times> string) option"
  po_rss_kb :: "u64 option"
  po_peak_rss_kb :: "u64 option"

definition probe_daemon :: "transport_env \<Rightarrow> u32 \<Rightarrow> transport_error + probes" where
  "probe_daemon te p =
     bind_res (map_err TeHttp (http_get (tv_metrics te) ''/metrics'')) (\<lambda>metrics.
     bind_res (map_err TeHttp (http_get (tv_health te) ''/health'')) (\<lambda>health.
       Inr \<lparr> po_metrics = metrics, po_health = health, po_rss_kb = vm_status_kb (tv_rss te) (Some p) ''VmRSS:'',
             po_peak_rss_kb = vm_status_kb (tv_peak te) (Some p) ''VmHWM:'' \<rparr>))"

record capture =
  ca_pid :: u32
  ca_frames :: "pub_frame list"
  ca_pulses :: "pulse list"
  ca_prime_attempts :: nat
  ca_sent :: "string list"
  ca_probes :: probes
  ca_exit :: "duration \<times> exit_status"
  ca_termination_logged :: bool

text \<open>The measurement up to the last probe, which touches no process.\<close>

definition capture_wire ::
  "transport_env \<Rightarrow> u32 \<Rightarrow> transport_session \<Rightarrow> (transport_error + nat \<times> pulse list \<times> wire \<times> probes) option" where
  "capture_wire te p s =
     run_bind (confirm_subscription (tv_ipc te) (tv_subscribe te) \<lparr> wi_frames = [], wi_batch_id = 1, wi_sent = [] \<rparr>) (\<lambda>w.
     run_bind (prime_session (tv_ipc te) (tv_prime te) s w) (\<lambda>(attempts, w).
     run_bind (measure_session (tv_ipc te) (tv_measure te) (tv_tail te) (tv_start te) s w) (\<lambda>(pulses, w).
     run_bind (Some (probe_daemon te p)) (\<lambda>probes. Some (Inr (attempts, pulses, w, probes))))))"

definition TERMINATION_LINE :: string where
  "TERMINATION_LINE = ''Termination signal received''"

definition capture_run ::
  "transport_env \<Rightarrow> transport_session \<Rightarrow> daemon_process
     \<Rightarrow> ((transport_error + capture) \<times> daemon_process \<times> process_effect list) option" where
  "capture_run te s dp =
     (case capture_wire te (process_pid dp) s of
        None \<Rightarrow> None
      | Some (Inl e) \<Rightarrow> Some (Inl e, dp, [])
      | Some (Inr (attempts, pulses, w, probes)) \<Rightarrow>
          map_option (\<lambda>(r, dp', es).
              (bind_res (map_err TeProcess r) (\<lambda>exit.
                 Inr \<lparr> ca_pid = process_pid dp, ca_frames = wi_frames w, ca_pulses = pulses, ca_prime_attempts = attempts,
                       ca_sent = wi_sent w, ca_probes = probes, ca_exit = exit,
                       ca_termination_logged =
                         split_once TERMINATION_LINE (case tv_log te of Some l \<Rightarrow> l | None \<Rightarrow> []) \<noteq> None \<rparr>), dp', es))
            (process_terminate (tv_term_sent te) (tv_term_shell te) (tv_term_polls te) dp))"

definition count_frames :: "(pub_frame \<Rightarrow> bool) \<Rightarrow> pub_frame list \<Rightarrow> nat" where
  "count_frames p frames = length (filter p frames)"

text \<open>The summary, but for what it repeats of the arguments and the workload.\<close>

record transport_summary =
  sm_daemon_pid :: u32
  sm_ready_after_ns :: u64
  sm_subscribe_frames :: nat
  sm_prime_attempts :: nat
  sm_prime_frames :: nat
  sm_pulse_spacing_ns :: u64
  sm_pulses_sent :: u64
  sm_frames_total :: nat
  sm_measured_total :: nat
  sm_measured_empty :: nat
  sm_measured_nonempty :: nat
  sm_matched :: u64
  sm_mismatched :: u64
  sm_lost :: u64
  sm_extra_nonempty :: u64
  sm_latency_ns :: latency_summary
  sm_per_pulse :: "pulse_record list"
  sm_daemon_rss_kb :: "u64 option"
  sm_daemon_peak_rss_kb :: "u64 option"
  sm_metrics_status :: "nat option"
  sm_metrics_text :: "string option"
  sm_health_status :: "nat option"
  sm_health_json :: "json option"
  sm_sigterm_exit_ns :: u64
  sm_exit_code :: exit_status
  sm_termination_logged :: bool

definition transport_summary_of ::
  "(string \<Rightarrow> json option) \<Rightarrow> transport_setup \<Rightarrow> capture \<Rightarrow> outcome \<Rightarrow> nat \<Rightarrow> transport_summary" where
  "transport_summary_of parse_json su ca oc nonempty =
     (let frames = ca_frames ca; sent = of_nat (length (ca_pulses ca)); probes = ca_probes ca
      in \<lparr> sm_daemon_pid = ca_pid ca, sm_ready_after_ns = of_nat (su_ready_after su),
           sm_subscribe_frames = count_frames (\<lambda>f. fm_phase f = PhSubscribe) frames,
           sm_prime_attempts = ca_prime_attempts ca,
           sm_prime_frames = count_frames (\<lambda>f. fm_phase f = PhPrime) frames,
           sm_pulse_spacing_ns = of_nat (ses_spacing (su_session su)),
           sm_pulses_sent = sent, sm_frames_total = length frames,
           sm_measured_total = count_frames (\<lambda>f. phase_measured (fm_phase f)) frames,
           sm_measured_empty = count_frames (\<lambda>f. phase_measured (fm_phase f) \<and> fm_channels f = []) frames,
           sm_measured_nonempty = nonempty, sm_matched = oc_matched oc, sm_mismatched = oc_mismatched oc,
           sm_lost = sent - oc_matched oc - oc_mismatched oc,
           sm_extra_nonempty = of_nat (nonempty - length (ca_pulses ca)),
           sm_latency_ns = latency_json (oc_latencies_ns oc), sm_per_pulse = oc_per_pulse oc,
           sm_daemon_rss_kb = po_rss_kb probes, sm_daemon_peak_rss_kb = po_peak_rss_kb probes,
           sm_metrics_status = map_option fst (po_metrics probes), sm_metrics_text = map_option snd (po_metrics probes),
           sm_health_status = map_option fst (po_health probes),
           sm_health_json = Option.bind (po_health probes) (\<lambda>(_, b). parse_json b),
           sm_sigterm_exit_ns = of_nat (fst (ca_exit ca)),
           sm_exit_code = snd (ca_exit ca), sm_termination_logged = ca_termination_logged ca \<rparr>)"

record transport_report =
  rep_records :: "frame_record list"
  rep_summary :: transport_summary
  rep_sent :: "string list"

definition transport_main :: "transport_env \<Rightarrow> ((transport_error + transport_report) \<times> process_effect list) option" where
  "transport_main te =
     (case setup_new te of
        None \<Rightarrow> None
      | Some (Inl e, es) \<Rightarrow> Some (Inl e, es)
      | Some (Inr setup, es) \<Rightarrow>
          map_option (\<lambda>(r, dp, es').
              (bind_res r (\<lambda>ca.
                 let (oc, nonempty) = correlate (ca_pulses ca) (ca_frames ca) (ses_expected (su_session setup));
                     records = frame_records (ca_frames ca) (ca_pulses ca) (dp_spawned_at dp)
                 in bind_res (map_err TeWrite (tv_write_frames te)) (\<lambda>_.
                    bind_res (map_err TeWrite (tv_write_summary te)) (\<lambda>_.
                      Inr \<lparr> rep_records = records, rep_summary = transport_summary_of (tv_json te) setup ca oc nonempty,
                            rep_sent = ca_sent ca \<rparr>))), es @ es' @ process_drop dp))
            (capture_run te (su_session setup) (su_daemon setup)))"

section \<open>Loops that return\<close>

lemma run_bind_simps [simp]:
  "run_bind None f = None" "run_bind (Some (Inl e)) f = Some (Inl e)" "run_bind (Some (Inr x)) f = f x"
  by (simp_all add: run_bind_def)

lemma run_bind_Inr: "run_bind m f = Some (Inr y) \<longleftrightarrow> (\<exists>x. m = Some (Inr x) \<and> f x = Some (Inr y))"
  by (auto simp: run_bind_def split: option.splits sum.splits)

lemma run_bind_None: "run_bind m f = None \<longleftrightarrow> m = None \<or> (\<exists>x. m = Some (Inr x) \<and> f x = None)"
  by (auto simp: run_bind_def split: option.splits sum.splits)

text \<open>A collection ends at the latest when the clock has passed its deadline.\<close>

lemma collect_returns:
  assumes "\<exists>ob \<in> set obs. deadline \<le> rv_now ob"
  shows "collect_loop dec deadline ph obs frames \<noteq> None"
  using assms
proof (induction obs arbitrary: frames)
  case (Cons ob obs)
  show ?case
  proof (cases "deadline \<le> rv_now ob")
    case True
    then show ?thesis by (simp add: recv_until_def Let_def)
  next
    case False
    with Cons show ?thesis by (auto split: sum.split option.split prod.split)
  qed
qed simp

text \<open>What one collection adds: frames of its phase, after those already there.\<close>

definition adds_frames :: "frame_phase \<Rightarrow> pub_frame list \<Rightarrow> pub_frame list \<Rightarrow> bool" where
  "adds_frames ph before later \<longleftrightarrow> (\<exists>new. later = before @ new \<and> list_all (\<lambda>f. fm_phase f = ph) new)"

lemma adds_refl: "adds_frames ph fs fs"
  by (simp add: adds_frames_def)

lemma adds_trans: "adds_frames ph a b \<Longrightarrow> adds_frames ph b c \<Longrightarrow> adds_frames ph a c"
  by (auto simp: adds_frames_def)

lemma collect_adds: "collect_loop dec deadline ph obs frames = Some (Inr frames') \<Longrightarrow> adds_frames ph frames frames'"
proof (induction obs arbitrary: frames)
  case (Cons ob obs)
  have one: "adds_frames ph frames frames'" if "adds_frames ph (frames @ [f]) frames'" "fm_phase f = ph" for f
    using that by (auto simp: adds_frames_def)
  from Cons show ?case
    by (auto split: sum.splits option.splits prod.splits intro: adds_refl dest!: Cons.IH intro: one)
qed simp

lemma wire_collect_adds:
  "wire_collect co ob wait ph w = Some (Inr w') \<Longrightarrow>
     adds_frames ph (wi_frames w) (wi_frames w') \<and> wi_batch_id w' = wi_batch_id w \<and> wi_sent w' = wi_sent w"
  by (auto simp: wire_collect_def run_bind_Inr collect_frames_def Let_def intro: collect_adds)

lemma wire_send_spec:
  "wire_send outcome payload w = Inr w' \<longleftrightarrow> outcome = Inr () \<and> w' = w\<lparr>wi_sent := wi_sent w @ [payload]\<rparr>"
  by (auto simp: wire_send_def bind_res_Inr)

section \<open>What is sent\<close>

text \<open>Payloads with consecutive batch ids, each one-hot on the given channel.\<close>

fun stimuli_sent :: "ipc_text \<Rightarrow> transport_session \<Rightarrow> u64 \<Rightarrow> nat list \<Rightarrow> string list \<Rightarrow> bool" where
  "stimuli_sent co s b [] [] \<longleftrightarrow> True"
| "stimuli_sent co s b (c # cs) (p # ps) \<longleftrightarrow>
     (\<exists>now. session_frame (it_encode co) now s c b = Inr p) \<and> stimuli_sent co s (b + 1) cs ps"
| "stimuli_sent co s b _ _ \<longleftrightarrow> False"

lemma sends_length: "stimuli_sent co s b cs ps \<Longrightarrow> length ps = length cs"
  by (induction co s b cs ps rule: stimuli_sent.induct) auto

lemma sends_append:
  "stimuli_sent co s b cs ps \<Longrightarrow> stimuli_sent co s (b + of_nat (length cs)) cs' ps' \<Longrightarrow> stimuli_sent co s b (cs @ cs') (ps @ ps')"
  by (induction co s b cs ps rule: stimuli_sent.induct) (auto simp: add.assoc)

text \<open>What one of the two loops does to the wire.\<close>

definition wire_grows ::
  "ipc_text \<Rightarrow> transport_session \<Rightarrow> frame_phase \<Rightarrow> nat list \<Rightarrow> wire \<Rightarrow> wire \<Rightarrow> bool" where
  "wire_grows co s ph cs w w' \<longleftrightarrow>
     adds_frames ph (wi_frames w) (wi_frames w') \<and> wi_batch_id w' = wi_batch_id w + of_nat (length cs) \<and>
     (\<exists>ps. wi_sent w' = wi_sent w @ ps \<and> stimuli_sent co s (wi_batch_id w) cs ps)"

lemma wire_grows_refl: "wire_grows co s ph [] w w"
  by (simp add: wire_grows_def adds_refl)

lemma wire_grows_trans:
  "wire_grows co s ph cs w w' \<Longrightarrow> wire_grows co s ph cs' w' w'' \<Longrightarrow> wire_grows co s ph (cs @ cs') w w''"
  unfolding wire_grows_def by (auto intro: adds_trans sends_append)

lemma collect_grows: "wire_collect co ob wait ph w = Some (Inr w') \<Longrightarrow> wire_grows co' s ph [] w w'"
  using wire_collect_adds [of co ob wait ph w w'] by (simp add: wire_grows_def)

lemma send_grows:
  assumes "session_frame (it_encode co) now s c (wi_batch_id w) = Inr p"
  shows "wire_grows co s ph [c] w (w\<lparr>wi_sent := wi_sent w @ [p], wi_batch_id := wi_batch_id w + 1\<rparr>)"
  using assms by (auto simp: wire_grows_def adds_refl intro!: exI [of _ "[p]"])

lemma send_grows':
  assumes "session_frame (it_encode co) now s c (wi_batch_id w) = Inr p"
  shows "wire_grows co s ph [c] w (w\<lparr>wi_batch_id := wi_batch_id w + 1, wi_sent := wi_sent w @ [p]\<rparr>)"
  using assms by (auto simp: wire_grows_def adds_refl intro!: exI [of _ "[p]"])

lemma prime_grows:
  "prime_loop co obs s attempts w = Some (Inr (a, w')) \<Longrightarrow>
     \<exists>pre post. attempts = pre @ a # post \<and> wire_grows co s PhPrime (replicate (Suc (length pre)) 0) w w' \<and>
       list_ex (\<lambda>f. fm_channels f = ses_expected s ! 0) (wi_frames w')"
proof (induction attempts arbitrary: w)
  case (Cons attempt attempts)
  let ?ob = "obs attempt"
  from Cons.prems obtain p w1 where frame: "session_frame (it_encode co) (pr_now ?ob) s 0 (wi_batch_id w) = Inr p"
    and collect: "wire_collect co (pr_collect ?ob) PRIME_WAIT PhPrime
        (w\<lparr>wi_sent := wi_sent w @ [p], wi_batch_id := wi_batch_id w + 1\<rparr>) = Some (Inr w1)"
    by (auto simp: run_bind_Inr Let_def wire_send_spec)
  have first: "wire_grows co s PhPrime [0] w w1"
    using wire_grows_trans [OF send_grows [OF frame] collect_grows [OF collect]] by simp
  let ?hit = "list_ex (\<lambda>f. fm_channels f = ses_expected s ! 0) (drop (length (wi_frames w)) (wi_frames w1))"
  show ?case
  proof (cases ?hit)
    case True
    with Cons.prems frame collect have "a = attempt"
      "wire_collect co (pr_settle ?ob) (ses_spacing s * 2) PhPrime w1 = Some (Inr w')"
      by (auto simp: run_bind_Inr Let_def wire_send_spec)
    moreover from this have "wire_grows co s PhPrime [0] w w'"
      using wire_grows_trans [OF first collect_grows] by fastforce
    moreover have "list_ex (\<lambda>f. fm_channels f = ses_expected s ! 0) (wi_frames w')"
    proof -
      have "set (wi_frames w1) \<subseteq> set (wi_frames w')"
        using wire_collect_adds [OF calculation(2)] by (auto simp: adds_frames_def)
      with True show ?thesis by (auto simp: list_ex_iff dest: in_set_dropD)
    qed
    ultimately show ?thesis by (intro exI [of _ "[]"] exI [of _ attempts]) simp
  next
    case False
    with Cons.prems frame collect have "prime_loop co obs s attempts w1 = Some (Inr (a, w'))"
      by (auto simp: run_bind_Inr Let_def wire_send_spec)
    then obtain pre post where rest: "attempts = pre @ a # post"
      "wire_grows co s PhPrime (replicate (Suc (length pre)) 0) w1 w'"
      "list_ex (\<lambda>f. fm_channels f = ses_expected s ! 0) (wi_frames w')"
      using Cons.IH by blast
    then show ?thesis
      using wire_grows_trans [OF first rest(2)]
      by (intro exI [of _ "attempt # pre"] exI [of _ post]) simp
  qed
qed simp

lemma prime_session_grows:
  assumes "prime_session co obs s w = Some (Inr (a, w'))"
  shows "1 \<le> a \<and> a \<le> PRIME_ATTEMPTS \<and> wire_grows co s PhPrime (replicate a 0) w w' \<and>
    list_ex (\<lambda>f. fm_channels f = ses_expected s ! 0) (wi_frames w')"
proof -
  obtain pre post where p: "[1..<PRIME_ATTEMPTS + 1] = pre @ a # post"
    "wire_grows co s PhPrime (replicate (Suc (length pre)) 0) w w'"
    "list_ex (\<lambda>f. fm_channels f = ses_expected s ! 0) (wi_frames w')"
    using prime_grows assms unfolding prime_session_def by blast
  have "length pre < length [1..<PRIME_ATTEMPTS + 1]" unfolding p(1) by simp
  moreover from this have "a = 1 + length pre"
    by (metis One_nat_def diff_add_inverse2 length_upt nth_append_length nth_upt p(1) add.commute less_diff_conv)
  moreover have "a \<in> set [1..<PRIME_ATTEMPTS + 1]" unfolding p(1) by simp
  ultimately show ?thesis using p(2,3) by auto
qed

lemma measure_grows:
  "measure_loop co obs s start indices pulses w = Some (Inr (pulses', w')) \<Longrightarrow>
     wire_grows co s PhMeasure (map (\<lambda>i. i mod ses_channels s) indices) w w' \<and>
     pulses' = pulses @ map (\<lambda>i. \<lparr> pu_index = i, pu_channel = i mod ses_channels s, pu_sent_at = me_sent_at (obs i) \<rparr>) indices"
proof (induction indices arbitrary: pulses w)
  case (Cons i indices)
  let ?ob = "obs i" and ?c = "i mod ses_channels s"
  let ?pulses = "pulses @ [\<lparr> pu_index = i, pu_channel = ?c, pu_sent_at = me_sent_at ?ob \<rparr>]"
  from Cons.prems obtain p w1 wait where frame: "session_frame (it_encode co) (me_now ?ob) s ?c (wi_batch_id w) = Inr p"
    and collect: "wire_collect co (me_collect ?ob) wait PhMeasure
        (w\<lparr>wi_batch_id := wi_batch_id w + 1, wi_sent := wi_sent w @ [p]\<rparr>) = Some (Inr w1)"
    and rest: "measure_loop co obs s start indices ?pulses w1 = Some (Inr (pulses', w'))"
    by (auto simp: run_bind_Inr Let_def wire_send_spec)
  have "wire_grows co s PhMeasure [?c] w w1"
    using wire_grows_trans [OF send_grows' [OF frame] collect_grows [OF collect]] by simp
  with Cons.IH [OF rest] show ?case using wire_grows_trans by fastforce
qed (simp add: wire_grows_refl)

section \<open>The shape of a capture\<close>

text \<open>
  A finished capture: the phases follow each other, every payload carries the next batch id,
  the priming is bounded and saw the answer it waits for.
\<close>

definition capture_shape ::
  "ipc_text \<Rightarrow> transport_session \<Rightarrow> nat \<Rightarrow> pulse list \<Rightarrow> pub_frame list \<Rightarrow> string list \<Rightarrow> bool" where
  "capture_shape co s attempts pulses frames sent \<longleftrightarrow>
     1 \<le> attempts \<and> attempts \<le> PRIME_ATTEMPTS \<and>
     stimuli_sent co s 1 (replicate attempts 0 @ map (\<lambda>i. i mod ses_channels s) [0..<ses_pulses s]) sent \<and>
     map pu_index pulses = [0..<ses_pulses s] \<and> map pu_channel pulses = map (\<lambda>i. i mod ses_channels s) [0..<ses_pulses s] \<and>
     (\<exists>sub prm mes tl. frames = sub @ prm @ mes @ tl \<and> sub \<noteq> [] \<and>
        list_all (\<lambda>f. fm_phase f = PhSubscribe) sub \<and> list_all (\<lambda>f. fm_phase f = PhPrime) prm \<and>
        list_all (\<lambda>f. fm_phase f = PhMeasure) mes \<and> list_all (\<lambda>f. fm_phase f = PhTail) tl)"

lemma capture_wire_shape:
  assumes "capture_wire te p s = Some (Inr (attempts, pulses, w, probes))"
  shows "capture_shape (tv_ipc te) s attempts pulses (wi_frames w) (wi_sent w)"
proof -
  let ?co = "tv_ipc te" and ?w0 = "\<lparr> wi_frames = [], wi_batch_id = 1, wi_sent = [] \<rparr>"
  obtain w1 w2 w3 where sub: "confirm_subscription ?co (tv_subscribe te) ?w0 = Some (Inr w1)"
    and prime: "prime_session ?co (tv_prime te) s w1 = Some (Inr (attempts, w2))"
    and measure: "measure_loop ?co (tv_measure te) s (tv_start te) [0..<ses_pulses s] [] w2 = Some (Inr (pulses, w3))"
    and tail: "wire_collect ?co (tv_tail te) TAIL_WAIT PhTail w3 = Some (Inr w)"
    using assms by (auto simp: capture_wire_def run_bind_Inr measure_session_def)
  have sub1: "wire_collect ?co (tv_subscribe te) SUBSCRIBE_DEADLINE PhSubscribe ?w0 = Some (Inr w1)" "wi_frames w1 \<noteq> []"
    using sub by (auto simp: confirm_subscription_def run_bind_Inr split: if_splits)
  note c1 = wire_collect_adds [OF sub1(1)] and c2 = prime_session_grows [OF prime]
    and c3 = measure_grows [OF measure] and c4 = wire_collect_adds [OF tail]
  obtain prm mes tl where parts: "list_all (\<lambda>f. fm_phase f = PhSubscribe) (wi_frames w1)"
    "wi_frames w2 = wi_frames w1 @ prm" "list_all (\<lambda>f. fm_phase f = PhPrime) prm"
    "wi_frames w3 = wi_frames w2 @ mes" "list_all (\<lambda>f. fm_phase f = PhMeasure) mes"
    "wi_frames w = wi_frames w3 @ tl" "list_all (\<lambda>f. fm_phase f = PhTail) tl"
    using c1 c2 c3 c4 unfolding wire_grows_def adds_frames_def by auto
  have "wire_grows ?co s PhPrime (replicate attempts 0) w1 w2" using c2 by blast
  then obtain ps where ps: "wi_sent w2 = ps" "stimuli_sent ?co s 1 (replicate attempts 0) ps" "wi_batch_id w2 = 1 + of_nat attempts"
    using c1 by (auto simp: wire_grows_def)
  obtain ps' where ps': "wi_sent w3 = ps @ ps'"
    "stimuli_sent ?co s (1 + of_nat attempts) (map (\<lambda>i. i mod ses_channels s) [0..<ses_pulses s]) ps'"
    using c3 ps by (auto simp: wire_grows_def)
  have "stimuli_sent ?co s 1 (replicate attempts 0 @ map (\<lambda>i. i mod ses_channels s) [0..<ses_pulses s]) (wi_sent w)"
    using sends_append [OF ps(2)] ps' c4 by simp
  moreover have "map pu_index pulses = [0..<ses_pulses s]"
    "map pu_channel pulses = map (\<lambda>i. i mod ses_channels s) [0..<ses_pulses s]"
    using c3 by (simp_all add: comp_def)
  ultimately show ?thesis
    unfolding capture_shape_def using c2 sub1(2) parts
    by (intro conjI exI [of _ "wi_frames w1"] exI [of _ prm] exI [of _ mes] exI [of _ tl]) simp_all
qed

section \<open>The account of answers\<close>

text \<open>What \<open>correlate\<close> says of one pulse.\<close>

definition pulse_answer :: "pub_frame list \<Rightarrow> u16 list list \<Rightarrow> pulse \<Rightarrow> pulse_record" where
  "pulse_answer nonempty expected p =
     (if pu_index p < length nonempty
      then let f = nonempty ! pu_index p
           in \<lparr> pe_pulse = pu_index p, pe_channel = pu_channel p, pe_matched = (fm_channels f = expected ! pu_channel p),
                pe_latency = Some (of_nat (fm_recv f - pu_sent_at p)), pe_received = Some (fm_channels f) \<rparr>
      else \<lparr> pe_pulse = pu_index p, pe_channel = pu_channel p, pe_matched = False, pe_latency = None,
             pe_received = None \<rparr>)"

lemma correlate_fold:
  "fold (correlate_pulse nonempty expected) pulses oc =
    (let answers = map (pulse_answer nonempty expected) pulses
     in oc\<lparr>oc_latencies_ns := oc_latencies_ns oc @ List.map_filter pe_latency answers,
           oc_matched := oc_matched oc + of_nat (length (filter pe_matched answers)),
           oc_mismatched := oc_mismatched oc +
             of_nat (length (filter (\<lambda>a. pe_received a \<noteq> None \<and> \<not> pe_matched a) answers)),
           oc_per_pulse := oc_per_pulse oc @ answers\<rparr>)"
proof (induction pulses arbitrary: oc)
  case (Cons p pulses)
  have "correlate_pulse nonempty expected p oc =
      (let a = pulse_answer nonempty expected p
       in oc\<lparr>oc_latencies_ns := oc_latencies_ns oc @ (case pe_latency a of Some l \<Rightarrow> [l] | None \<Rightarrow> []),
             oc_matched := oc_matched oc + (if pe_matched a then 1 else 0),
             oc_mismatched := oc_mismatched oc + (if pe_received a \<noteq> None \<and> \<not> pe_matched a then 1 else 0),
             oc_per_pulse := oc_per_pulse oc @ [a]\<rparr>)"
    by (simp add: correlate_pulse_def pulse_answer_def answered_def unanswered_def Let_def)
  then show ?case
    by (simp add: Cons.IH Let_def add.assoc split: option.split)
qed simp

lemma assigned_frames:
  "List.map_filter (\<lambda>(f, p). map_option (\<lambda>i. (i, fm_channels f)) p) (zip frames (assign_pulses n seen frames)) =
    zip [seen..<n] (map fm_channels (filter measured_nonempty frames))"
proof (induction frames arbitrary: seen)
  case (Cons f frames)
  have upt: "[seen..<n] = (if seen < n then seen # [Suc seen..<n] else [])" by (simp add: upt_rec)
  show ?case
    by (cases "measured_nonempty f") (simp_all add: Cons.IH upt)
qed simp

lemma map_filter_enumerate:
  "List.map_filter f (map g (enumerate k xs)) = List.map_filter h xs" if "\<And>i x. f (g (i, x)) = h x"
  by (induction xs arbitrary: k) (simp_all add: that split: option.split)

lemma record_assignment:
  "List.map_filter (\<lambda>r. map_option (\<lambda>i. (i, fc_channels r)) (fc_pulse r)) (frame_records frames pulses started) =
    zip [0..<length pulses] (map fm_channels (filter measured_nonempty frames))"
proof -
  have "List.map_filter (\<lambda>r. map_option (\<lambda>i. (i, fc_channels r)) (fc_pulse r)) (frame_records frames pulses started) =
      List.map_filter (\<lambda>(f, p). map_option (\<lambda>i. (i, fm_channels f)) p)
        (zip frames (assign_pulses (length pulses) 0 frames))"
    unfolding frame_records_def Let_def pulse_assignment_def
    by (rule map_filter_enumerate) (simp add: case_prod_beta)
  then show ?thesis by (simp add: assigned_frames)
qed

text \<open>The answers to \<open>n\<close> pulses sent in order, when \<open>fs\<close> are the non-empty measured frames.\<close>

lemma answers_split:
  assumes "map pu_index pulses = [0..<n]"
  shows "filter (\<lambda>a. pe_received a \<noteq> None) (map (pulse_answer fs expected) pulses) =
      map (pulse_answer fs expected) (take (length fs) pulses)"
    "filter (\<lambda>a. pe_received a = None) (map (pulse_answer fs expected) pulses) =
      map (pulse_answer fs expected) (drop (length fs) pulses)"
    "map pe_pulse (map (pulse_answer fs expected) pulses) = [0..<n]"
    "zip [0..<n] (map fm_channels fs) =
      map (\<lambda>a. (pe_pulse a, the (pe_received a))) (map (pulse_answer fs expected) (take (length fs) pulses))"
proof -
  have idx: "pu_index (pulses ! i) = i" if "i < length pulses" for i
    using assms that by (metis length_map length_upt diff_zero nth_map nth_upt add_0)
  have n: "length pulses = n" using arg_cong [OF assms, of length] by simp
  have got: "pe_received (pulse_answer fs expected p) \<noteq> None \<longleftrightarrow> pu_index p < length fs" for p
    by (simp add: pulse_answer_def Let_def)
  have early: "\<forall>p \<in> set (take (length fs) pulses). pu_index p < length fs"
    by (auto simp: in_set_conv_nth idx)
  have late: "\<forall>p \<in> set (drop (length fs) pulses). \<not> pu_index p < length fs"
    by (auto simp: in_set_conv_nth idx)
  have split: "pulses = take (length fs) pulses @ drop (length fs) pulses" by simp
  have "filter (\<lambda>p. pu_index p < length fs) pulses = take (length fs) pulses"
    by (subst split, subst filter_append) (use early late in \<open>simp add: filter_id_conv filter_empty_conv\<close>)
  then show "filter (\<lambda>a. pe_received a \<noteq> None) (map (pulse_answer fs expected) pulses) =
      map (pulse_answer fs expected) (take (length fs) pulses)"
    by (simp add: filter_map comp_def got del: not_None_eq)
  have "filter (\<lambda>p. \<not> pu_index p < length fs) pulses = drop (length fs) pulses"
    by (subst split, subst filter_append) (use early late in \<open>simp add: filter_id_conv filter_empty_conv\<close>)
  moreover have "pe_received (pulse_answer fs expected p) = None \<longleftrightarrow> \<not> pu_index p < length fs" for p
    using got by blast
  ultimately show "filter (\<lambda>a. pe_received a = None) (map (pulse_answer fs expected) pulses) =
      map (pulse_answer fs expected) (drop (length fs) pulses)"
    by (simp add: filter_map comp_def)
  have "pe_pulse (pulse_answer fs expected p) = pu_index p" for p by (simp add: pulse_answer_def Let_def)
  then show "map pe_pulse (map (pulse_answer fs expected) pulses) = [0..<n]"
    by (simp add: comp_def assms)
  show "zip [0..<n] (map fm_channels fs) =
      map (\<lambda>a. (pe_pulse a, the (pe_received a))) (map (pulse_answer fs expected) (take (length fs) pulses))"
    by (rule nth_equalityI) (simp_all add: n [symmetric] idx pulse_answer_def Let_def)
qed

lemma assign_length [simp]: "length (assign_pulses n seen frames) = length frames"
  by (induction frames arbitrary: seen) auto

lemma record_phases:
  "map fc_phase (frame_records frames pulses started) = map (\<lambda>f. frame_phase_as_str (fm_phase f)) frames"
proof -
  have "map g (enumerate k (zip frames ps)) = map h frames"
    if "length ps = length frames" "\<And>i f p. g (i, f, p) = h f"
    for g :: "nat \<times> pub_frame \<times> nat option \<Rightarrow> string" and h k ps
    using that(1) by (induction ps frames arbitrary: k rule: list_induct2) (simp_all add: that(2))
  from this [of "assign_pulses (length pulses) 0 frames"] show ?thesis
    by (simp add: frame_records_def pulse_assignment_def comp_def Let_def case_prod_beta)
qed

section \<open>A finished run\<close>

lemma transport_main_parts:
  assumes "transport_main te = Some (Inr rep, es)"
  shows "\<exists>su es1 attempts pulses w probes exit logged oc nonempty p.
    setup_new te = Some (Inr su, es1) \<and>
    capture_wire te (process_pid (su_daemon su)) (su_session su) = Some (Inr (attempts, pulses, w, probes)) \<and>
    correlate pulses (wi_frames w) (ses_expected (su_session su)) = (oc, nonempty) \<and>
    (\<exists>started. rep_records rep = frame_records (wi_frames w) pulses started) \<and> rep_sent rep = wi_sent w \<and>
    rep_summary rep = transport_summary_of (tv_json te) su \<lparr> ca_pid = p, ca_frames = wi_frames w, ca_pulses = pulses, ca_prime_attempts = attempts,
      ca_sent = wi_sent w, ca_probes = probes, ca_exit = exit, ca_termination_logged = logged \<rparr> oc nonempty"
proof -
  obtain su es1 where su: "setup_new te = Some (Inr su, es1)"
    using assms by (auto simp: transport_main_def split: option.splits sum.splits)
  with assms obtain r dp es2 where run: "capture_run te (su_session su) (su_daemon su) = Some (r, dp, es2)"
    by (auto simp: transport_main_def)
  obtain ca where ca: "r = Inr ca" using su run assms by (auto simp: transport_main_def bind_res_Inr)
  obtain oc nonempty where oc: "correlate (ca_pulses ca) (ca_frames ca) (ses_expected (su_session su)) = (oc, nonempty)"
    by fastforce
  with su run ca assms have report: "rep_records rep = frame_records (ca_frames ca) (ca_pulses ca) (dp_spawned_at dp)"
    "rep_summary rep = transport_summary_of (tv_json te) su ca oc nonempty" "rep_sent rep = ca_sent ca"
    by (auto simp: transport_main_def bind_res_Inr Let_def)
  from run ca obtain attempts pulses w probes where
    wire: "capture_wire te (process_pid (su_daemon su)) (su_session su) = Some (Inr (attempts, pulses, w, probes))"
    by (auto simp: capture_run_def split: option.splits sum.splits)
  with run ca obtain exit logged where "ca = \<lparr> ca_pid = process_pid (su_daemon su), ca_frames = wi_frames w, ca_pulses = pulses,
      ca_prime_attempts = attempts, ca_sent = wi_sent w, ca_probes = probes, ca_exit = exit,
      ca_termination_logged = logged \<rparr>"
    by (auto simp: capture_run_def bind_res_Inr)
  with su wire oc report show ?thesis by (intro exI conjI) auto
qed

lemma setup_new_session: "setup_new te = Some (Inr setup, es) \<Longrightarrow> setup_session te = Inr (su_session setup)"
  by (auto simp: setup_new_def split: sum.splits option.splits)

lemma session_pulses: "setup_session te = Inr s \<Longrightarrow> ses_pulses s < 2 ^ 64"
  using unat_less64 by (auto simp: setup_session_def session_new_def bind_res_Inr Let_def split: if_splits)


lemma count_split: "count_frames p fs + count_frames (\<lambda>f. \<not> p f) fs = length fs"
  by (simp add: count_frames_def sum_length_filter_compl)

lemma count_and: "count_frames (\<lambda>f. p f \<and> q f) fs + count_frames (\<lambda>f. p f \<and> \<not> q f) fs = count_frames p fs"
  by (induction fs) (auto simp: count_frames_def)

lemma phase_counts:
  "count_frames (\<lambda>f. fm_phase f = PhSubscribe) fs + count_frames (\<lambda>f. fm_phase f = PhPrime) fs +
     count_frames (\<lambda>f. phase_measured (fm_phase f)) fs = length fs"
proof (induction fs)
  case (Cons f fs)
  then show ?case by (cases "fm_phase f") (simp_all add: count_frames_def phase_measured_def)
qed (simp add: count_frames_def)

lemma answers_count:
  assumes "map pu_index pulses = [0..<n]"
  shows "length (filter pe_matched (map (pulse_answer fs expected) pulses)) +
      length (filter (\<lambda>a. pe_received a \<noteq> None \<and> \<not> pe_matched a) (map (pulse_answer fs expected) pulses)) =
      min n (length fs)" (is "length (filter _ ?answers) + _ = _")
    "length (List.map_filter pe_latency (map (pulse_answer fs expected) pulses)) = min n (length fs)"
    "list_all (\<lambda>a. pe_received a = None \<and> \<not> pe_matched a)
       (drop (min n (length fs)) (map (pulse_answer fs expected) pulses))"
    "zip [0..<n] (map fm_channels fs) =
       map (\<lambda>a. (pe_pulse a, the (pe_received a))) (take (min n (length fs)) (map (pulse_answer fs expected) pulses))"
proof -
  let ?answer = "pulse_answer fs expected"
  note split = answers_split [OF assms, of fs expected]
  have n: "length pulses = n" using arg_cong [OF assms, of length] by simp
  have m: "length (take (length fs) pulses) = min n (length fs)" by (simp add: n)
  have received: "pe_matched (?answer p) \<Longrightarrow> pe_received (?answer p) \<noteq> None" for p
    by (simp add: pulse_answer_def Let_def split: if_splits)
  have "length (filter pe_matched ?answers) + length (filter (\<lambda>a. pe_received a \<noteq> None \<and> \<not> pe_matched a) ?answers) =
      length (filter (\<lambda>a. pe_received a \<noteq> None) ?answers)"
    by (induction pulses) (auto dest: received)
  then show "length (filter pe_matched ?answers) +
      length (filter (\<lambda>a. pe_received a \<noteq> None \<and> \<not> pe_matched a) ?answers) = min n (length fs)"
    unfolding split(1) by (simp only: length_map m)
  have "length (List.map_filter pe_latency ?answers) = length (filter (\<lambda>a. pe_received a \<noteq> None) ?answers)"
    by (induction pulses) (auto simp: pulse_answer_def Let_def)
  then show "length (List.map_filter pe_latency ?answers) = min n (length fs)"
    unfolding split(1) by (simp only: length_map m)
  have "drop (min n (length fs)) ?answers = filter (\<lambda>a. pe_received a = None) ?answers"
    unfolding split(2) by (simp add: drop_map min_def n)
  moreover have "\<not> pe_matched a" if a: "a \<in> set ?answers" "pe_received a = None" for a
  proof -
    obtain p where "a = ?answer p" using a(1) by auto
    with received [of p] a(2) show ?thesis by auto
  qed
  ultimately show "list_all (\<lambda>a. pe_received a = None \<and> \<not> pe_matched a) (drop (min n (length fs)) ?answers)"
    by (auto simp: list_all_iff)
  have "take (min n (length fs)) ?answers = map ?answer (take (length fs) pulses)"
    by (simp add: take_map min_def n)
  with split(4) show "zip [0..<n] (map fm_channels fs) =
      map (\<lambda>a. (pe_pulse a, the (pe_received a))) (take (min n (length fs)) ?answers)"
    by metis
qed

lemma unat_three:
  assumes "n < 2 ^ 64" "a + b \<le> n"
  shows "unat (of_nat n :: u64) = n \<and> unat (of_nat a :: u64) = a \<and> unat (of_nat b :: u64) = b \<and>
    unat (of_nat n - of_nat a - of_nat b :: u64) = n - (a + b)"
proof -
  have "unat (of_nat k :: u64) = k" if "k < 2 ^ 64" for k
    using that by (simp add: unat_of_nat)
  moreover have "(of_nat n - of_nat a - of_nat b :: u64) = of_nat (n - (a + b))"
    using assms(2) by simp
  moreover have "a < 2 ^ 64" "b < 2 ^ 64" "n - (a + b) < 2 ^ 64" using assms by linarith+
  ultimately show ?thesis using assms(1) by metis
qed

lemma measured_counts:
  "count_frames (\<lambda>f. phase_measured (fm_phase f) \<and> fm_channels f = []) fs + length (filter measured_nonempty fs) =
    count_frames (\<lambda>f. phase_measured (fm_phase f)) fs"
  using count_and [of "\<lambda>f. phase_measured (fm_phase f)" "\<lambda>f. fm_channels f = []" fs]
  by (simp add: count_frames_def measured_nonempty_def [abs_def])

lemma transport_account:
  assumes "transport_main te = Some (Inr rep, es)"
  shows "\<exists>s sm n m. setup_session te = Inr s \<and> sm = rep_summary rep \<and> n = ses_pulses s \<and>
     m = min n (sm_measured_nonempty sm) \<and>
     unat (sm_pulses_sent sm) = n \<and> unat (sm_matched sm) + unat (sm_mismatched sm) = m \<and> unat (sm_lost sm) = n - m \<and>
     sm_extra_nonempty sm = of_nat (sm_measured_nonempty sm - m) \<and> ls_count (sm_latency_ns sm) = m \<and>
     sm_subscribe_frames sm + sm_prime_frames sm + sm_measured_total sm = sm_frames_total sm \<and>
     sm_measured_empty sm + sm_measured_nonempty sm = sm_measured_total sm \<and>
     map pe_pulse (sm_per_pulse sm) = [0..<n] \<and>
     list_all (\<lambda>a. pe_received a = None \<and> \<not> pe_matched a) (drop m (sm_per_pulse sm)) \<and>
     List.map_filter (\<lambda>r. map_option (\<lambda>i. (i, fc_channels r)) (fc_pulse r)) (rep_records rep) =
       map (\<lambda>a. (pe_pulse a, the (pe_received a))) (take m (sm_per_pulse sm))"
proof -
  obtain su es1 attempts pulses w probes exit logged oc nonempty p started where parts:
    "setup_new te = Some (Inr su, es1)" "capture_wire te (process_pid (su_daemon su)) (su_session su) = Some (Inr (attempts, pulses, w, probes))"
    "correlate pulses (wi_frames w) (ses_expected (su_session su)) = (oc, nonempty)"
    "rep_records rep = frame_records (wi_frames w) pulses started"
    "rep_summary rep = transport_summary_of (tv_json te) su \<lparr> ca_pid = p, ca_frames = wi_frames w, ca_pulses = pulses, ca_prime_attempts = attempts,
      ca_sent = wi_sent w, ca_probes = probes, ca_exit = exit, ca_termination_logged = logged \<rparr> oc nonempty"
    using transport_main_parts [OF assms] by blast
  let ?s = "su_session su" and ?fs = "filter measured_nonempty (wi_frames w)" and ?n = "ses_pulses (su_session su)"
  let ?answers = "map (pulse_answer ?fs (ses_expected ?s)) pulses" and ?sm = "rep_summary rep" and ?m = "min ?n (length ?fs)"
  have session: "setup_session te = Inr ?s" by (rule setup_new_session [OF parts(1)])
  have idx: "map pu_index pulses = [0..<?n]"
    using capture_wire_shape [OF parts(2)] by (simp add: capture_shape_def)
  have n: "length pulses = ?n" using arg_cong [OF idx, of length] by simp
  note count = answers_count [OF idx, of ?fs "ses_expected ?s"]
  let ?a = "length (filter pe_matched ?answers)"
    and ?b = "length (filter (\<lambda>a. pe_received a \<noteq> None \<and> \<not> pe_matched a) ?answers)"
  have sm: "sm_pulses_sent ?sm = of_nat ?n" "sm_matched ?sm = of_nat ?a" "sm_mismatched ?sm = of_nat ?b"
    "sm_lost ?sm = of_nat ?n - of_nat ?a - of_nat ?b" "sm_measured_nonempty ?sm = length ?fs"
    "sm_extra_nonempty ?sm = of_nat (length ?fs - ?n)" "ls_count (sm_latency_ns ?sm) = length (List.map_filter pe_latency ?answers)"
    "sm_subscribe_frames ?sm = count_frames (\<lambda>f. fm_phase f = PhSubscribe) (wi_frames w)"
    "sm_prime_frames ?sm = count_frames (\<lambda>f. fm_phase f = PhPrime) (wi_frames w)"
    "sm_measured_total ?sm = count_frames (\<lambda>f. phase_measured (fm_phase f)) (wi_frames w)"
    "sm_measured_empty ?sm = count_frames (\<lambda>f. phase_measured (fm_phase f) \<and> fm_channels f = []) (wi_frames w)"
    "sm_frames_total ?sm = length (wi_frames w)" "sm_per_pulse ?sm = ?answers"
    using parts(3) unfolding parts(5) transport_summary_of_def Let_def
    by (auto simp: n correlate_def correlate_fold outcome_default_def latency_json_def Let_def)
  have "?a + ?b \<le> ?n" using count(1) by linarith
  note words = unat_three [OF session_pulses [OF session] this, folded sm]
  have "length ?fs - ?n = length ?fs - ?m" by (simp add: min_def)
  moreover have "map pe_pulse ?answers = [0..<?n]" by (rule answers_split(3) [OF idx])
  ultimately show ?thesis
    using session words count phase_counts [of "wi_frames w"] measured_counts [of "wi_frames w"]
    by (intro exI [of _ ?s] exI [of _ ?sm] exI [of _ ?n] exI [of _ ?m] conjI)
      (simp_all only: sm parts(4) record_assignment n)
qed

text \<open>
  C14: The account of a finished transport run adds up, with no wrap-around in its unsigned
  subtractions: all pulses of the session were sent; of them as many as there were non-empty
  measured frames, in the order sent, are answered, matched or mismatched, and the others lost;
  every received frame is counted in one phase, every measured one as empty or not; and the two
  places that correlate answers agree: the frames that the records attribute to a pulse are, in
  order, the answers of the per-pulse results.
\<close>

theorem transport_accounting:
  assumes "transport_main te = Some (Inr rep, es)"
  shows "\<exists>s sm n m. setup_session te = Inr s \<and> sm = rep_summary rep \<and> n = ses_pulses s \<and>
     m = min n (sm_measured_nonempty sm) \<and>
     unat (sm_pulses_sent sm) = n \<and> unat (sm_matched sm) + unat (sm_mismatched sm) = m \<and> unat (sm_lost sm) = n - m \<and>
     sm_extra_nonempty sm = of_nat (sm_measured_nonempty sm - m) \<and> ls_count (sm_latency_ns sm) = m \<and>
     sm_subscribe_frames sm + sm_prime_frames sm + sm_measured_total sm = sm_frames_total sm \<and>
     sm_measured_empty sm + sm_measured_nonempty sm = sm_measured_total sm \<and>
     map pe_pulse (sm_per_pulse sm) = [0..<n] \<and>
     list_all (\<lambda>a. pe_received a = None \<and> \<not> pe_matched a) (drop m (sm_per_pulse sm)) \<and>
     List.map_filter (\<lambda>r. map_option (\<lambda>i. (i, fc_channels r)) (fc_pulse r)) (rep_records rep) =
       map (\<lambda>a. (pe_pulse a, the (pe_received a))) (take m (sm_per_pulse sm))"
  by (rule transport_account [OF assms])

section \<open>A concrete run\<close>

text \<open>One pulse on the only channel; every frame received is a spike batch on channels zero and one.\<close>

definition demo_control_cfg :: daemon_config where
  "demo_control_cfg = demo_cfg\<lparr>dc_control_bind := Some ''1.0.0.1:80''\<rparr>"

definition demo_pulse_workload :: workload where
  "demo_pulse_workload =
     \<lparr> wl_fixture_sha256 = ''ab'', wl_channels = 1, wl_ticks_per_cycle = 2, wl_cycles = 1, wl_ticks = 2,
       wl_warmup_ticks = 0, wl_cycle_events = [],
       wl_transport = \<lparr> tp_pulse_spacing_ticks = 1, tp_pulses = 2, tp_amplitude = f_one,
                        tp_expected_by_channel = [''0'' \<mapsto> [0, 1]] \<rparr> \<rparr>"

definition demo_ipc_text :: ipc_text where
  "demo_ipc_text =
     \<lparr> it_encode = (\<lambda>_. Inr ''stimuli''),
       it_decode = (\<lambda>_. Inr (IpcSpikes \<lparr> pb_session_id = None, pb_batch_id = 4, pb_timestamp = 5,
         pb_spikes = [\<lparr> cs_channel = 0, cs_time = 0, cs_strength = f_one \<rparr>, \<lparr> cs_channel = 1, cs_time = 0, cs_strength = f_one \<rparr>],
         pb_metadata = None \<rparr>)) \<rparr>"

definition one_frame :: collect_obs where
  "one_frame =
     \<lparr> co_start = 0, co_recvs = [\<lparr> rv_now = 1, rv_poll = Inr 1, rv_bytes = Inr ''spikes'', rv_at = 2 \<rparr>,
         \<lparr> rv_now = 3, rv_poll = Inr 0, rv_bytes = Inl ''EAGAIN'', rv_at = 4 \<rparr>] \<rparr>"

definition no_frame :: collect_obs where
  "no_frame = \<lparr> co_start = 0, co_recvs = [\<lparr> rv_now = 10 ^ 10, rv_poll = Inr 0, rv_bytes = Inl ''EAGAIN'', rv_at = 4 \<rparr>] \<rparr>"

definition demo_transport :: transport_env where
  "demo_transport =
     \<lparr> tv_fs = demo_fs, tv_toml = (\<lambda>_. Inr demo_control_cfg), tv_parse = (\<lambda>_. Inr demo_pulse_workload),
       tv_config = [Normal ''c''], tv_workload = [Normal ''w''], tv_ipc = demo_ipc_text,
       tv_socket = (\<lambda>_. Inr ()), tv_spawn = Inr 7, tv_spawned_at = 0, tv_ready_start = 1,
       tv_ready_polls = primary_polls demo_to_json (map (\<lambda>c. [c])) [(None, None, 2), (None, Some (5, demo_ready), 3)],
       tv_subscribe = one_frame,
       tv_prime = (\<lambda>_. \<lparr> pr_now = 0, pr_send = Inr (), pr_collect = one_frame, pr_settle = no_frame \<rparr>),
       tv_start = 0,
       tv_measure = (\<lambda>i. \<lparr> me_now = 0, me_sent_at = 1, me_send = Inr (), me_clock = 2,
         me_collect = if i = 0 then one_frame else no_frame \<rparr>),
       tv_tail = no_frame, tv_metrics = (\<lambda>_. HxRefused), tv_health = (\<lambda>_. HxRefused), tv_rss = demo_proc, tv_peak = demo_proc, tv_json = (\<lambda>_. None),
       tv_term_sent = 8, tv_term_shell = Inr True,
       tv_term_polls = [\<lparr> xp_wait = Inr None, xp_now = 9 \<rparr>, \<lparr> xp_wait = Inr (Some (Some 0)), xp_now = 10 \<rparr>],
       tv_log = None, tv_write_frames = Inr (), tv_write_summary = Inr () \<rparr>"

definition demo_pulse_session :: transport_session where
  "demo_pulse_session =
     \<lparr> ses_channels = 1, ses_amplitude = f_one, ses_pulses = 2, ses_spacing = 1000000, ses_expected = [[0, 1]] \<rparr>"

lemma demo_control_valid: "daemon_config_validate demo_control_cfg = Inr ()"
proof -
  have same: "dc_lif_count demo_control_cfg = dc_lif_count demo_cfg" "dc_izh_count demo_control_cfg = dc_izh_count demo_cfg"
    "dc_channels demo_control_cfg = dc_channels demo_cfg" "dc_spine_pub_sndhwm demo_control_cfg = dc_spine_pub_sndhwm demo_cfg"
    "dc_spine_pub_linger_ms demo_control_cfg = dc_spine_pub_linger_ms demo_cfg"
    by (simp_all add: demo_control_cfg_def)
  have "validate_dimensions demo_control_cfg = validate_dimensions demo_cfg"
    "validate_pub_socket_opts demo_control_cfg = validate_pub_socket_opts demo_cfg"
    unfolding validate_dimensions_def validate_pub_socket_opts_def same by (rule refl)+
  moreover have "validate_control_bind (dc_control_bind demo_control_cfg) = Inr ()"
    using demo_addr by (simp add: validate_control_bind_ok demo_control_cfg_def)
  ultimately show ?thesis
    using demo_cfg_valid unfolding daemon_config_validate_def bind_unit
    by (simp add: demo_control_cfg_def)
qed

lemma demo_setup_session: "setup_session demo_transport = Inr demo_pulse_session"
proof -
  have load: "daemon_config_load demo_fs (\<lambda>_. Inr demo_control_cfg) [Normal ''c''] = Inr demo_control_cfg"
    by (simp add: daemon_config_load_def is_absolute_def read_to_string_def demo_fs_def in_range_def demo_control_valid)
  have wl: "workload_load demo_fs (\<lambda>_. Inr demo_pulse_workload) [Normal ''w''] = Inr demo_pulse_workload"
    by (simp add: workload_load_def read_to_string_def demo_fs_def in_range_def demo_pulse_workload_def)
  have zero: "show_nat 0 = ''0''" by code_simp
  have ses: "session_new demo_control_cfg demo_pulse_workload = Inr demo_pulse_session"
    by (simp add: session_new_def check_channels_def demo_pulse_workload_def demo_control_cfg_def demo_cfg_def
        demo_pulse_session_def Let_def zero)
  have sockets: "open_sockets (\<lambda>_. Inr ()) cfg = Inr ()" for cfg by (simp add: open_sockets_def socket_calls_def)
  show ?thesis
    using demo_addr
    by (simp add: setup_session_def demo_transport_def load wl ses sockets)
      (simp add: demo_control_cfg_def)
qed

lemma demo_collect:
  "wire_collect co no_frame wait ph w = Some (Inr w)" if "wait \<le> 10 ^ 10"
  using that by (simp add: wire_collect_def collect_frames_def no_frame_def recv_until_def)

lemma demo_collect_one:
  "wire_collect demo_ipc_text one_frame wait ph w =
    Some (Inr (w\<lparr>wi_frames := wi_frames w @ [\<lparr> fm_phase = ph, fm_recv = 2, fm_channels = [0, 1], fm_batch_id = 4, fm_timestamp = 5 \<rparr>]\<rparr>))"
  if "1 < wait" "wait < 10 ^ 20"
proof -
  have "(wait - 1) div 1000000 < 9223372036854775808" "(wait - 3) div 1000000 < 9223372036854775808" using that by simp_all
  then show ?thesis using that(1)
    by (auto simp: wire_collect_def collect_frames_def one_frame_def recv_until_def demo_ipc_text_def parse_spikes_def
        Let_def max_def)
qed

lemma demo_capture_wire: "\<exists>pulses w probes. capture_wire demo_transport p demo_pulse_session = Some (Inr (1, pulses, w, probes)) \<and>
  length (filter measured_nonempty (wi_frames w)) = 1"
proof -
  have up: "[1..<PRIME_ATTEMPTS + 1] = 1 # [2..<PRIME_ATTEMPTS + 1]" by (simp add: PRIME_ATTEMPTS_def upt_rec)
  have two: "[0..<ses_pulses demo_pulse_session] = [0, 1]" by (simp add: demo_pulse_session_def upt_rec)
  have frame: "session_frame (it_encode demo_ipc_text) now demo_pulse_session 0 b = Inr ''stimuli''" for now b
    by (simp add: session_frame_def demo_ipc_text_def demo_pulse_session_def stimulus_frame_def)
  have ses: "ses_channels demo_pulse_session = 1" "ses_spacing demo_pulse_session = 1000000"
    "ses_expected demo_pulse_session = [[0, 1]]" by (simp_all add: demo_pulse_session_def)
  have te: "tv_ipc demo_transport = demo_ipc_text" "tv_subscribe demo_transport = one_frame"
    "tv_prime demo_transport = (\<lambda>_. \<lparr> pr_now = 0, pr_send = Inr (), pr_collect = one_frame, pr_settle = no_frame \<rparr>)"
    "tv_measure demo_transport = (\<lambda>i. \<lparr> me_now = 0, me_sent_at = 1, me_send = Inr (), me_clock = 2,
         me_collect = if i = 0 then one_frame else no_frame \<rparr>)"
    "tv_start demo_transport = 0" "tv_tail demo_transport = no_frame"
    "tv_metrics demo_transport = (\<lambda>_. HxRefused)" "tv_health demo_transport = (\<lambda>_. HxRefused)"
    by (simp_all add: demo_transport_def)
  show ?thesis
    unfolding capture_wire_def probe_daemon_def te confirm_subscription_def prime_session_def measure_session_def up two
    by (simp add: demo_collect demo_collect_one SUBSCRIBE_DEADLINE_def PRIME_WAIT_def TAIL_WAIT_def frame ses
        wire_send_def next_pulse_at_def http_get_def Let_def measured_nonempty_def phase_measured_def)
qed

lemma demo_transport_run:
  "\<exists>rep. transport_main demo_transport = Some (Inr rep, [EfSpawn 7, EfTerm 7, EfReap 7]) \<and>
     sm_prime_attempts (rep_summary rep) = 1 \<and> sm_measured_nonempty (rep_summary rep) = 1"
proof -
  let ?c = "\<lparr> ch_pid = 7, ch_status = None \<rparr>"
  let ?dp = "\<lparr> dp_child = Some \<lparr> ch_pid = 7, ch_status = None \<rparr>, dp_spawned_at = 0 \<rparr>"
  have split: "in_pieces (map (\<lambda>c. [c]))" by (simp add: in_pieces_def image_iff)
  have alive: "alive 7 (dp_child ?dp)" by (simp add: alive_def)
  have ready: "ready_after (1 + READY_DEADLINE) (\<lambda>status. status = None)
      [(None, None, 2), (None, Some (5, demo_ready), 3)] 3"
    using demo_ready_ready by (simp add: ready_after_Cons still_waits_def READY_DEADLINE_def)
  have "wait_ready 1 (primary_polls demo_to_json (map (\<lambda>c. [c])) [(None, None, 2), (None, Some (5, demo_ready), 3)]) ?dp =
      Some (Inr 3, ?dp, [])"
    unfolding wait_ready_def by (subst primary_waits(1) [OF split alive]) (use ready in \<open>auto intro: exI [of _ 3]\<close>)
  then have su: "setup_new demo_transport =
      Some (Inr \<lparr> su_session = demo_pulse_session, su_daemon = ?dp, su_ready_after = 3 \<rparr>, [EfSpawn 7])"
    by (simp add: setup_new_def demo_setup_session process_spawn_def)
      (simp add: demo_transport_def process_pid_def)
  have stop: "process_terminate (tv_term_sent demo_transport) (tv_term_shell demo_transport) (tv_term_polls demo_transport) ?dp =
      Some (Inr (2, Some 0), ?dp\<lparr>dp_child := None\<rparr>, [EfTerm 7, EfReap 7])"
    by (simp add: demo_transport_def process_terminate_def send_sigterm_def process_pid_def process_exited_def
        child_try_wait_def EXIT_DEADLINE_def)
  have "tv_write_frames demo_transport = Inr ()" "tv_write_summary demo_transport = Inr ()"
    by (simp_all add: demo_transport_def)
  moreover obtain pulses w probes where
    "capture_wire demo_transport 7 demo_pulse_session = Some (Inr (1, pulses, w, probes))"
    "length (filter measured_nonempty (wi_frames w)) = 1" using demo_capture_wire by blast
  ultimately show ?thesis
    using su stop
    by (simp add: transport_main_def capture_run_def process_pid_def process_drop_def kill_and_wait_def correlate_def
        transport_summary_of_def Let_def)
qed


theorem transport_accounting_witness:
  "\<exists>rep. transport_main demo_transport = Some (Inr rep, [EfSpawn 7, EfTerm 7, EfReap 7]) \<and>
     unat (sm_matched (rep_summary rep)) + unat (sm_mismatched (rep_summary rep)) = 1 \<and>
     unat (sm_lost (rep_summary rep)) = 1"
proof -
  obtain rep where rep: "transport_main demo_transport = Some (Inr rep, [EfSpawn 7, EfTerm 7, EfReap 7])"
    "sm_measured_nonempty (rep_summary rep) = 1" using demo_transport_run by blast
  have "ses_pulses demo_pulse_session = 2" by (simp add: demo_pulse_session_def)
  with transport_accounting [OF rep(1)] rep demo_setup_session show ?thesis by auto
qed

end
