(* ===== verification/Usefulness_Secondary.thy ===== *)
theory Usefulness_Secondary
  imports Usefulness
begin

text \<open>
  The secondary in-process experiment (\<open>examples/usefulness_secondary_inprocess.rs\<close> and
  \<open>examples/usefulness_secondary_common/mod.rs\<close>): a workload of segments, expanded to one
  input per tick in three variants, run through the daemon and against the bare network. Its
  \<open>Modulators\<close> struct is that of the first experiment; the output files, and \<open>main\<close>, are in \<open>Reports\<close>.
\<close>

section \<open>Workload\<close>

definition WORKLOAD_PATH :: path where
  "WORKLOAD_PATH = map Normal [''experiments'', ''usefulness-secondary'', ''fixtures'', ''workload.json'']"

definition SECONDARY_SESSION_ID :: string where
  "SECONDARY_SESSION_ID = ''usefulness-experiment''"

record segment =
  sg_name :: string
  sg_ticks :: usize
  sg_values :: "f32 list"
  sg_valid_mask :: "bool list option"
  sg_neuromodulators :: "modulators option"

record probe_spec =
  ps_tick_rate_hz :: u32
  ps_probes :: usize
  ps_probe_interval_ms :: u64
  ps_probe_value :: f32
  ps_priming_channel :: usize
  ps_priming_interval_ms :: u64
  ps_priming_timeout_ms :: u64
  ps_settle_ms :: u64

record segment_workload =
  sw_workload_version :: string
  sw_channels :: usize
  sw_cycles :: usize
  sw_warmup_cycles :: usize
  sw_segments :: "segment list"
  sw_transport :: probe_spec

datatype secondary_error =
    SeRead string
  | SeParse string
  | SeWidth string usize
  | SeConfig config_error
  | SeChannels usize usize
  | SeDaemon daemon_error
  | SeRestore checkpoint_error
  | SeStep string
  | SeTrace nat nat
  | SeWrite string
  | SeJson string

definition check_width :: "usize \<Rightarrow> segment \<Rightarrow> secondary_error + unit" where
  "check_width channels s =
     (let mask_len = (case sg_valid_mask s of None \<Rightarrow> channels | Some m \<Rightarrow> length m)
      in if length (sg_values s) \<noteq> channels \<or> mask_len \<noteq> channels then Inl (SeWidth (sg_name s) channels)
         else Inr ())"

definition segment_workload_load ::
  "filesystem \<Rightarrow> (string \<Rightarrow> string + segment_workload) \<Rightarrow> secondary_error + segment_workload" where
  "segment_workload_load fs parse =
     bind_res (map_err SeRead (read_to_string fs WORKLOAD_PATH)) (\<lambda>text.
     bind_res (map_err SeParse (parse text)) (\<lambda>workload.
     bind_res (for_each_res (check_width (sw_channels workload)) (sw_segments workload)) (\<lambda>_.
       Inr workload)))"

definition cycle_len :: "segment_workload \<Rightarrow> usize" where
  "cycle_len w = sum_list (map sg_ticks (sw_segments w))"

definition warmup_ticks :: "segment_workload \<Rightarrow> usize" where
  "warmup_ticks w = sw_warmup_cycles w * cycle_len w"

datatype variant = MainVariant | Zeroed | Unmasked

fun variant_as_str :: "variant \<Rightarrow> string" where
  "variant_as_str MainVariant = ''main''"
| "variant_as_str Zeroed = ''zeroed''"
| "variant_as_str Unmasked = ''unmasked''"

fun variant_apply :: "variant \<Rightarrow> segment \<Rightarrow> f32 list \<times> bool list option" where
  "variant_apply MainVariant s = (sg_values s, sg_valid_mask s)"
| "variant_apply Zeroed s =
     (case sg_valid_mask s of
        Some vmask \<Rightarrow> (map2 (\<lambda>v ok. if ok then v else f_zero) (sg_values s) vmask, Some (replicate (length vmask) True))
      | None \<Rightarrow> (sg_values s, None))"
| "variant_apply Unmasked s = (sg_values s, None)"

record workload_tick =
  wt_segment :: string
  wt_values :: "f32 list"
  wt_valid_mask :: "bool list option"
  wt_modulators :: "modulators option"

definition segment_ticks :: "variant \<Rightarrow> segment \<Rightarrow> workload_tick list" where
  "segment_ticks v s =
     (let (values, vmask) = variant_apply v s
      in replicate (sg_ticks s)
           \<lparr> wt_segment = sg_name s, wt_values = values, wt_valid_mask = vmask,
             wt_modulators = sg_neuromodulators s \<rparr>)"

definition segment_workload_expand :: "variant \<Rightarrow> segment_workload \<Rightarrow> workload_tick list" where
  "segment_workload_expand v w =
     concat (replicate (sw_cycles w) (concat (map (segment_ticks v) (sw_segments w))))"

section \<open>Frames\<close>

text \<open>The codec of the first experiment and the validation of modulator snapshots.\<close>

record secondary_codec =
  se_ipc :: ipc_codec
  se_validate :: "neuromodulator_snapshot \<Rightarrow> string + unit"

definition secondary_stimulus_frame ::
  "secondary_codec \<Rightarrow> u64 \<Rightarrow> u64 \<Rightarrow> f32 list \<Rightarrow> bool list option \<Rightarrow> string + string" where
  "secondary_stimulus_frame co now batch_id values vmask =
     (let custom = [''schema'' \<mapsto> STIMULUS_SCHEMA];
          batch = \<lparr> sb_values = values, sb_valid_mask = vmask, sb_batch_id = batch_id, sb_timestamp = now,
                    sb_session_id = Some SECONDARY_SESSION_ID, sb_metadata = Some custom \<rparr>
      in bind_res (map_err (\<lambda>e. ''driver built an invalid StimulusBatch: '' @ e) (ic_validate (se_ipc co) batch)) (\<lambda>_.
         ic_encode (se_ipc co) (IpcStimuli batch)))"

definition secondary_modulator_frame :: "secondary_codec \<Rightarrow> modulators \<Rightarrow> string + string" where
  "secondary_modulator_frame co mods =
     (let snap = \<lparr> ns_dopamine = mo_dopamine mods, ns_cortisol = mo_cortisol mods,
                   ns_acetylcholine = mo_acetylcholine mods, ns_tempo = mo_tempo mods \<rparr>
      in bind_res (map_err (\<lambda>e. ''driver built an invalid NeuromodulatorSnapshot: '' @ e) (se_validate co snap)) (\<lambda>_.
         ic_encode (se_ipc co) (IpcNeuromodulators snap)))"

record frames =
  fr_stimulus :: string
  fr_modulators :: "string option"

definition encode_frames :: "secondary_codec \<Rightarrow> u64 \<Rightarrow> u64 \<Rightarrow> workload_tick \<Rightarrow> string + frames" where
  "encode_frames co now tick input =
     bind_res (secondary_stimulus_frame co now tick (wt_values input) (wt_valid_mask input)) (\<lambda>stimulus.
     bind_res (case wt_modulators input of
                 None \<Rightarrow> Inr None
               | Some m \<Rightarrow> bind_res (secondary_modulator_frame co m) (\<lambda>f. Inr (Some f))) (\<lambda>mods.
       Inr \<lparr> fr_stimulus = stimulus, fr_modulators = mods \<rparr>))"

definition secondary_decode_frames ::
  "secondary_codec \<Rightarrow> u64 \<Rightarrow> frames \<Rightarrow> ingress_policy \<Rightarrow> string + ingress_packet" where
  "secondary_decode_frames co now fr policy =
     (let accept = (\<lambda>bytes. accept_ipc_json (ic_decode (se_ipc co)) (ic_validate (se_ipc co)) bytes policy now)
      in bind_res (map_err (\<lambda>e. ''stimulus frame rejected: '' @ ingress_error_display e) (accept (fr_stimulus fr)))
           (\<lambda>packet. case fr_modulators fr of
              Some frame \<Rightarrow>
                bind_res (map_err (\<lambda>e. ''modulator frame rejected: '' @ ingress_error_display e) (accept frame))
                  (\<lambda>p. Inr (packet\<lparr>ip_modulators := ip_modulators p\<rparr>))
            | None \<Rightarrow> Inr packet))"

section \<open>The source and the sink\<close>

text \<open>The trace, like the recorder of the first experiment, has a part of the source and one of the sink.\<close>

record trace =
  tc_polls :: "instant list"
  tc_emits :: "(instant \<times> u16 list) list"

record segment_source =
  ss_inputs :: "workload_tick list"
  ss_next :: usize
  ss_policy :: ingress_policy
  ss_trace :: trace

definition segment_next_ingress ::
  "secondary_codec \<Rightarrow> (u64 \<Rightarrow> poll_clock) \<Rightarrow> segment_source \<Rightarrow> (string + ingress_packet option) \<times> segment_source" where
  "segment_next_ingress co clk s =
     (if length (ss_inputs s) \<le> ss_next s then (Inl (''workload exhausted at tick '' @ show_nat (ss_next s)), s)
      else let input = ss_inputs s ! ss_next s; k = clk (of_nat (ss_next s))
           in case encode_frames co (pk_encode k) (of_nat (ss_next s)) input of
                Inl e \<Rightarrow> (Inl e, s)
              | Inr fr \<Rightarrow>
                  (let s = s\<lparr>ss_next := ss_next s + 1,
                             ss_trace := (ss_trace s)\<lparr>tc_polls := tc_polls (ss_trace s) @ [pk_poll k]\<rparr>\<rparr>
                   in (bind_res (secondary_decode_frames co (pk_now k) fr (ss_policy s)) (\<lambda>p. Inr (Some p)), s)))"

definition segment_source_ops :: "secondary_codec \<Rightarrow> (u64 \<Rightarrow> poll_clock) \<Rightarrow> segment_source source_ops" where
  "segment_source_ops co clk =
     \<lparr> so_next_ingress = segment_next_ingress co clk, so_initialize = (\<lambda>_ s. (Inr (), s)),
       so_shutdown = (\<lambda>s. (Inr (), s)) \<rparr>"

record trace_sink =
  tk_trace :: trace

definition trace_emit ::
  "(nat \<Rightarrow> instant) \<Rightarrow> spike_event list \<Rightarrow> duration \<Rightarrow> trace_sink \<Rightarrow> (string + unit) \<times> trace_sink" where
  "trace_emit clk spikes batch_time k =
     (let emitted_at = clk (length (tc_emits (tk_trace k))); channels = map se_channel spikes
      in (Inr (), k\<lparr>tk_trace := (tk_trace k)\<lparr>tc_emits := tc_emits (tk_trace k) @ [(emitted_at, channels)]\<rparr>\<rparr>))"

definition trace_sink_ops :: "(nat \<Rightarrow> instant) \<Rightarrow> trace_sink sink_ops" where
  "trace_sink_ops clk = \<lparr> si_emit = trace_emit clk, si_flush = (\<lambda>k. (Inr (), k)) \<rparr>"

definition trace_backend :: "daemon_config \<Rightarrow> workload_tick list \<Rightarrow> (segment_source, trace_sink) backend_pair" where
  "trace_backend cfg inputs =
     \<lparr> bp_source = \<lparr> ss_inputs = inputs, ss_next = 0,
         ss_policy = ingress_policy_new (dc_channels cfg) (Some 1000000000),
         ss_trace = \<lparr> tc_polls = [], tc_emits = [] \<rparr> \<rparr>,
       bp_sink = \<lparr> tk_trace = \<lparr> tc_polls = [], tc_emits = [] \<rparr> \<rparr> \<rparr>"

section \<open>The two runs\<close>

record run_output =
  ro_trace :: trace
  ro_stats :: "runtime_stats option"
  ro_provenance :: "model_provenance option"
  ro_dropped :: u64
  ro_health :: "health_snapshot option"
  ro_ingress :: "ingress_metrics option"

text \<open>The machine of the first experiment; \<open>dv_codec\<close> is part of \<open>co\<close> here.\<close>

definition secondary_run_daemon ::
  "'r driver_env \<Rightarrow> secondary_codec \<Rightarrow> daemon_config \<Rightarrow> workload_tick list \<Rightarrow> secondary_error + run_output" where
  "secondary_run_daemon dv co cfg inputs =
     (let ticks = length inputs; pair = trace_backend cfg inputs
      in bind_res (map_err SeDaemon (try_with_backend (dv_started_at dv) cfg pair)) (\<lambda>daemon.
         let (r, e) = run_for_ticks (dv_fs dv) (dv_decoders dv) (dv_na dv)
               (segment_source_ops co (dv_poll_clock dv)) (trace_sink_ops (dv_emit_clock dv))
               (dv_show_error dv) (dv_boot_clock dv) (map (dv_tick_env dv) [0..<ticks]) daemon
         in bind_res (map_err SeDaemon r) (\<lambda>stats.
            Inr \<lparr> ro_trace = (ss_trace (re_source e))\<lparr>tc_emits := tc_emits (tk_trace (re_sink e))\<rparr>,
                  ro_stats = Some stats, ro_provenance = rs_loaded_checkpoint stats, ro_dropped = 0,
                  ro_health = Some (handle_snapshot (dv_finished_at dv) (re_health e)),
                  ro_ingress = Some (ingress_metrics_of (re_ingress e)) \<rparr>)))"

definition baseline_inputs ::
  "'r neuromod_api \<Rightarrow> usize \<Rightarrow> workload_tick \<Rightarrow> f32 list \<times> neuro_modulators" where
  "baseline_inputs na channels input =
     (let stimuli = replicate channels f_zero;
          upto = min (length (wt_values input)) channels;
          stimuli = take upto (wt_values input) @ drop upto stimuli;
          vmask = (case wt_valid_mask input of Some m \<Rightarrow> m | None \<Rightarrow> []);
          stimuli = map2 (\<lambda>slot valid. if \<not> valid then f_zero else slot) stimuli vmask @ drop (length vmask) stimuli;
          modulators = (case wt_modulators input of
              None \<Rightarrow> na_default_modulators na
            | Some m \<Rightarrow> \<lparr> nm_dopamine = mo_dopamine m, nm_serotonin = mo_cortisol m,
                          nm_acetylcholine = mo_acetylcholine m, nm_norepinephrine = mo_tempo m \<rparr>)
      in (stimuli, modulators))"

definition spike_channels :: "usize list \<Rightarrow> u64 \<Rightarrow> u16 list \<times> u64" where
  "spike_channels spikes dropped =
     (let total = length spikes; channels = map (\<lambda>i. of_nat i :: u16) (filter (\<lambda>i. i < 65536) spikes)
      in (channels, dropped + of_nat (total - length channels)))"

text \<open>The loop over the decoded inputs, with the index of the clock reading.\<close>

fun baseline_steps_loop ::
  "'r neuromod_api \<Rightarrow> (nat \<Rightarrow> instant \<times> instant) \<Rightarrow> nat \<Rightarrow> (f32 list \<times> neuro_modulators) list
     \<Rightarrow> 'r spiking_network \<Rightarrow> trace \<Rightarrow> u64 \<Rightarrow> secondary_error + trace \<times> u64" where
  "baseline_steps_loop na clk n [] network tr dropped = Inr (tr, dropped)"
| "baseline_steps_loop na clk n ((stimuli, modulators) # decoded) network tr dropped =
     (case na_step na stimuli modulators network of
        (Inl e, network) \<Rightarrow> Inl (SeStep e)
      | (Inr ids, network) \<Rightarrow>
          (let (channels, dropped) = spike_channels ids dropped; (poll, emitted_at) = clk n;
               tr = tr\<lparr>tc_polls := tc_polls tr @ [poll], tc_emits := tc_emits tr @ [(emitted_at, channels)]\<rparr>
           in baseline_steps_loop na clk (Suc n) decoded network tr dropped))"

definition secondary_run_baseline ::
  "'r driver_env \<Rightarrow> daemon_config \<Rightarrow> workload_tick list \<Rightarrow> secondary_error + run_output" where
  "secondary_run_baseline dv cfg inputs =
     bind_res (map_err SeRestore (restore_network (dv_fs dv) (dv_decoders dv) (dv_na dv) cfg))
       (\<lambda>(network, provenance).
     let decoded = map (baseline_inputs (dv_na dv) (dc_channels cfg)) inputs
     in bind_res (baseline_steps_loop (dv_na dv) (dv_step_clock dv) 0 decoded network
                    \<lparr> tc_polls = [], tc_emits = [] \<rparr> 0) (\<lambda>(tr, dropped).
        Inr \<lparr> ro_trace = tr, ro_stats = None, ro_provenance = Some provenance, ro_dropped = dropped,
                 ro_health = None, ro_ingress = None \<rparr>))"

section \<open>The driver\<close>

datatype secondary_mode = SecDaemonLive | SecDaemonSimulation | SecBaseline

fun secondary_mode_as_str :: "secondary_mode \<Rightarrow> string" where
  "secondary_mode_as_str SecDaemonLive = ''daemon-live''"
| "secondary_mode_as_str SecDaemonSimulation = ''daemon-simulation''"
| "secondary_mode_as_str SecBaseline = ''baseline''"

definition LIVE_CONFIG :: path where
  "LIVE_CONFIG = map Normal [''experiments'', ''usefulness-secondary'', ''config'', ''live.toml'']"

definition SIMULATION_CONFIG :: path where
  "SIMULATION_CONFIG = map Normal [''experiments'', ''usefulness-secondary'', ''config'', ''simulation.toml'']"

fun mode_config_path :: "secondary_mode \<Rightarrow> path" where
  "mode_config_path SecDaemonSimulation = SIMULATION_CONFIG"
| "mode_config_path SecDaemonLive = LIVE_CONFIG"
| "mode_config_path SecBaseline = LIVE_CONFIG"

definition stem :: "secondary_mode \<Rightarrow> variant \<Rightarrow> u32 \<Rightarrow> string" where
  "stem m v rep = secondary_mode_as_str m @ ''-'' @ variant_as_str v @ ''-r'' @ show_nat (unat rep)"

text \<open>\<open>write_trace\<close>: what is written per tick, or the refusal of an incomplete trace.\<close>

definition trace_records ::
  "trace \<Rightarrow> workload_tick list \<Rightarrow> secondary_error + (string \<times> u16 list \<times> u64) list" where
  "trace_records tr inputs =
     (if length (tc_polls tr) \<noteq> length (tc_emits tr)
      then Inl (SeTrace (length (tc_polls tr)) (length (tc_emits tr)))
      else Inr (map (\<lambda>((poll, (emit, channels)), input). (wt_segment input, channels, of_nat (emit - poll)))
             (zip (zip (tc_polls tr) (tc_emits tr)) inputs)))"

definition measured_span_ns :: "trace \<Rightarrow> usize \<Rightarrow> u64" where
  "measured_span_ns tr warm =
     (if warm < length (tc_polls tr) \<and> tc_emits tr \<noteq> []
      then of_nat (fst (last (tc_emits tr)) - tc_polls tr ! warm) else 0)"

section \<open>Both decoders agree\<close>

definition tick_packet :: "u64 \<Rightarrow> u64 \<Rightarrow> workload_tick \<Rightarrow> ingress_packet" where
  "tick_packet now bid i =
     \<lparr> ip_stimuli = wt_values i,
       ip_modulators = map_option (\<lambda>m. [mo_dopamine m, mo_cortisol m, mo_acetylcholine m, mo_tempo m]) (wt_modulators i),
       ip_valid_mask = wt_valid_mask i, ip_batch_id = Some bid, ip_timestamp_ns = Some now,
       ip_session_id = Some SECONDARY_SESSION_ID, ip_rejected = False \<rparr>"

lemma masked_nth:
  "i < length xs \<Longrightarrow> (map2 (\<lambda>slot valid. if \<not> valid then z else slot) xs m @ drop (length m) xs) ! i =
     (if i < length m \<and> \<not> m ! i then z else xs ! i)"
  by (auto simp: nth_append)

lemma masked_length: "length (map2 f xs m @ drop (length m) xs) = length xs"
  by simp

lemma baseline_inputs_length [simp]: "length (fst (baseline_inputs na channels i)) = channels"
  by (simp add: baseline_inputs_def Let_def)

lemma baseline_inputs_nth:
  assumes "i < channels"
  shows "fst (baseline_inputs na channels input) ! i =
     (if i < length (wt_values input) \<and>
         (case wt_valid_mask input of None \<Rightarrow> True | Some m \<Rightarrow> i < length m \<longrightarrow> m ! i)
      then wt_values input ! i else f_zero)"
proof -
  let ?xs = "take (min (length (wt_values input)) channels) (wt_values input) @
    drop (min (length (wt_values input)) channels) (replicate channels f_zero)"
  have "i < length ?xs" using assms by simp
  moreover have "?xs ! i = (if i < length (wt_values input) then wt_values input ! i else f_zero)"
    using assms by (simp add: nth_append)
  ultimately show ?thesis
    by (simp only: baseline_inputs_def Let_def fst_conv masked_nth) (simp split: option.split)
qed

definition script :: "'r neuromod_api \<Rightarrow> daemon_config \<Rightarrow> workload_tick list \<Rightarrow> nat \<Rightarrow> neuro_modulators \<times> f32 list" where
  "script na cfg inputs t = prod.swap (baseline_inputs na (dc_channels cfg) (inputs ! t))"

lemma decode_tick:
  assumes "length stim = channels" and "wt_values i \<noteq> []"
  shows "decode_inputs na (tick_view (tick_packet now bid i)) stim = prod.swap (baseline_inputs na channels i)"
proof (rule prod_eqI)
  show "fst (decode_inputs na (tick_view (tick_packet now bid i)) stim) =
      fst (prod.swap (baseline_inputs na channels i))"
    using assms(2)
    by (cases "wt_modulators i")
      (simp_all add: baseline_inputs_def decode_inputs_def tick_view_def tick_packet_def NEUROMODULATOR_COUNT_def Let_def)
  show "snd (decode_inputs na (tick_view (tick_packet now bid i)) stim) =
      snd (prod.swap (baseline_inputs na channels i))"
    using assms
    by (intro nth_equalityI)
      (simp_all add: decode_nth decoded_channel_def baseline_inputs_nth tick_view_def tick_packet_def)
qed

section \<open>The source and the sink keep their promises\<close>

definition tick_batch :: "u64 \<Rightarrow> u64 \<Rightarrow> workload_tick \<Rightarrow> stimulus_batch" where
  "tick_batch now bid i =
     \<lparr> sb_values = wt_values i, sb_valid_mask = wt_valid_mask i, sb_batch_id = bid, sb_timestamp = now,
       sb_session_id = Some SECONDARY_SESSION_ID, sb_metadata = Some [''schema'' \<mapsto> STIMULUS_SCHEMA] \<rparr>"

text \<open>What is assumed of \<open>corpus-ipc\<close> on an input, and of the input itself.\<close>

definition codec_serves_tick :: "secondary_codec \<Rightarrow> workload_tick \<Rightarrow> bool" where
  "codec_serves_tick co i \<longleftrightarrow>
     (\<forall>now bid. codec_keeps (se_ipc co) (IpcStimuli (tick_batch now bid i)) \<and>
        ic_validate (se_ipc co) (tick_batch now bid i) = Inr ()) \<and>
     option_all (\<lambda>m. codec_keeps (se_ipc co) (IpcNeuromodulators (event_snapshot m)) \<and>
        se_validate co (event_snapshot m) = Inr ()) (wt_modulators i)"

definition tick_fits :: "daemon_config \<Rightarrow> workload_tick \<Rightarrow> bool" where
  "tick_fits cfg i \<longleftrightarrow>
     length (wt_values i) = dc_channels cfg \<and> list_all is_finite (wt_values i) \<and>
     option_all (\<lambda>m. list_all is_finite [mo_dopamine m, mo_cortisol m, mo_acetylcholine m, mo_tempo m])
       (wt_modulators i)"

definition secondary_ok ::
  "secondary_codec \<Rightarrow> (u64 \<Rightarrow> poll_clock) \<Rightarrow> daemon_config \<Rightarrow> workload_tick list \<Rightarrow> bool" where
  "secondary_ok co clk cfg inputs \<longleftrightarrow>
     list_all (\<lambda>i. codec_serves_tick co i \<and> tick_fits cfg i) inputs \<and> (\<forall>t. poll_fresh (clk t)) \<and>
     4 \<le> ic_max_payload_len (dc_ingress cfg)"

definition segment_source_at ::
  "secondary_codec \<Rightarrow> (u64 \<Rightarrow> poll_clock) \<Rightarrow> daemon_config \<Rightarrow> workload_tick list \<Rightarrow> nat \<Rightarrow> segment_source \<Rightarrow> bool" where
  "segment_source_at co clk cfg inputs t s \<longleftrightarrow>
     secondary_ok co clk cfg inputs \<and> daemon_config_validate cfg = Inr () \<and> ss_inputs s = inputs \<and>
     ss_next s = t \<and> ss_policy s = workload_policy cfg \<and> length (tc_polls (ss_trace s)) = t"

lemma frames_arrive:
  assumes serves: "codec_serves_tick co i" and fits: "tick_fits cfg i" and fresh: "poll_fresh k"
  shows "\<exists>fr. encode_frames co (pk_encode k) bid i = Inr fr \<and>
    secondary_decode_frames co (pk_now k) fr (workload_policy cfg) = Inr (tick_packet (pk_encode k) bid i)"
proof -
  obtain sb where sb: "ic_encode (se_ipc co) (IpcStimuli (tick_batch (pk_encode k) bid i)) = Inr sb"
    "ic_decode (se_ipc co) sb = Inr (IpcStimuli (tick_batch (pk_encode k) bid i))"
    "ic_validate (se_ipc co) (tick_batch (pk_encode k) bid i) = Inr ()"
    using serves by (auto simp: codec_serves_tick_def codec_keeps_def)
  have frame: "secondary_stimulus_frame co (pk_encode k) bid (wt_values i) (wt_valid_mask i) = Inr sb"
    using sb(1,3) by (simp add: secondary_stimulus_frame_def tick_batch_def bind_unit Let_def)
  have "reject_stale_or_future (pk_encode k) (pk_now k) (Some 1000000000) = Inr ()"
    using fresh by (simp add: reject_stale_or_future_def poll_fresh_def Let_def not_less)
  then have stim: "accept_ipc_json (ic_decode (se_ipc co)) (ic_validate (se_ipc co)) sb (workload_policy cfg) (pk_now k) =
      Inr ((tick_packet (pk_encode k) bid i)\<lparr>ip_modulators := None\<rparr>)"
    using sb(2,3) fits
    by (simp add: accept_ipc_json_def accept_ipc_message_def accept_stimulus_batch_def tick_batch_def tick_fits_def
        require_stimulus_schema_def workload_policy_def ingress_policy_new_def tick_packet_def bind_unit)
  show ?thesis
  proof (cases "wt_modulators i")
    case None
    then show ?thesis
      by (simp add: encode_frames_def frame secondary_decode_frames_def stim tick_packet_def Let_def)
  next
    case (Some m)
    obtain mb where mb: "ic_encode (se_ipc co) (IpcNeuromodulators (event_snapshot m)) = Inr mb"
      "ic_decode (se_ipc co) mb = Inr (IpcNeuromodulators (event_snapshot m))" "se_validate co (event_snapshot m) = Inr ()"
      using serves Some by (auto simp: codec_serves_tick_def codec_keeps_def)
    have mod_frame: "secondary_modulator_frame co m = Inr mb"
      using mb(1,3) by (simp add: secondary_modulator_frame_def event_snapshot_def bind_unit Let_def)
    have "accept_ipc_json (ic_decode (se_ipc co)) (ic_validate (se_ipc co)) mb (workload_policy cfg) (pk_now k) =
        Inr (packet_default\<lparr>ip_modulators := Some [mo_dopamine m, mo_cortisol m, mo_acetylcholine m, mo_tempo m]\<rparr>)"
      using mb(2) by (simp add: accept_ipc_json_def accept_ipc_message_def event_snapshot_def packet_default_def)
    with Some show ?thesis
      by (simp add: encode_frames_def frame mod_frame secondary_decode_frames_def stim tick_packet_def Let_def)
  qed
qed

lemma segment_source_delivers:
  assumes t: "t < length inputs" and s: "segment_source_at co clk cfg inputs t s"
  shows "\<exists>p s'. so_next_ingress (segment_source_ops co clk) s = (Inr p, s') \<and>
    segment_source_at co clk cfg inputs (Suc t) s' \<and>
    option_all (\<lambda>p. finite_packet p \<and> \<not> ip_rejected p \<and> packet_fits (dc_ingress cfg) p) p \<and>
    (\<forall>stim. length stim = dc_channels cfg \<longrightarrow>
       decode_inputs na (tick_view (case p of Some p \<Rightarrow> p | None \<Rightarrow> packet_default)) stim = script na cfg inputs t)"
proof -
  let ?i = "inputs ! t" and ?k = "clk (of_nat t)"
  note s' = s [unfolded segment_source_at_def secondary_ok_def]
  have i: "codec_serves_tick co ?i" "tick_fits cfg ?i" using s' t by (simp_all add: list_all_length)
  obtain fr where fr: "encode_frames co (pk_encode ?k) (of_nat t) ?i = Inr fr"
    "secondary_decode_frames co (pk_now ?k) fr (workload_policy cfg) = Inr (tick_packet (pk_encode ?k) (of_nat t) ?i)"
    using frames_arrive [OF i] s' by blast
  let ?p = "tick_packet (pk_encode ?k) (of_nat t) ?i"
  let ?s = "s\<lparr>ss_next := ss_next s + 1, ss_trace := (ss_trace s)\<lparr>tc_polls := tc_polls (ss_trace s) @ [pk_poll ?k]\<rparr>\<rparr>"
  have "so_next_ingress (segment_source_ops co clk) s = (Inr (Some ?p), ?s)"
    using t s' fr by (simp add: segment_source_ops_def segment_next_ingress_def Let_def)
  moreover have "segment_source_at co clk cfg inputs (Suc t) ?s"
    using s by (simp add: segment_source_at_def)
  moreover have "finite_packet ?p \<and> \<not> ip_rejected ?p \<and> packet_fits (dc_ingress cfg) ?p"
    using i(2) s' valid_payload [of cfg]
    by (cases "wt_modulators ?i") (auto simp: tick_fits_def finite_packet_def packet_fits_def tick_packet_def)
  moreover have "dc_channels cfg \<noteq> 0"
    using s' by (auto simp: daemon_config_validate_def bind_unit)
  then have "wt_values ?i \<noteq> []" using i(2) by (auto simp: tick_fits_def)
  ultimately show ?thesis
    by (intro exI [of _ "Some ?p"] exI [of _ ?s]) (simp add: decode_tick script_def)
qed

definition trace_channels :: "trace_sink \<Rightarrow> u16 list list" where
  "trace_channels k = map snd (tc_emits (tk_trace k))"

interpretation secondary: driven_run "segment_source_ops co clk" "trace_sink_ops eclk" na "dc_ingress cfg"
    "dc_channels cfg" "length inputs" "script na cfg inputs" "segment_source_at co clk cfg inputs" trace_channels
    "\<lambda>channels. channels"
  for co clk eclk na cfg inputs
  by unfold_locales
    (use segment_source_delivers in \<open>auto simp: trace_sink_ops_def trace_emit_def trace_channels_def
       segment_source_ops_def Let_def\<close>)

section \<open>The baseline steps the network directly\<close>

lemma baseline_loop_steps:
  assumes fit: "ids_fit na"
  shows "baseline_steps_loop na clk n decoded net tr dropped = Inr (tr', dropped') \<Longrightarrow>
    (\<forall>i < length decoded. input (t + i) = prod.swap (decoded ! i)) \<Longrightarrow>
    \<exists>idss. step_all na input t (length decoded) net = Some idss \<and>
      map snd (tc_emits tr') = map snd (tc_emits tr) @ map (map (\<lambda>i. of_nat i)) idss \<and>
      length (tc_polls tr') = length (tc_polls tr) + length decoded \<and>
      length (tc_emits tr') = length (tc_emits tr) + length decoded"
proof (induction decoded arbitrary: n t net tr dropped)
  case (Cons p decoded)
  obtain xs m where p: "p = (xs, m)" by fastforce
  have input: "input t = (m, xs)" using Cons.prems(2) [rule_format, of 0] by (simp add: p)
  obtain r net' where s: "na_step na xs m net = (r, net')" by fastforce
  with Cons.prems(1) obtain ids where r: "r = Inr ids" by (cases r) (auto simp: p)
  have ids: "filter (\<lambda>i. i < 65536) ids = ids"
    using fit s r by (metis (full_types) ids_fit_def list_all_iff filter_id_conv)
  let ?tr = "tr\<lparr>tc_polls := tc_polls tr @ [fst (clk n)],
      tc_emits := tc_emits tr @ [(snd (clk n), map (\<lambda>i. of_nat i) ids)]\<rparr>"
  have "baseline_steps_loop na clk (Suc n) decoded net' ?tr dropped = Inr (tr', dropped')"
    using Cons.prems(1) by (simp add: p s r spike_channels_def ids case_prod_beta Let_def)
  moreover have "\<forall>i < length decoded. input (Suc t + i) = prod.swap (decoded ! i)"
    using Cons.prems(2) by (auto dest: spec [of _ "Suc _"])
  ultimately obtain idss where "step_all na input (Suc t) (length decoded) net' = Some idss"
    "map snd (tc_emits tr') = map snd (tc_emits ?tr) @ map (map (\<lambda>i. of_nat i)) idss"
    "length (tc_polls tr') = length (tc_polls ?tr) + length decoded"
    "length (tc_emits tr') = length (tc_emits ?tr) + length decoded"
    using Cons.IH by blast
  then show ?case by (intro exI [of _ "ids # idss"]) (simp add: input s r)
qed simp

text \<open>What a completed baseline says of the daemon on the same inputs.\<close>

lemma secondary_runs:
  assumes dims: "neuromod_dims (dv_na dv)" and fit: "ids_fit (dv_na dv)"
    and ok: "secondary_ok co (dv_poll_clock dv) cfg inputs"
    and base: "secondary_run_baseline dv cfg inputs = Inr rb"
  shows "\<exists>rd. secondary_run_daemon dv co cfg inputs = Inr rd \<and>
     map snd (tc_emits (ro_trace rd)) = map snd (tc_emits (ro_trace rb)) \<and>
     length (tc_polls (ro_trace rd)) = length inputs \<and> length (tc_emits (ro_trace rd)) = length inputs \<and>
     ro_provenance rd = ro_provenance rb \<and> option_all (clean_stats (length inputs)) (ro_stats rd) \<and>
     ro_stats rd \<noteq> None \<and> ro_stats rb = None \<and>
     length (tc_polls (ro_trace rb)) = length inputs \<and> length (tc_emits (ro_trace rb)) = length inputs"
proof -
  let ?be = "trace_backend cfg inputs" and ?decoded = "map (baseline_inputs (dv_na dv) (dc_channels cfg)) inputs"
  obtain net prov dropped where
    restore: "restore_network (dv_fs dv) (dv_decoders dv) (dv_na dv) cfg = Inr (net, prov)" and
    loop: "baseline_steps_loop (dv_na dv) (dv_step_clock dv) 0 ?decoded net \<lparr> tc_polls = [], tc_emits = [] \<rparr> 0 =
      Inr (ro_trace rb, dropped)" and rb: "ro_provenance rb = Some prov" "ro_stats rb = None"
    using base by (auto simp: secondary_run_baseline_def bind_res_Inr case_prod_beta Let_def)
  have "\<forall>i < length ?decoded. script (dv_na dv) cfg inputs (0 + i) = prod.swap (?decoded ! i)"
    by (simp add: script_def)
  from baseline_loop_steps [OF fit loop this] obtain idss where
    idss: "step_all (dv_na dv) (script (dv_na dv) cfg inputs) 0 (length inputs) net = Some idss"
      "map snd (tc_emits (ro_trace rb)) = map (map (\<lambda>i. of_nat i)) idss"
      "length (tc_emits (ro_trace rb)) = length inputs" "length (tc_polls (ro_trace rb)) = length inputs" by auto
  have "daemon_config_validate cfg = Inr ()"
    using restore by (auto simp: restore_network_def bind_res_Inr)
  then have start: "segment_source_at co (dv_poll_clock dv) cfg inputs 0 (bp_source ?be)" "trace_channels (bp_sink ?be) = []"
    using ok by (simp_all add: segment_source_at_def trace_backend_def workload_policy_def trace_channels_def)
  obtain d stats e src where run: "try_with_backend (dv_started_at dv) cfg ?be = Inr d"
    "run_for_ticks (dv_fs dv) (dv_decoders dv) (dv_na dv) (segment_source_ops co (dv_poll_clock dv))
       (trace_sink_ops (dv_emit_clock dv)) (dv_show_error dv) (dv_boot_clock dv)
       (map (dv_tick_env dv) [0..<length inputs]) d = (Inr stats, e)"
    "rs_loaded_checkpoint stats = Some prov" "clean_stats (length inputs) stats" "trace_channels (re_sink e) = map secondary.recorded idss"
    "re_source e = snd (so_shutdown (segment_source_ops co (dv_poll_clock dv)) src)"
    "segment_source_at co (dv_poll_clock dv) cfg inputs (length inputs) src"
    using secondary.bounded_run [OF dims fit restore idss(1) refl refl start] by metis
  have emits: "map snd (tc_emits (tk_trace (re_sink e))) = map snd (tc_emits (ro_trace rb))"
    using run(5) idss(2) by (simp add: trace_channels_def secondary.recorded_def)
  have "length (tc_polls (ss_trace (re_source e))) = length inputs"
    using run(6,7) by (simp add: segment_source_at_def segment_source_ops_def)
  moreover have "length (tc_emits (tk_trace (re_sink e))) = length inputs"
    using arg_cong [OF emits, of length] idss(3) by simp
  ultimately show ?thesis
    using run(1,2,3,4) rb emits idss(3,4) by (simp add: secondary_run_daemon_def Let_def)
qed

section \<open>Masking is zeroing\<close>

lemma zeroed_inputs:
  assumes "check_width channels s = Inr ()"
  shows "map (baseline_inputs na channels) (segment_ticks Zeroed s) =
    map (baseline_inputs na channels) (segment_ticks MainVariant s)"
proof (cases "sg_valid_mask s")
  case None
  then show ?thesis by (simp add: segment_ticks_def)
next
  case (Some vmask)
  have len: "length (sg_values s) = channels" "length vmask = channels"
    using assms by (auto simp: check_width_def Some Let_def split: if_splits)
  let ?main = "\<lparr> wt_segment = sg_name s, wt_values = sg_values s, wt_valid_mask = Some vmask,
      wt_modulators = sg_neuromodulators s \<rparr>"
  let ?zero = "\<lparr> wt_segment = sg_name s, wt_values = map2 (\<lambda>v ok. if ok then v else f_zero) (sg_values s) vmask,
      wt_valid_mask = Some (replicate (length vmask) True), wt_modulators = sg_neuromodulators s \<rparr>"
  have "baseline_inputs na channels ?zero = baseline_inputs na channels ?main"
  proof (rule prod_eqI)
    show "fst (baseline_inputs na channels ?zero) = fst (baseline_inputs na channels ?main)"
      by (rule nth_equalityI) (use len in \<open>auto simp: baseline_inputs_nth\<close>)
    show "snd (baseline_inputs na channels ?zero) = snd (baseline_inputs na channels ?main)"
      by (simp add: baseline_inputs_def Let_def)
  qed
  then show ?thesis by (simp add: segment_ticks_def Some)
qed

lemma zeroed_expand:
  assumes "segment_workload_load fs parse = Inr w"
  shows "map (baseline_inputs na (sw_channels w)) (segment_workload_expand Zeroed w) =
    map (baseline_inputs na (sw_channels w)) (segment_workload_expand MainVariant w)"
proof -
  have "check_width (sw_channels w) s = Inr ()" if "s \<in> set (sw_segments w)" for s
    using assms that by (cases "check_width (sw_channels w) s")
      (auto simp: segment_workload_load_def bind_res_Inr for_each_res_ok split: sum.splits if_splits)
  then have "map (map (baseline_inputs na (sw_channels w)) \<circ> segment_ticks Zeroed) (sw_segments w) =
      map (map (baseline_inputs na (sw_channels w)) \<circ> segment_ticks MainVariant) (sw_segments w)"
    using zeroed_inputs by (intro map_cong) auto
  then show ?thesis by (simp add: segment_workload_expand_def map_concat comp_def cong: map_cong)
qed


section \<open>A concrete comparison\<close>

definition demo_segment :: segment where
  "demo_segment =
     \<lparr> sg_name = ''gap'', sg_ticks = 1, sg_values = [f_one], sg_valid_mask = Some [False], sg_neuromodulators = None \<rparr>"

definition demo_segments :: segment_workload where
  "demo_segments =
     \<lparr> sw_workload_version = ''v1'', sw_channels = 1, sw_cycles = 2, sw_warmup_cycles = 0, sw_segments = [demo_segment],
       sw_transport = \<lparr> ps_tick_rate_hz = 0, ps_probes = 0, ps_probe_interval_ms = 0, ps_probe_value = f_zero,
         ps_priming_channel = 0, ps_priming_interval_ms = 0, ps_priming_timeout_ms = 0, ps_settle_ms = 0 \<rparr> \<rparr>"

text \<open>
  A codec good enough for it: the first character of the text says which of the two variants
  it carries, and the length of the rest carries identifier and time.
\<close>

definition masked_tick :: workload_tick where
  "masked_tick = \<lparr> wt_segment = ''gap'', wt_values = [f_one], wt_valid_mask = Some [False], wt_modulators = None \<rparr>"

definition zeroed_tick :: workload_tick where
  "zeroed_tick = \<lparr> wt_segment = ''gap'', wt_values = [f_zero], wt_valid_mask = Some [True], wt_modulators = None \<rparr>"

definition two_variant_ipc :: ipc_codec where
  "two_variant_ipc =
     \<lparr> ic_encode = (\<lambda>m. case m of
         IpcStimuli b \<Rightarrow> Inr ((if sb_values b = [f_one] then CHR ''m'' else CHR ''z'') #
           replicate (unat (sb_batch_id b) + 0x10000000000000000 * unat (sb_timestamp b)) CHR ''x'')
       | _ \<Rightarrow> Inl ''unsupported''),
       ic_decode = (\<lambda>s. Inr (IpcStimuli (tick_batch (of_nat (length (tl s) div 0x10000000000000000))
         (of_nat (length (tl s) mod 0x10000000000000000)) (if hd s = CHR ''m'' then masked_tick else zeroed_tick)))),
       ic_validate = (\<lambda>_. Inr ()) \<rparr>"

definition two_variant_codec :: secondary_codec where
  "two_variant_codec = \<lparr> se_ipc = two_variant_ipc, se_validate = (\<lambda>_. Inr ()) \<rparr>"

lemma two_variant_serves:
  assumes "i = masked_tick \<or> i = zeroed_tick"
  shows "codec_serves_tick two_variant_codec i"
proof -
  have "codec_keeps two_variant_ipc (IpcStimuli (tick_batch now bid i))" for now bid
  proof -
    have "unat bid < 0x10000000000000000" using unsigned_less [of bid] by simp
    moreover have "f_one \<noteq> f_zero" by (simp add: f_one_def f_zero_def)
    ultimately show ?thesis using assms
      by (auto simp: codec_keeps_def two_variant_ipc_def tick_batch_def masked_tick_def zeroed_tick_def)
  qed
  with assms show ?thesis
    by (auto simp: codec_serves_tick_def two_variant_codec_def masked_tick_def zeroed_tick_def two_variant_ipc_def)
qed

lemma demo_segments_expand:
  "segment_workload_expand MainVariant demo_segments = [masked_tick, masked_tick]"
  "segment_workload_expand Zeroed demo_segments = [zeroed_tick, zeroed_tick]"
  by (simp_all add: segment_workload_expand_def segment_ticks_def demo_segments_def demo_segment_def
      masked_tick_def zeroed_tick_def numeral_2_eq_2)

lemma demo_segments_ok:
  assumes "\<And>i. i \<in> set inputs \<Longrightarrow> i = masked_tick \<or> i = zeroed_tick"
  shows "secondary_ok two_variant_codec (dv_poll_clock demo_driver) demo_cfg inputs"
proof -
  have "tick_fits demo_cfg masked_tick" "tick_fits demo_cfg zeroed_tick"
    by (simp_all add: tick_fits_def masked_tick_def zeroed_tick_def f_one_def f_zero_def)
  moreover have "poll_fresh (dv_poll_clock demo_driver t)" for t
    by (simp add: poll_fresh_def demo_driver_def)
  ultimately show ?thesis
    using assms two_variant_serves
    by (auto simp: secondary_ok_def list_all_iff) (simp add: ingress_config_default_def)
qed

lemma demo_steps: "\<exists>tr' dropped'. baseline_steps_loop demo_na clk n decoded net tr dropped = Inr (tr', dropped')"
proof (induction decoded arbitrary: n net tr dropped)
  case (Cons p decoded)
  obtain xs m where p: "p = (xs, m)" by fastforce
  moreover have "na_step demo_na xs m net = (Inr [0], net)" by (simp add: demo_na_def)
  ultimately show ?case using Cons.IH by (simp add: spike_channels_def case_prod_beta Let_def)
qed simp

lemma demo_segments_load:
  "segment_workload_load (dv_fs demo_driver) (\<lambda>_. Inr demo_segments) = Inr demo_segments"
  "dc_channels demo_cfg = sw_channels demo_segments"
  by (simp_all add: segment_workload_load_def read_to_string_def demo_driver_def demo_fs_def in_range_def
      demo_segments_def demo_segment_def check_width_def)

lemma demo_variants_ok:
  "secondary_ok two_variant_codec (dv_poll_clock demo_driver) demo_cfg (segment_workload_expand MainVariant demo_segments)"
  "secondary_ok two_variant_codec (dv_poll_clock demo_driver) demo_cfg (segment_workload_expand Zeroed demo_segments)"
  by (rule demo_segments_ok, simp add: demo_segments_expand)+

lemma demo_secondary_runs: "\<exists>rb. secondary_run_baseline demo_driver demo_cfg inputs = Inr rb"
proof -
  obtain net prov where "restore_network demo_fs demo_de demo_na demo_cfg = Inr (net, prov)"
    using demo_restore [of "Fin False (1 / 2)"] f32_half by (auto simp: f_zero_def f_one_def)
  moreover obtain tr' dropped' where "baseline_steps_loop demo_na (dv_step_clock demo_driver) 0
      (map (baseline_inputs demo_na (dc_channels demo_cfg)) inputs) net
      \<lparr> tc_polls = [], tc_emits = [] \<rparr> 0 = Inr (tr', dropped')"
    using demo_steps by blast
  moreover have "dv_fs demo_driver = demo_fs" "dv_decoders demo_driver = demo_de" "dv_na demo_driver = demo_na"
    by (simp_all add: demo_driver_def)
  ultimately show ?thesis
    unfolding secondary_run_baseline_def by (simp add: case_prod_beta Let_def)
qed


end
