(* ===== verification/Transport_Secondary.thy ===== *)
theory Transport_Secondary
  imports Transport Usefulness_Secondary
begin

text \<open>
  The transport driver of the secondary experiment (\<open>examples/usefulness_secondary_transport.rs\<close>):
  a receiver thread appends every spike batch to a shared list while the main thread primes,
  sends its probes on a schedule and stops the daemon. The list the receiver ends up with is an
  argument of the main thread's steps; each of its looks at the list sees some prefix of it,
  whose length is part of the observation. A loop is \<open>None\<close> while it has not ended.
\<close>

section \<open>Receiving\<close>

definition TRANSPORT_CONFIG :: path where
  "TRANSPORT_CONFIG = map Normal [''experiments'', ''usefulness-secondary'', ''config'', ''transport-live.toml'']"

record received =
  rcv_at_ns :: u64
  rcv_batch_id :: u64
  rcv_channels :: "u16 list"

record sent_probe =
  sen_probe :: nat
  sen_channel :: nat
  sen_at_ns :: u64

definition decode_spikes :: "(string \<Rightarrow> string + ipc_message) \<Rightarrow> string \<Rightarrow> (u64 \<times> u16 list) option" where
  "decode_spikes dec bytes =
     (case dec bytes of
        Inr (IpcSpikes batch) \<Rightarrow>
          (let channels = map cs_channel (pb_spikes batch); channels = sort channels
           in Some (pb_batch_id batch, channels))
      | _ \<Rightarrow> None)"

text \<open>
  What \<open>recv_bytes\<close> returns, with the clock read after a success. An error ends the drain. The
  first component is \<open>None\<close> while the loop goes on; the list has what was received so far.
\<close>

fun drain_frames ::
  "(string \<Rightarrow> string + ipc_message) \<Rightarrow> ((string + string) \<times> u64) list \<Rightarrow> u64 \<Rightarrow> received list
     \<Rightarrow> u64 option \<times> received list" where
  "drain_frames dec [] undecodable records = (None, records)"
| "drain_frames dec ((r, at_ns) # rs) undecodable records =
     (case r of
        Inl _ \<Rightarrow> (Some undecodable, records)
      | Inr bytes \<Rightarrow>
          (case decode_spikes dec bytes of
             Some (batch_id, channels) \<Rightarrow>
               drain_frames dec rs undecodable
                 (records @ [\<lparr> rcv_at_ns = at_ns, rcv_batch_id = batch_id, rcv_channels = channels \<rparr>])
           | None \<Rightarrow> drain_frames dec rs (undecodable + 1) records))"

text \<open>A turn of the receiver thread: the stop flag, the poll, the frames then queued.\<close>

record receiver_turn =
  rt_stop :: bool
  rt_poll :: "string + nat"
  rt_recvs :: "((string + string) \<times> u64) list"

fun receiver_loop ::
  "(string \<Rightarrow> string + ipc_message) \<Rightarrow> receiver_turn list \<Rightarrow> u64 \<Rightarrow> received list
     \<Rightarrow> (string + u64) option \<times> received list" where
  "receiver_loop dec [] undecodable records = (None, records)"
| "receiver_loop dec (turn # turns) undecodable records =
     (if rt_stop turn then (Some (Inr undecodable), records)
      else (case rt_poll turn of
          Inl e \<Rightarrow> (Some (Inl e), records)
        | Inr n \<Rightarrow>
            (if n = 0 then receiver_loop dec turns undecodable records
             else (case drain_frames dec (rt_recvs turn) 0 records of
                 (None, records) \<Rightarrow> (None, records)
               | (Some more_bad, records) \<Rightarrow> receiver_loop dec turns (undecodable + more_bad) records))))"

definition any_batch :: "received list \<Rightarrow> (received \<Rightarrow> bool) \<Rightarrow> bool" where
  "any_batch records p = list_ex p records"

text \<open>\<open>wait_for\<close> on the shared list: each look sees a prefix, then the time elapsed is read.\<close>

definition wait_for_batch ::
  "received list \<Rightarrow> (received \<Rightarrow> bool) \<Rightarrow> duration \<Rightarrow> (nat \<times> duration) list \<Rightarrow> bool option" where
  "wait_for_batch records p deadline looks =
     wait_for deadline (map (\<lambda>(n, elapsed). (any_batch (take n records) p, elapsed)) looks)"

text \<open>The loop goes on while the clock has not passed the target.\<close>

fun sleep_until :: "instant \<Rightarrow> instant list \<Rightarrow> unit option" where
  "sleep_until target [] = None"
| "sleep_until target (now # clocks) = (if target < now then Some () else sleep_until target clocks)"

section \<open>The session\<close>

datatype probe_error =
    PbLoad secondary_error
  | PbConfig config_error
  | PbTickRate u32 u32
  | PbNoControl
  | PbZmq string
  | PbProcess process_error
  | PbNoBatch
  | PbPriming "u16 list" u64
  | PbFrame string
  | PbReceiver string
  | PbPanic
  | PbWrite string

definition one_hot :: "nat \<Rightarrow> nat \<Rightarrow> f32 \<Rightarrow> probe_error + f32 list" where
  "one_hot channels channel value =
     (if channel < channels then Inr ((replicate channels f_zero)[channel := value]) else Inl PbPanic)"

record probe_session =
  bs_spec :: probe_spec
  bs_channels :: usize
  bs_control :: string
  bs_pub_endpoint :: string
  bs_child :: "child option"
  bs_pid :: u32

definition session_stimulus ::
  "secondary_codec \<Rightarrow> u64 \<Rightarrow> probe_session \<Rightarrow> u64 \<Rightarrow> nat \<Rightarrow> probe_error + string" where
  "session_stimulus co now bs batch_id channel =
     bind_res (one_hot (bs_channels bs) channel (ps_probe_value (bs_spec bs))) (\<lambda>values.
       map_err PbFrame (secondary_stimulus_frame co now batch_id values (Some (replicate (bs_channels bs) True))))"

record priming_obs =
  pm_now :: u64
  pm_send :: "string + unit"
  pm_looks :: "(nat \<times> duration) list"
  pm_elapsed :: duration

definition prime_once ::
  "secondary_codec \<Rightarrow> received list \<Rightarrow> priming_obs \<Rightarrow> probe_session \<Rightarrow> u64 \<Rightarrow> u16 list \<Rightarrow> (probe_error + bool) option" where
  "prime_once co records ob bs frame expected =
     run_bind (Some (session_stimulus co (pm_now ob) bs (1000000 + frame) (ps_priming_channel (bs_spec bs)))) (\<lambda>bytes.
     run_bind (Some (map_err PbZmq (pm_send ob))) (\<lambda>_.
       let interval = unat (ps_priming_interval_ms (bs_spec bs)) * 1000000
       in map_option Inr (wait_for_batch records (\<lambda>r. rcv_channels r = expected) interval (pm_looks ob))))"

fun priming_loop ::
  "secondary_codec \<Rightarrow> received list \<Rightarrow> priming_obs list \<Rightarrow> probe_session \<Rightarrow> u16 list \<Rightarrow> u64
     \<Rightarrow> (probe_error + u64) option" where
  "priming_loop co records [] bs expected frames = None"
| "priming_loop co records (ob # obs) bs expected frames =
     run_bind (prime_once co records ob bs frames expected) (\<lambda>primed.
       if primed then Some (Inr (frames + 1))
       else let frames = frames + 1
            in if pm_elapsed ob > unat (ps_priming_timeout_ms (bs_spec bs)) * 1000000
               then Some (Inl (PbPriming expected frames))
               else priming_loop co records obs bs expected frames)"

text \<open>The expected answer of channel \<open>c\<close> is \<open>{2c, 2c+1}\<close>, in \<open>u16\<close>.\<close>

definition primed_channels :: "probe_session \<Rightarrow> u16 list" where
  "primed_channels bs =
     (let c = of_nat (ps_priming_channel (bs_spec bs)) in [2 * c, 2 * c + 1])"

definition prime_daemon ::
  "secondary_codec \<Rightarrow> received list \<Rightarrow> priming_obs list \<Rightarrow> probe_session \<Rightarrow> (probe_error + u64) option" where
  "prime_daemon co records obs bs = priming_loop co records obs bs (primed_channels bs) 0"

record probe_obs =
  bo_clocks :: "instant list"
  bo_now :: u64
  bo_at_ns :: u64
  bo_send :: "string + unit"

text \<open>The index of a probe is cut to 32 bits for its start time; \<open>Duration\<close> panics on overflow.\<close>

definition probe_at :: "probe_session \<Rightarrow> instant \<Rightarrow> nat \<Rightarrow> probe_error + instant" where
  "probe_at bs start i =
     (let interval = unat (ps_probe_interval_ms (bs_spec bs)) * 1000000; k = i mod 2 ^ 32
      in if 2 ^ 64 \<le> interval * k div 1000000000 then Inl PbPanic else Inr (start + interval * k))"

fun probe_loop ::
  "secondary_codec \<Rightarrow> (nat \<Rightarrow> probe_obs) \<Rightarrow> probe_session \<Rightarrow> instant \<Rightarrow> nat list \<Rightarrow> sent_probe list
     \<Rightarrow> (probe_error + sent_probe list) option" where
  "probe_loop co obs bs start [] sends = Some (Inr sends)"
| "probe_loop co obs bs start (i # rest) sends =
     (let ob = obs i
      in run_bind (Some (probe_at bs start i)) (\<lambda>target.
         case sleep_until target (bo_clocks ob) of
           None \<Rightarrow> None
         | Some _ \<Rightarrow>
             (let channel = i mod bs_channels bs
              in run_bind (Some (session_stimulus co (bo_now ob) bs (of_nat i) channel)) (\<lambda>bytes.
                 run_bind (Some (map_err PbZmq (bo_send ob))) (\<lambda>_.
                   probe_loop co obs bs start rest
                     (sends @ [\<lparr> sen_probe = i, sen_channel = channel, sen_at_ns = bo_at_ns ob \<rparr>]))))))"

definition session_probes ::
  "secondary_codec \<Rightarrow> (nat \<Rightarrow> probe_obs) \<Rightarrow> instant \<Rightarrow> instant list \<Rightarrow> u64 \<Rightarrow> probe_session
     \<Rightarrow> (probe_error + sent_probe list \<times> u64) option" where
  "session_probes co obs now clocks end_ns bs =
     (let start = now + 5000000
      in run_bind (probe_loop co obs bs start [0..<ps_probes (bs_spec bs)] []) (\<lambda>sends.
         run_bind (Some (probe_at bs start (ps_probes (bs_spec bs)))) (\<lambda>target.
         case sleep_until target clocks of None \<Rightarrow> None | Some _ \<Rightarrow> Some (Inr (sends, end_ns)))))"

section \<open>The window\<close>

record window =
  win_start_ns :: u64
  win_end_ns :: u64

definition window_phase :: "window \<Rightarrow> u64 \<Rightarrow> string" where
  "window_phase w t = (if t < win_start_ns w then ''priming'' else if t \<le> win_end_ns w then ''measure'' else ''tail'')"

definition sent_rows :: "sent_probe list \<Rightarrow> (nat \<times> nat \<times> u64) list" where
  "sent_rows sends = map (\<lambda>s. (sen_probe s, sen_channel s, sen_at_ns s)) sends"

definition received_rows :: "window \<Rightarrow> received list \<Rightarrow> (u64 \<times> u64 \<times> u16 list \<times> string) list" where
  "received_rows w records =
     map (\<lambda>r. (rcv_at_ns r, rcv_batch_id r, rcv_channels r, window_phase w (rcv_at_ns r))) records"

section \<open>The whole run\<close>

record probe_env =
  be_fs :: filesystem
  be_toml :: "string \<Rightarrow> string + daemon_config"
  be_parse :: "string \<Rightarrow> string + segment_workload"
  be_codec :: secondary_codec
  be_socket :: "socket_call \<Rightarrow> string + unit"
  be_spawn :: "string + u32"
  be_startup :: "startup_poll list"
  be_turns :: "receiver_turn list"
  be_first_looks :: "(nat \<times> duration) list"
  be_priming :: "priming_obs list"
  be_start_ns :: u64
  be_probes_now :: instant
  be_probes :: "nat \<Rightarrow> probe_obs"
  be_last_clocks :: "instant list"
  be_end_ns :: u64
  be_peer :: "string \<Rightarrow> http_exchange"
  be_show :: "http_error \<Rightarrow> string"
  be_proc :: filesystem
  be_kill :: "string + bool"
  be_exit_polls :: "(duration \<times> (string + exit_status option)) list"
  be_exit_elapsed :: duration
  be_log :: "string option"
  be_write :: "string + unit"

definition producer_calls :: "daemon_config \<Rightarrow> socket_call list" where
  "producer_calls cfg =
     [OpSocket ''PUB'', OpLinger 0, OpBind (''tcp://127.0.0.1:'' @ show_nat (unat (dc_spine_sub_port cfg)))]"

definition subscriber_calls :: "string \<Rightarrow> socket_call list" where
  "subscriber_calls endpoint = [OpSocket ''SUB'', OpLinger 0, OpRcvhwm 100000, OpSubscribe [], OpConnect endpoint]"

text \<open>Everything up to the start of the process.\<close>

definition launch_daemon :: "probe_env \<Rightarrow> probe_spec \<Rightarrow> probe_error + daemon_config \<times> string \<times> u32" where
  "launch_daemon be spec =
     bind_res (map_err PbConfig (daemon_config_load (be_fs be) (be_toml be) TRANSPORT_CONFIG)) (\<lambda>cfg.
       if dc_tick_rate_hz cfg \<noteq> ps_tick_rate_hz spec
       then Inl (PbTickRate (dc_tick_rate_hz cfg) (ps_tick_rate_hz spec))
       else bind_res (case dc_control_bind cfg of None \<Rightarrow> Inl PbNoControl | Some bind \<Rightarrow> Inr bind) (\<lambda>control.
            bind_res (map_err PbZmq (for_each_res (be_socket be) (producer_calls cfg))) (\<lambda>_.
            bind_res (map_err (\<lambda>e. PbProcess (PeSpawn e)) (be_spawn be)) (\<lambda>p. Inr (cfg, control, p)))))"

text \<open>
  The second component is what was done to processes. A daemon whose start-up wait failed is
  owned by its handle by then and dropped with it.
\<close>

definition start_session ::
  "probe_env \<Rightarrow> probe_spec \<Rightarrow> usize \<Rightarrow> ((probe_error + probe_session \<times> u64) \<times> process_effect list) option" where
  "start_session be spec channels =
     (case launch_daemon be spec of
        Inl e \<Rightarrow> Some (Inl e, [])
      | Inr (cfg, control, p) \<Rightarrow>
          (case secondary_wait_ready control (be_startup be) \<lparr> ch_pid = p, ch_status = None \<rparr> of
             None \<Rightarrow> None
           | Some (Inl e, c, es) \<Rightarrow> Some (Inl (PbProcess e), EfSpawn p # es @ kill_and_wait (Some c))
           | Some (Inr ready_ms, c, es) \<Rightarrow>
               Some (Inr (\<lparr> bs_spec = spec, bs_channels = channels, bs_control = control,
                        bs_pub_endpoint = ''tcp://127.0.0.1:'' @ show_nat (unat (dc_spine_pub_port cfg)),
                        bs_child = Some c, bs_pid = p \<rparr>, ready_ms), EfSpawn p # es)))"

record evidence =
  evi_metrics :: string
  evi_health :: string
  evi_vm_hwm_kb :: "u64 option"
  evi_vm_rss_kb :: "u64 option"

definition capture_evidence :: "probe_env \<Rightarrow> string \<Rightarrow> u32 \<Rightarrow> evidence" where
  "capture_evidence be control p =
     (let get = (\<lambda>path. case secondary_http_get (be_peer be) control path of
                   Inr r \<Rightarrow> r | Inl e \<Rightarrow> ''error: '' @ be_show be e);
          (vm_hwm_kb, vm_rss_kb) = proc_memory_kb (be_proc be) (''/proc/'' @ show_nat (unat p) @ ''/status'')
      in \<lparr> evi_metrics = get ''/metrics'', evi_health = get ''/health'', evi_vm_hwm_kb = vm_hwm_kb,
           evi_vm_rss_kb = vm_rss_kb \<rparr>)"

record measured =
  mea_ready_ms :: u64
  mea_priming_frames :: u64
  mea_sends :: "sent_probe list"
  mea_window :: window
  mea_records :: "received list"
  mea_undecodable :: u64
  mea_evidence :: evidence
  mea_exit :: exit_info

text \<open>The measurement up to the evidence; \<open>records\<close> is what the receiver collects over the run.\<close>

definition measure_probes ::
  "probe_env \<Rightarrow> received list \<Rightarrow> probe_session \<Rightarrow> (probe_error + u64 \<times> sent_probe list \<times> u64) option" where
  "measure_probes be records bs =
     run_bind (Some (map_err PbZmq (for_each_res (be_socket be) (subscriber_calls (bs_pub_endpoint bs))))) (\<lambda>_.
     run_bind (map_option Inr (wait_for_batch records (\<lambda>_. True) READY_DEADLINE (be_first_looks be))) (\<lambda>subscribed.
       if \<not> subscribed then Some (Inl PbNoBatch)
       else run_bind (prime_daemon (be_codec be) records (be_priming be) bs) (\<lambda>priming_frames.
            run_bind (session_probes (be_codec be) (be_probes be) (be_probes_now be) (be_last_clocks be) (be_end_ns be) bs)
              (\<lambda>(sends, end_ns). Some (Inr (priming_frames, sends, end_ns))))))"

text \<open>
  \<open>measure\<close> owns the session: the last component is what is left of the child, which the drop of
  the session kills and reaps. The receiver is joined after the daemon was told to stop.
\<close>

definition measure_secondary ::
  "probe_env \<Rightarrow> probe_session \<Rightarrow> u64 \<Rightarrow> ((probe_error + measured) \<times> process_effect list) option" where
  "measure_secondary be bs ready_ms =
     (let (joined, records) = receiver_loop (ic_decode (se_ipc (be_codec be))) (be_turns be) 0 []
      in case measure_probes be records bs of
           None \<Rightarrow> None
         | Some (Inl e) \<Rightarrow> Some (Inl e, kill_and_wait (bs_child bs))
         | Some (Inr (priming_frames, sends, end_ns)) \<Rightarrow>
             (case bs_child bs of
                None \<Rightarrow> Some (Inl PbPanic, [])
              | Some c \<Rightarrow>
                  (case secondary_terminate (be_kill be) (be_exit_polls be) (be_exit_elapsed be) (bs_pid bs) c of
                     None \<Rightarrow> None
                   | Some (Inl e, c, es) \<Rightarrow> Some (Inl (PbProcess e), es @ kill_and_wait c)
                   | Some (Inr exit, c, es) \<Rightarrow>
                       map_option (\<lambda>undecodable.
                           (bind_res (map_err PbReceiver undecodable) (\<lambda>undecodable.
                              Inr \<lparr> mea_ready_ms = ready_ms, mea_priming_frames = priming_frames, mea_sends = sends,
                                    mea_window = \<lparr> win_start_ns = be_start_ns be, win_end_ns = end_ns \<rparr>,
                                    mea_records = records, mea_undecodable = undecodable,
                                    mea_evidence = capture_evidence be (bs_control bs) (bs_pid bs), mea_exit = exit \<rparr>),
                            es @ kill_and_wait c))
                         joined)))"

text \<open>The files one repetition writes: the two row files, the two texts and the summary.\<close>

record probe_report =
  prp_sends :: "(nat \<times> nat \<times> u64) list"
  prp_received :: "(u64 \<times> u64 \<times> u16 list \<times> string) list"
  prp_metrics_txt :: string
  prp_health_txt :: string
  prp_ready_ms :: u64
  prp_priming_frames :: u64
  prp_probes_sent :: nat
  prp_measure_start_ns :: u64
  prp_measure_end_ns :: u64
  prp_batches_received :: nat
  prp_undecodable :: u64
  prp_vm_hwm_kb :: "u64 option"
  prp_vm_rss_kb :: "u64 option"
  prp_sigterm_sent :: bool
  prp_exit :: "int option \<times> bool \<times> bool"
  prp_exit_ns :: duration
  prp_logged :: bool

definition probe_outputs :: "string option \<Rightarrow> measured \<Rightarrow> probe_report" where
  "probe_outputs daemon_log m =
     \<lparr> prp_sends = sent_rows (mea_sends m), prp_received = received_rows (mea_window m) (mea_records m),
       prp_metrics_txt = evi_metrics (mea_evidence m), prp_health_txt = evi_health (mea_evidence m),
       prp_ready_ms = mea_ready_ms m, prp_priming_frames = mea_priming_frames m,
       prp_probes_sent = length (mea_sends m), prp_measure_start_ns = win_start_ns (mea_window m),
       prp_measure_end_ns = win_end_ns (mea_window m), prp_batches_received = length (mea_records m),
       prp_undecodable = mea_undecodable m, prp_vm_hwm_kb = evi_vm_hwm_kb (mea_evidence m),
       prp_vm_rss_kb = evi_vm_rss_kb (mea_evidence m), prp_sigterm_sent = ei_sigterm_sent (mea_exit m),
       prp_exit = exit_fields (mea_exit m), prp_exit_ns = ei_exit_ns (mea_exit m),
       prp_logged = split_once TERMINATION_LINE (case daemon_log of Some l \<Rightarrow> l | None \<Rightarrow> []) \<noteq> None \<rparr>"

definition secondary_transport_main :: "probe_env \<Rightarrow> ((probe_error + probe_report) \<times> process_effect list) option" where
  "secondary_transport_main be =
     (case segment_workload_load (be_fs be) (be_parse be) of
        Inl e \<Rightarrow> Some (Inl (PbLoad e), [])
      | Inr workload \<Rightarrow>
          (case start_session be (sw_transport workload) (sw_channels workload) of
             None \<Rightarrow> None
           | Some (Inl e, es) \<Rightarrow> Some (Inl e, es)
           | Some (Inr (session, ready_ms), es) \<Rightarrow>
               map_option (\<lambda>(r, es').
                   (bind_res r (\<lambda>m.
                    bind_res (map_err PbWrite (be_write be)) (\<lambda>_. Inr (probe_outputs (be_log be) m))),
                    es @ es'))
                 (measure_secondary be session ready_ms)))"

section \<open>No daemon is left behind\<close>

text \<open>
  One process is started, it is signalled by its own pid only, and the last thing done to it is
  to reap it.
\<close>

definition reaped_once :: "process_effect list \<Rightarrow> bool" where
  "reaped_once es \<longleftrightarrow> es = [] \<or> (\<exists>p mid. es = EfSpawn p # mid @ [EfReap p] \<and> signals p mid)"

lemma reaped_drop: "child_life p c es \<Longrightarrow> reaped_once (EfSpawn p # es @ kill_and_wait c)"
  using child_life_drop [of p c es] unfolding reaped_once_def by metis

lemma signals_append: "signals p (es @ es') \<longleftrightarrow> signals p es \<and> signals p es'"
  by (auto simp: signals_def)

text \<open>A session just started: its child runs, under its pid, and was only started.\<close>

lemma setup_alive:
  assumes "setup_new te = Some (r, es)"
  shows "case r of Inl _ \<Rightarrow> reaped_once es
    | Inr su \<Rightarrow> (\<exists>p. alive p (dp_child (su_daemon su)) \<and> es = [EfSpawn p])"
proof -
  have none: "reaped_once []" by (simp add: reaped_once_def)
  show ?thesis
  proof (cases "setup_session te")
    case (Inr session)
    show ?thesis
    proof (cases "tv_spawn te")
      case (Inr p)
      let ?dp = "\<lparr> dp_child = Some \<lparr> ch_pid = p, ch_status = None \<rparr>, dp_spawned_at = tv_spawned_at te \<rparr>"
      have spawn: "process_spawn (tv_spawn te) (tv_spawned_at te) = Inr ?dp" "process_pid ?dp = p" "alive p (dp_child ?dp)"
        by (simp_all add: Inr process_spawn_def process_pid_def alive_def)
      obtain w dp es1 where wait: "wait_ready (tv_ready_start te) (tv_ready_polls te) ?dp = Some (w, dp, es1)"
        using assms \<open>setup_session te = Inr session\<close> spawn(1) by (auto simp: setup_new_def split: option.splits)
      note life = wait_ready_life [OF spawn(3) wait [unfolded wait_ready_def]]
      show ?thesis
        using assms \<open>setup_session te = Inr session\<close> spawn wait life reaped_drop [of p "dp_child dp" es1]
        by (cases w) (auto simp: setup_new_def process_drop_def)
    qed (use assms none \<open>setup_session te = Inr session\<close> in \<open>auto simp: setup_new_def process_spawn_def\<close>)
  qed (use assms none in \<open>auto simp: setup_new_def\<close>)
qed

lemma transport_main_reaps:
  assumes "transport_main te = Some (r, es)"
  shows "reaped_once es"
proof -
  obtain x es1 where su: "setup_new te = Some (x, es1)"
    using assms by (auto simp: transport_main_def split: option.splits)
  note started = setup_alive [OF su]
  show ?thesis
  proof (cases x)
    case (Inl e)
    with started su assms show ?thesis by (simp add: transport_main_def)
  next
    case (Inr started_run)
    with started obtain p where p: "alive p (dp_child (su_daemon started_run))" "es1 = [EfSpawn p]" by auto
    with Inr su assms obtain r' dp es2 where
      run: "capture_run te (su_session started_run) (su_daemon started_run) = Some (r', dp, es2)"
        "es = [EfSpawn p] @ es2 @ process_drop dp" by (auto simp: transport_main_def)
    from run(1) have "child_life p (dp_child dp) es2"
      using child_life_start [OF p(1)] terminate_life [OF p(1)]
      by (auto simp: capture_run_def split: option.splits sum.splits)
    from reaped_drop [OF this] show ?thesis by (simp add: run(2) process_drop_def)
  qed
qed

lemma start_session_alive:
  assumes "start_session be spec channels = Some (r, es)"
  shows "case r of Inl _ \<Rightarrow> reaped_once es
    | Inr (bs, _) \<Rightarrow> alive (bs_pid bs) (bs_child bs) \<and> es = [EfSpawn (bs_pid bs)]"
proof -
  have none: "reaped_once []" by (simp add: reaped_once_def)
  show ?thesis
  proof (cases "launch_daemon be spec")
    case (Inl e)
    with assms none show ?thesis by (auto simp: start_session_def)
  next
    case (Inr launched)
    obtain cfg control p where l: "launched = (cfg, control, p)" by (metis prod_cases3)
    let ?c = "\<lparr> ch_pid = p, ch_status = None \<rparr>"
    obtain w c es1 where wait: "secondary_wait_ready control (be_startup be) ?c = Some (w, c, es1)"
      using assms Inr l by (auto simp: start_session_def split: option.splits)
    have "alive p (Some ?c)" by (simp add: alive_def)
    with secondary_wait_ready_life [OF this wait] show ?thesis
      using assms Inr l wait reaped_drop [of p "Some c" es1]
      by (cases w) (auto simp: start_session_def)
  qed
qed

lemma measure_secondary_life:
  assumes "alive (bs_pid bs) (bs_child bs)" "measure_secondary be bs ready_ms = Some (r, es)"
  shows "reaped_once (EfSpawn (bs_pid bs) # es)"
proof -
  obtain c where c: "bs_child bs = Some c" using assms(1) by (simp add: alive_def)
  have alive: "alive (bs_pid bs) (Some c)" using assms(1) c by simp
  obtain joined records where rec: "receiver_loop (ic_decode (se_ipc (be_codec be))) (be_turns be) 0 [] = (joined, records)"
    by fastforce
  obtain m where m: "measure_probes be records bs = Some m"
    using assms(2) by (auto simp: measure_secondary_def rec split: option.splits)
  show ?thesis
  proof (cases m)
    case (Inl e)
    with assms(2) m have "es = [] @ kill_and_wait (bs_child bs)" by (simp add: measure_secondary_def rec)
    then show ?thesis using reaped_drop [OF child_life_start [OF assms(1)]] by simp
  next
    case (Inr sent)
    obtain frames sends end_ns where sent: "sent = (frames, sends, end_ns)" by (metis prod_cases3)
    obtain x c1 es1 where stop: "secondary_terminate (be_kill be) (be_exit_polls be) (be_exit_elapsed be) (bs_pid bs) c =
        Some (x, c1, es1)"
      using assms(2) m Inr sent c by (auto simp: measure_secondary_def rec split: option.splits)
    have "es = es1 @ kill_and_wait c1"
      using assms(2) m Inr sent c stop by (cases x) (auto simp: measure_secondary_def rec)
    then show ?thesis using reaped_drop [OF secondary_terminate_life [OF alive stop]] by simp
  qed
qed

lemma secondary_transport_reaps:
  assumes "secondary_transport_main be = Some (r, es)"
  shows "reaped_once es"
proof (cases "segment_workload_load (be_fs be) (be_parse be)")
  case (Inl e)
  with assms show ?thesis by (auto simp: secondary_transport_main_def reaped_once_def)
next
  case (Inr workload)
  obtain x es1 where start: "start_session be (sw_transport workload) (sw_channels workload) = Some (x, es1)"
    using assms Inr by (auto simp: secondary_transport_main_def split: option.splits)
  note started = start_session_alive [OF start]
  show ?thesis
  proof (cases x)
    case (Inl e)
    with started start assms Inr show ?thesis by (simp add: secondary_transport_main_def)
  next
    case (Inr y)
    obtain bs ms where y: "y = (bs, ms)" by fastforce
    have alive: "alive (bs_pid bs) (bs_child bs)" "es1 = [EfSpawn (bs_pid bs)]" using started Inr y by simp_all
    obtain r' es2 where "measure_secondary be bs ms = Some (r', es2)" "es = es1 @ es2"
      using assms \<open>segment_workload_load (be_fs be) (be_parse be) = Inr workload\<close> start Inr y
      by (auto simp: secondary_transport_main_def)
    with measure_secondary_life [OF alive(1)] alive(2) show ?thesis by fastforce
  qed
qed

text \<open>
  C13: No transport driver leaves a daemon behind or signals a stranger: however a run ends, with
  its report or with any error, it has started at most one process, every signal went to the pid
  of that process and before it was reaped, and reaping it, exactly once, was the last thing done.
\<close>

theorem drivers_reap_daemon:
  "(\<forall>r es. transport_main te = Some (r, es) \<longrightarrow> reaped_once es) \<and>
   (\<forall>r es. secondary_transport_main be = Some (r, es) \<longrightarrow> reaped_once es)"
  using transport_main_reaps secondary_transport_reaps by blast

text \<open>A daemon that exits with an error while the second driver waits for it.\<close>

definition demo_probe_workload :: segment_workload where
  "demo_probe_workload = demo_segments\<lparr>sw_transport := (sw_transport demo_segments)\<lparr>ps_tick_rate_hz := 1000\<rparr>\<rparr>"

definition demo_probe_env :: probe_env where
  "demo_probe_env =
     \<lparr> be_fs = demo_fs, be_toml = (\<lambda>_. Inr demo_control_cfg), be_parse = (\<lambda>_. Inr demo_probe_workload),
       be_codec = two_variant_codec, be_socket = (\<lambda>_. Inr ()), be_spawn = Inr 9,
       be_startup = [\<lparr> sp_peer = (\<lambda>_. HxRefused), sp_wait = Inr (Some (Some 1)), sp_elapsed = 5 \<rparr>],
       be_turns = [], be_first_looks = [], be_priming = [], be_start_ns = 0, be_probes_now = 0,
       be_probes = (\<lambda>_. \<lparr> bo_clocks = [], bo_now = 0, bo_at_ns = 0, bo_send = Inr () \<rparr>), be_last_clocks = [],
       be_end_ns = 0, be_peer = (\<lambda>_. HxRefused), be_show = (\<lambda>_. ''refused''), be_proc = demo_proc, be_kill = Inr True, be_exit_polls = [], be_exit_elapsed = 0,
       be_log = None, be_write = Inr () \<rparr>"

theorem drivers_reap_daemon_witness:
  "(\<exists>rep. transport_main demo_transport = Some (Inr rep, [EfSpawn 7, EfTerm 7, EfReap 7])) \<and>
   reaped_once [EfSpawn 7, EfTerm 7, EfReap 7] \<and>
   secondary_transport_main demo_probe_env = Some (Inl (PbProcess PeExitedEarly), [EfSpawn 9, EfReap 9]) \<and>
   reaped_once [EfSpawn 9, EfReap 9]"
proof -
  have cfg: "daemon_config_load demo_fs (\<lambda>_. Inr demo_control_cfg) TRANSPORT_CONFIG = Inr demo_control_cfg"
    by (simp add: daemon_config_load_def is_absolute_def read_to_string_def demo_fs_def in_range_def demo_control_valid
        TRANSPORT_CONFIG_def)
  have "segment_workload_load demo_fs (\<lambda>_. Inr demo_probe_workload) = Inr demo_probe_workload"
    by (simp add: segment_workload_load_def read_to_string_def demo_fs_def in_range_def demo_probe_workload_def
        demo_segments_def demo_segment_def check_width_def)
  moreover have "dc_control_bind demo_control_cfg = Some ''1.0.0.1:80''" "dc_tick_rate_hz demo_control_cfg = 1000"
    "ps_tick_rate_hz (sw_transport demo_probe_workload) = 1000"
    by (simp_all add: demo_control_cfg_def demo_cfg_def demo_probe_workload_def)
  ultimately have run: "secondary_transport_main demo_probe_env = Some (Inl (PbProcess PeExitedEarly), [EfSpawn 9, EfReap 9])"
    by (simp add: secondary_transport_main_def start_session_def launch_daemon_def demo_probe_env_def cfg producer_calls_def
        readyz_ok_def secondary_http_get_def child_try_wait_def kill_and_wait_def)
  obtain rep where "transport_main demo_transport = Some (Inr rep, [EfSpawn 7, EfTerm 7, EfReap 7])"
    using demo_transport_run by blast
  with run drivers_reap_daemon [of demo_transport demo_probe_env] show ?thesis by blast
qed

section \<open>What a run of probes accounts for\<close>

text \<open>The frames that reach the receiver thread: those of the turns before the stop flag is seen.\<close>

definition frames_got :: "((string + string) \<times> u64) list \<Rightarrow> nat" where
  "frames_got rs = length (takeWhile (\<lambda>(r, _). is_ok r) rs)"

fun frames_received :: "receiver_turn list \<Rightarrow> nat" where
  "frames_received [] = 0"
| "frames_received (turn # turns) =
     (if rt_stop turn then 0
      else (if rt_poll turn = Inr 0 then 0 else frames_got (rt_recvs turn)) + frames_received turns)"

lemma drain_account:
  "drain_frames dec rs u records = (Some u', records') \<Longrightarrow>
     \<exists>new. records' = records @ new \<and> of_nat (length new) + u' = u + of_nat (frames_got rs)"
proof (induction rs arbitrary: u records)
  case (Cons x rs)
  obtain r t where x: "x = (r, t)" by fastforce
  show ?case
  proof (cases r)
    case (Inl e)
    with Cons.prems x show ?thesis by (simp add: frames_got_def)
  next
    case (Inr bytes)
    show ?thesis
    proof (cases "decode_spikes dec bytes")
      case None
      with Cons.prems x Inr have "drain_frames dec rs (u + 1) records = (Some u', records')" by simp
      from Cons.IH [OF this] x Inr show ?thesis by (auto simp: frames_got_def algebra_simps)
    next
      case (Some b)
      obtain bid cs where b: "b = (bid, cs)" by fastforce
      with Cons.prems x Inr Some have "drain_frames dec rs u
          (records @ [\<lparr> rcv_at_ns = t, rcv_batch_id = bid, rcv_channels = cs \<rparr>]) = (Some u', records')" by simp
      from Cons.IH [OF this] x Inr show ?thesis by (auto simp: frames_got_def algebra_simps)
    qed
  qed
qed simp

lemma receiver_account:
  "receiver_loop dec turns u records = (Some (Inr u'), records') \<Longrightarrow>
     \<exists>new. records' = records @ new \<and> of_nat (length new) + u' = u + of_nat (frames_received turns)"
proof (induction turns arbitrary: u records)
  case (Cons turn turns)
  show ?case
  proof (cases "rt_stop turn \<or> rt_poll turn = Inr 0")
    case True
    with Cons show ?thesis by auto
  next
    case False
    obtain n where n: "rt_poll turn = Inr n" "n \<noteq> 0" using Cons.prems False by (cases "rt_poll turn") auto
    obtain bad records1 where drain: "drain_frames dec (rt_recvs turn) 0 records = (Some bad, records1)"
      using Cons.prems False n by (auto split: prod.splits option.splits)
    obtain new1 where new1: "records1 = records @ new1" "of_nat (length new1) + bad = of_nat (frames_got (rt_recvs turn))"
      using drain_account [OF drain] by auto
    have "receiver_loop dec turns (u + bad) records1 = (Some (Inr u'), records')"
      using Cons.prems False n drain by simp
    from Cons.IH [OF this] obtain new2 where new2: "records' = records1 @ new2"
      "of_nat (length new2) + u' = u + bad + of_nat (frames_received turns)" by blast
    have "of_nat (length (new1 @ new2)) + u' = of_nat (length new1) + (of_nat (length new2) + u')" by simp
    also have "\<dots> = of_nat (length new1) + (u + bad + of_nat (frames_received turns))" by (simp only: new2(2))
    also have "\<dots> = u + (of_nat (length new1) + bad) + of_nat (frames_received turns)" by (simp only: ac_simps)
    also have "\<dots> = u + of_nat (frames_received (turn # turns))"
      unfolding new1(2) using False n by (simp add: ac_simps)
    finally show ?thesis using new1(1) new2(1) by auto
  qed
qed simp

lemma batch_seen: "wait_for_batch records p deadline looks = Some True \<Longrightarrow> list_ex p records"
proof (induction looks)
  case (Cons l looks)
  then show ?case
    by (cases l) (auto simp: wait_for_batch_def any_batch_def list_ex_iff split: if_splits dest: in_set_takeD)
qed (simp add: wait_for_batch_def)

lemma primed_seen:
  "priming_loop co records obs bs expected frames = Some (Inr n) \<Longrightarrow>
     list_ex (\<lambda>r. rcv_channels r = expected) records \<and> (\<exists>k < length obs. n = frames + of_nat (Suc k))"
proof (induction obs arbitrary: frames)
  case (Cons ob obs)
  obtain primed where p: "prime_once co records ob bs frames expected = Some (Inr primed)"
    using Cons.prems by (auto simp: run_bind_Inr)
  show ?case
  proof (cases primed)
    case True
    with p have "wait_for_batch records (\<lambda>r. rcv_channels r = expected)
        (unat (ps_priming_interval_ms (bs_spec bs)) * 1000000) (pm_looks ob) = Some True"
      by (auto simp: prime_once_def run_bind_Inr Let_def)
    with Cons.prems p True batch_seen show ?thesis by (intro conjI exI [of _ 0]) auto
  next
    case False
    with Cons.prems p have "priming_loop co records obs bs expected (frames + 1) = Some (Inr n)"
      by (auto simp: Let_def split: if_splits)
    from Cons.IH [OF this] obtain k where "list_ex (\<lambda>r. rcv_channels r = expected) records" "k < length obs"
      "n = frames + 1 + of_nat (Suc k)" by blast
    then show ?thesis by (intro conjI exI [of _ "Suc k"]) simp_all
  qed
qed simp

lemma probe_loop_sends:
  "probe_loop co obs bs start is sends = Some (Inr sends') \<Longrightarrow>
     sends' = sends @ map (\<lambda>i. \<lparr> sen_probe = i, sen_channel = i mod bs_channels bs, sen_at_ns = bo_at_ns (obs i) \<rparr>) is \<and>
     list_all (\<lambda>i. i mod bs_channels bs < bs_channels bs) is"
proof (induction "is" arbitrary: sends)
  case (Cons i rest)
  from Cons.prems show ?case
    by (auto simp: run_bind_Inr Let_def session_stimulus_def one_hot_def bind_res_Inr split: option.splits if_splits
        dest!: Cons.IH)
qed simp

lemma measured_parts:
  assumes "measure_secondary be bs ready_ms = Some (Inr m, es)"
  shows "\<exists>sends end_ns. mea_window m = \<lparr> win_start_ns = be_start_ns be, win_end_ns = end_ns \<rparr> \<and> mea_sends m = sends \<and>
    receiver_loop (ic_decode (se_ipc (be_codec be))) (be_turns be) 0 [] = (Some (Inr (mea_undecodable m)), mea_records m) \<and>
    measure_probes be (mea_records m) bs = Some (Inr (mea_priming_frames m, sends, end_ns))"
proof -
  obtain joined records where rec: "receiver_loop (ic_decode (se_ipc (be_codec be))) (be_turns be) 0 [] = (joined, records)"
    by fastforce
  obtain frames sends end_ns where probes: "measure_probes be records bs = Some (Inr (frames, sends, end_ns))"
    using assms by (auto simp: measure_secondary_def rec split: option.splits sum.splits)
  obtain c exit left es1 where "bs_child bs = Some c"
    "secondary_terminate (be_kill be) (be_exit_polls be) (be_exit_elapsed be) (bs_pid bs) c = Some (Inr exit, left, es1)"
    using assms by (auto simp: measure_secondary_def rec probes split: option.splits sum.splits)
  with assms probes show ?thesis
    by (auto simp: measure_secondary_def rec bind_res_Inr)
qed

lemma session_of:
  "start_session be spec channels = Some (Inr (bs, ms), es) \<Longrightarrow> bs_spec bs = spec \<and> bs_channels bs = channels"
  by (auto simp: start_session_def split: sum.splits option.splits)


text \<open>One probe on the only channel, answered by one batch while the daemon is measured.\<close>

definition demo_spike_codec :: secondary_codec where
  "demo_spike_codec =
     \<lparr> se_ipc = \<lparr> ic_encode = it_encode demo_ipc_text, ic_decode = it_decode demo_ipc_text, ic_validate = (\<lambda>_. Inr ()) \<rparr>,
       se_validate = (\<lambda>_. Inr ()) \<rparr>"

definition demo_one_probe :: segment_workload where
  "demo_one_probe =
     demo_segments\<lparr>sw_transport := \<lparr> ps_tick_rate_hz = 1000, ps_probes = 1, ps_probe_interval_ms = 1, ps_probe_value = f_one,
       ps_priming_channel = 0, ps_priming_interval_ms = 1, ps_priming_timeout_ms = 9, ps_settle_ms = 0 \<rparr>\<rparr>"

definition demo_probe_run :: probe_env where
  "demo_probe_run =
     demo_probe_env\<lparr>be_parse := (\<lambda>_. Inr demo_one_probe), be_codec := demo_spike_codec,
       be_startup := [\<lparr> sp_peer = (\<lambda>_. HxAnswer ''HTTP/1.1 200 OK''), sp_wait = Inr None, sp_elapsed = 5 \<rparr>],
       be_turns := [\<lparr> rt_stop = False, rt_poll = Inr 1, rt_recvs = [(Inr ''spikes'', 10), (Inl ''EAGAIN'', 11)] \<rparr>,
                    \<lparr> rt_stop = True, rt_poll = Inr 0, rt_recvs = [] \<rparr>],
       be_first_looks := [(0, 4), (1, 5)],
       be_priming := [\<lparr> pm_now = 0, pm_send = Inr (), pm_looks = [(1, 1)], pm_elapsed = 1 \<rparr>],
       be_start_ns := 5,
       be_probes := (\<lambda>_. \<lparr> bo_clocks = [6000000], bo_now = 0, bo_at_ns = 7, bo_send = Inr () \<rparr>),
       be_last_clocks := [7000000], be_end_ns := 20,
       be_exit_polls := [(1, Inr (Some (Some 0)))]\<rparr>"

lemma demo_probe_session:
  "\<exists>bs. start_session demo_probe_run (sw_transport demo_one_probe) 1 = Some (Inr (bs, 0), [EfSpawn 9]) \<and>
     bs_spec bs = sw_transport demo_one_probe \<and> bs_channels bs = 1 \<and> bs_pid bs = 9 \<and>
     bs_child bs = Some \<lparr> ch_pid = 9, ch_status = None \<rparr>"
proof -
  have cfg: "daemon_config_load demo_fs (\<lambda>_. Inr demo_control_cfg) TRANSPORT_CONFIG = Inr demo_control_cfg"
    by (simp add: daemon_config_load_def is_absolute_def read_to_string_def demo_fs_def in_range_def demo_control_valid
        TRANSPORT_CONFIG_def)
  have ready: "readyz_ok (\<lambda>_. HxAnswer ''HTTP/1.1 200 OK'') ''1.0.0.1:80''"
    using demo_addr by (auto simp: readyz_ok_def secondary_http_get_def in_range_def)
  have "dc_control_bind demo_control_cfg = Some ''1.0.0.1:80''" "dc_tick_rate_hz demo_control_cfg = 1000"
    "ps_tick_rate_hz (sw_transport demo_one_probe) = 1000"
    by (simp_all add: demo_control_cfg_def demo_cfg_def demo_one_probe_def)
  with cfg ready show ?thesis
    by (simp add: start_session_def launch_daemon_def demo_probe_run_def demo_probe_env_def producer_calls_def)
qed


end
