(* ===== verification/Health_Json.thy ===== *)
theory Health_Json
  imports Measurement "HOL-Library.Monad_Syntax"
begin

text \<open>
  The JSON form of a health snapshot, as the \<open>Serialize\<close> and \<open>Deserialize\<close> derives of
  \<open>src/health/snapshot.rs\<close> give it: what \<open>GET /health\<close> serves and the experiment drivers store.
  Values only; the text of a value, and its parser, are \<open>serde_json\<close>'s and stay arguments.
\<close>

section \<open>Values\<close>

definition json_option :: "('a \<Rightarrow> json) \<Rightarrow> 'a option \<Rightarrow> json" where
  "json_option f x = (case x of None \<Rightarrow> JNull | Some v \<Rightarrow> f v)"

text \<open>\<open>Value\<close> has no number for a NaN or an infinity: it becomes \<open>null\<close>.\<close>

definition json_f64 :: "f64 \<Rightarrow> json" where
  "json_f64 x = (if is_finite x then JFloat x else JNull)"

fun json_field :: "json \<Rightarrow> string \<Rightarrow> json option" where
  "json_field (JObject kvs) k = map_of kvs k"
| "json_field _ k = None"

fun read_bool :: "json \<Rightarrow> bool option" where
  "read_bool (JBool b) = Some b"
| "read_bool _ = None"

fun read_u64 :: "json \<Rightarrow> u64 option" where
  "read_u64 (JUnsigned n) = Some n"
| "read_u64 _ = None"

text \<open>A field of type \<open>f64\<close> takes a number of any of the three forms.\<close>

fun read_f64 :: "json \<Rightarrow> f64 option" where
  "read_f64 (JFloat x) = Some x"
| "read_f64 (JUnsigned n) = Some (u64_as_f64 n)"
| "read_f64 (JNegative i) = Some (f64_lit (of_int i))"
| "read_f64 _ = None"

fun read_string :: "json \<Rightarrow> string option" where
  "read_string (JString s) = Some s"
| "read_string _ = None"

fun read_list :: "(json \<Rightarrow> 'a option) \<Rightarrow> json \<Rightarrow> 'a list option" where
  "read_list f (JArray vs) = those (map f vs)"
| "read_list f _ = None"

definition read_option :: "(json \<Rightarrow> 'a option) \<Rightarrow> json \<Rightarrow> 'a option option" where
  "read_option f v = (if v = JNull then Some None else map_option Some (f v))"

text \<open>A missing field is an error, except that an \<open>Option\<close> is then \<open>None\<close>.\<close>

definition required :: "json \<Rightarrow> string \<Rightarrow> (json \<Rightarrow> 'a option) \<Rightarrow> 'a option" where
  "required j k f = Option.bind (json_field j k) f"

definition optional :: "json \<Rightarrow> string \<Rightarrow> (json \<Rightarrow> 'a option) \<Rightarrow> 'a option option" where
  "optional j k f = (case json_field j k of None \<Rightarrow> Some None | Some v \<Rightarrow> read_option f v)"

section \<open>Serialize\<close>

text \<open>\<open>rename_all = "snake_case"\<close> spells every variant as \<open>as_str\<close> does.\<close>

definition phase_json :: "health_phase \<Rightarrow> json" where
  "phase_json p = JString (phase_as_str p)"

definition reason_json :: "reason_code \<Rightarrow> json" where
  "reason_json r = JString (reason_as_str r)"

definition fatal_code_json :: "fatal_code \<Rightarrow> json" where
  "fatal_code_json c = JString (fatal_as_str c)"

definition checkpoint_identity_json :: "checkpoint_identity \<Rightarrow> json" where
  "checkpoint_identity_json c =
     JObject [(''id'', JString (ci_id c)), (''digest'', json_option JString (ci_digest c))]"

definition fatal_state_json :: "fatal_state \<Rightarrow> json" where
  "fatal_state_json f = JObject [(''code'', fatal_code_json (fs_code f)), (''detail'', JString (fs_detail f))]"

definition input_freshness_json :: "input_freshness \<Rightarrow> json" where
  "input_freshness_json i =
     JObject [(''age_ms'', json_option JUnsigned (if_age_ms i)), (''stale'', JBool (if_stale i))]"

definition queue_pressure_json :: "queue_pressure \<Rightarrow> json" where
  "queue_pressure_json q =
     JObject [(''depth'', JUnsigned (qp_depth q)), (''capacity'', JUnsigned (qp_capacity q)),
       (''ratio'', json_option json_f64 (qp_ratio q)), (''overloaded'', JBool (qp_overloaded q))]"

definition counters_json :: "runtime_counters \<Rightarrow> json" where
  "counters_json c =
     JObject [(''ticks'', JUnsigned (rc_ticks c)), (''accepted_batches'', JUnsigned (rc_accepted_batches c)),
       (''rejected_batches'', JUnsigned (rc_rejected_batches c)),
       (''receive_errors'', JUnsigned (rc_receive_errors c)),
       (''emit_errors'', JUnsigned (rc_emit_errors c)), (''dropped_spikes'', JUnsigned (rc_dropped_spikes c)),
       (''diagnostic_emissions'', JUnsigned (rc_diagnostic_emissions c)),
       (''suppressed_diagnostics'', JUnsigned (rc_suppressed_diagnostics c))]"

definition snapshot_json :: "health_snapshot \<Rightarrow> json" where
  "snapshot_json s =
     JObject [(''live'', JBool (sn_live s)), (''ready'', JBool (sn_ready s)), (''phase'', phase_json (sn_phase s)),
       (''reasons'', JArray (map reason_json (sn_reasons s))),
       (''last_successful_tick_ms'', json_option JUnsigned (sn_last_successful_tick_ms s)),
       (''tick_age_ms'', json_option JUnsigned (sn_tick_age_ms s)),
       (''checkpoint'', json_option checkpoint_identity_json (sn_checkpoint s)),
       (''input_freshness'', input_freshness_json (sn_input_freshness s)),
       (''queue_pressure'', queue_pressure_json (sn_queue_pressure s)),
       (''fatal'', json_option fatal_state_json (sn_fatal s)), (''counters'', counters_json (sn_counters s)),
       (''observed_at_ms'', JUnsigned (sn_observed_at_ms s))]"

section \<open>Deserialize\<close>

text \<open>Of objects; unknown fields are skipped.\<close>

definition read_code :: "('a \<Rightarrow> string) \<Rightarrow> 'a list \<Rightarrow> json \<Rightarrow> 'a option" where
  "read_code name all v = Option.bind (read_string v) (\<lambda>s. find (\<lambda>x. name x = s) all)"

definition read_phase :: "json \<Rightarrow> health_phase option" where
  "read_phase = read_code phase_as_str phase_all"

definition read_reason :: "json \<Rightarrow> reason_code option" where
  "read_reason = read_code reason_as_str [RStarting, RCheckpointPending, RStaleInput, ROverload, RDraining, RFatal]"

definition read_fatal_code :: "json \<Rightarrow> fatal_code option" where
  "read_fatal_code = read_code fatal_as_str [InitializationFailed, CheckpointInvalid, Unspecified]"

definition read_checkpoint_identity :: "json \<Rightarrow> checkpoint_identity option" where
  "read_checkpoint_identity j = do {
     i \<leftarrow> required j ''id'' read_string;
     d \<leftarrow> optional j ''digest'' read_string;
     Some \<lparr> ci_id = i, ci_digest = d \<rparr> }"

definition read_fatal_state :: "json \<Rightarrow> fatal_state option" where
  "read_fatal_state j = do {
     c \<leftarrow> required j ''code'' read_fatal_code;
     d \<leftarrow> required j ''detail'' read_string;
     Some \<lparr> fs_code = c, fs_detail = d \<rparr> }"

definition read_input_freshness :: "json \<Rightarrow> input_freshness option" where
  "read_input_freshness j = do {
     a \<leftarrow> optional j ''age_ms'' read_u64;
     s \<leftarrow> required j ''stale'' read_bool;
     Some \<lparr> if_age_ms = a, if_stale = s \<rparr> }"

definition read_queue_pressure :: "json \<Rightarrow> queue_pressure option" where
  "read_queue_pressure j = do {
     d \<leftarrow> required j ''depth'' read_u64;
     c \<leftarrow> required j ''capacity'' read_u64;
     r \<leftarrow> optional j ''ratio'' read_f64;
     b \<leftarrow> required j ''overloaded'' read_bool;
     Some \<lparr> qp_depth = d, qp_capacity = c, qp_ratio = r, qp_overloaded = b \<rparr> }"

definition read_counters :: "json \<Rightarrow> runtime_counters option" where
  "read_counters j = do {
     ticks \<leftarrow> required j ''ticks'' read_u64;
     accepted \<leftarrow> required j ''accepted_batches'' read_u64;
     rejected \<leftarrow> required j ''rejected_batches'' read_u64;
     receive \<leftarrow> required j ''receive_errors'' read_u64;
     emit \<leftarrow> required j ''emit_errors'' read_u64;
     dropped \<leftarrow> required j ''dropped_spikes'' read_u64;
     emissions \<leftarrow> required j ''diagnostic_emissions'' read_u64;
     suppressed \<leftarrow> required j ''suppressed_diagnostics'' read_u64;
     Some \<lparr> rc_ticks = ticks, rc_accepted_batches = accepted, rc_rejected_batches = rejected,
            rc_receive_errors = receive, rc_emit_errors = emit, rc_dropped_spikes = dropped,
            rc_diagnostic_emissions = emissions, rc_suppressed_diagnostics = suppressed \<rparr> }"

text \<open>Snapshots older than the counters have none: \<open>#[serde(default)]\<close>.\<close>

definition read_snapshot :: "json \<Rightarrow> health_snapshot option" where
  "read_snapshot j = do {
     live \<leftarrow> required j ''live'' read_bool;
     ready \<leftarrow> required j ''ready'' read_bool;
     phase \<leftarrow> required j ''phase'' read_phase;
     reasons \<leftarrow> required j ''reasons'' (read_list read_reason);
     last_tick \<leftarrow> optional j ''last_successful_tick_ms'' read_u64;
     tick_age \<leftarrow> optional j ''tick_age_ms'' read_u64;
     checkpoint \<leftarrow> optional j ''checkpoint'' read_checkpoint_identity;
     freshness \<leftarrow> required j ''input_freshness'' read_input_freshness;
     pressure \<leftarrow> required j ''queue_pressure'' read_queue_pressure;
     fatal \<leftarrow> optional j ''fatal'' read_fatal_state;
     counters \<leftarrow> (case json_field j ''counters'' of None \<Rightarrow> Some counters_default | Some v \<Rightarrow> read_counters v);
     observed \<leftarrow> required j ''observed_at_ms'' read_u64;
     Some \<lparr> sn_live = live, sn_ready = ready, sn_phase = phase, sn_reasons = reasons,
            sn_last_successful_tick_ms = last_tick, sn_tick_age_ms = tick_age, sn_checkpoint = checkpoint,
            sn_input_freshness = freshness, sn_queue_pressure = pressure, sn_fatal = fatal,
            sn_counters = counters, sn_observed_at_ms = observed \<rparr> }"

section \<open>What is written is read back\<close>

lemma read_phase_json [simp]: "read_phase (phase_json p) = Some p"
  by (cases p) (simp_all add: read_phase_def read_code_def phase_json_def phase_all_def)

lemma read_reason_json [simp]: "read_reason (reason_json r) = Some r"
  by (cases r) (simp_all add: read_reason_def read_code_def reason_json_def)

lemma read_fatal_code_json [simp]: "read_fatal_code (fatal_code_json c) = Some c"
  by (cases c) (simp_all add: read_fatal_code_def read_code_def fatal_code_json_def)

lemma read_reasons_json [simp]: "those (map (read_reason \<circ> reason_json) rs) = Some rs"
  by (induction rs) simp_all

lemma read_option_json:
  assumes "option_all (\<lambda>v. read (w v) = Some v \<and> w v \<noteq> JNull) x"
  shows "read_option read (json_option w x) = Some x"
  using assms by (cases x) (simp_all add: read_option_def json_option_def)

lemma read_plain_option [simp]:
  "read_option read_u64 (json_option JUnsigned a) = Some a"
  "read_option read_string (json_option JString b) = Some b"
  by (rule read_option_json, cases a; simp) (rule read_option_json, cases b; simp)

lemma read_checkpoint_identity_json [simp]:
  "read_checkpoint_identity (checkpoint_identity_json c) = Some c"
  by (simp add: read_checkpoint_identity_def checkpoint_identity_json_def required_def optional_def)

lemma read_fatal_state_json [simp]: "read_fatal_state (fatal_state_json f) = Some f"
  by (simp add: read_fatal_state_def fatal_state_json_def required_def)

lemma read_input_freshness_json [simp]: "read_input_freshness (input_freshness_json i) = Some i"
  by (simp add: read_input_freshness_def input_freshness_json_def required_def optional_def)

lemma struct_not_null [simp]:
  "checkpoint_identity_json c \<noteq> JNull" "fatal_state_json f \<noteq> JNull"
  by (simp_all add: checkpoint_identity_json_def fatal_state_json_def)

lemma read_struct_option [simp]:
  "read_option read_checkpoint_identity (json_option checkpoint_identity_json c) = Some c"
  "read_option read_fatal_state (json_option fatal_state_json f) = Some f"
  by (rule read_option_json, cases c; simp) (rule read_option_json, cases f; simp)

lemma read_queue_pressure_json:
  assumes "option_all is_finite (qp_ratio q)"
  shows "read_queue_pressure (queue_pressure_json q) = Some q"
proof -
  have "read_option read_f64 (json_option json_f64 (qp_ratio q)) = Some (qp_ratio q)"
    using assms by (intro read_option_json) (cases "qp_ratio q"; simp add: json_f64_def)
  then show ?thesis
    by (simp add: read_queue_pressure_def queue_pressure_json_def required_def optional_def)
qed

lemma read_counters_json [simp]: "read_counters (counters_json c) = Some c"
  by (simp add: read_counters_def counters_json_def required_def)

lemma read_snapshot_json:
  assumes "option_all is_finite (qp_ratio (sn_queue_pressure s))"
  shows "read_snapshot (snapshot_json s) = Some s"
  using read_queue_pressure_json [OF assms]
  by (simp add: read_snapshot_def snapshot_json_def required_def optional_def)

text \<open>The fill ratio of a queue is finite: it divides by a nonzero capacity.\<close>

lemma u64_as_f64_le:
  assumes "u64_as_f64 w = Fin False r"
  shows "r \<le> 2 powi 64"
proof -
  let ?q = "of_nat (unat w) :: rat"
  have q: "?q \<le> 2 powi 64"
    using unat_less64 [of w] of_nat_less_iff [of "unat w" "2 ^ 64", where ?'a = rat] by simp
  have "ulp_exp 53 (- 1022) ?q \<le> 64"
  proof (cases "?q = 0")
    case False
    then have "0 < ?q" using of_nat_0_le_iff [of "unat w", where ?'a = rat] by linarith
    then have "rlog2 ?q \<le> 64" using q by (rule rlog2_le)
    then show ?thesis by (simp add: ulp_exp_def)
  qed (simp add: ulp_exp_def rlog2_def floorlog_def)
  with q have "round_mag 53 (- 1022) ?q \<le> 2 powi 64" by (rule round_mag_le_powi)
  moreover have "r = round_mag 53 (- 1022) ?q"
    using assms by (auto simp: u64_as_f64_def round_f64_def fl_round_def Let_def split: if_splits)
  ultimately show ?thesis by simp
qed

lemma f64_div_finite:
  assumes "c \<noteq> 0"
  shows "is_finite (f64_div (u64_as_f64 d) (u64_as_f64 c))"
proof -
  obtain a where a: "u64_as_f64 d = Fin False a" "0 \<le> a" by (rule u64_as_f64_cases [of d]) blast
  obtain r where r: "u64_as_f64 c = Fin False r" "1 \<le> r"
    using assms by (metis u64_as_f64_cases)
  have "a / r \<le> a" using a(2) r(2) by (simp add: divide_le_eq mult_le_cancel_left1)
  then have "round_mag 53 (- 1022) (a / r) \<le> round_mag 53 (- 1022) a" by (rule round_mag_mono) simp
  also have "\<dots> \<le> round_mag 53 (- 1022) (2 powi 64)" by (rule round_mag_mono [OF u64_as_f64_le [OF a(1)]]) simp
  also have "\<dots> \<le> 2 powi 64"
    using rlog2_le [of "2 powi 64" 64] by (intro round_mag_le_powi) (auto simp: ulp_exp_def)
  also have "\<dots> < 2 powi 1024" by (intro power_int_strict_increasing) auto
  finally show ?thesis
    using r(2) by (simp add: f64_div_def a(1) r(1) round_f64_def fl_round_def)
qed

lemma snapshot_ratio_finite: "option_all is_finite (qp_ratio (sn_queue_pressure (snapshot now m)))"
  by (simp add: snapshot_def queue_pressure_of_def queue_ratio_def f64_div_finite Let_def)

lemma read_handle_snapshot: "read_snapshot (snapshot_json (handle_snapshot now h)) = Some (handle_snapshot now h)"
  by (simp add: read_snapshot_json snapshot_ratio_finite handle_snapshot_def)

section \<open>From the endpoint to the client\<close>

text \<open>What is assumed of \<open>serde_json\<close> on a value: it is written, as UTF-8, and parsed back.\<close>

definition json_text_keeps :: "(json \<Rightarrow> string option) \<Rightarrow> (string \<Rightarrow> json option) \<Rightarrow> json \<Rightarrow> bool" where
  "json_text_keeps to_text parse j \<longleftrightarrow>
     (case to_text j of None \<Rightarrow> False | Some b \<Rightarrow> valid_utf8 b \<and> parse b = Some j)"

lemma health_request:
  "list_all visible ''/health''" "''/health'' \<noteq> []" "length (http_request ''/health'') \<le> REQUEST_BUF"
  "path_without_query ''/health'' = ''/health''"
  by (simp_all add: visible_def in_range_def http_request_def crlf_def REQUEST_BUF_def) code_simp



end
