(* ===== verification/Reports.thy ===== *)
theory Reports
  imports Usefulness Health_Json
begin

text \<open>
  What the first in-process experiment leaves behind, and its \<open>main\<close>
  (\<open>examples/usefulness_inprocess.rs\<close>): the record file, whose lines the code writes itself, and
  the summary, a JSON value. The text of a JSON value is \<open>serde_json\<close>'s and an argument, like the
  disk. The reports of a baseline and of a daemon run are compared at the end.
\<close>

section \<open>Values\<close>

text \<open>The outside of the writers: the printers of \<open>serde_json\<close>, the disk and the process.\<close>

record report_env =
  rv_pretty :: "json \<Rightarrow> string + string"
  rv_compact :: "json \<Rightarrow> string + string"
  rv_create_dir :: "path \<Rightarrow> string + unit"
  rv_create :: "path \<Rightarrow> string + unit"
  rv_write :: "path \<Rightarrow> string \<Rightarrow> string + unit"
  rv_pid :: u32
  rv_wall :: duration

definition json_nat :: "nat \<Rightarrow> json" where
  "json_nat n = JUnsigned (of_nat n)"

text \<open>An addition is the subtraction of the negated operand, signs of zeros included.\<close>

fun f_neg :: "ieee \<Rightarrow> ieee" where
  "f_neg (Fin s m) = Fin (\<not> s) m"
| "f_neg (Inf s) = Inf (\<not> s)"
| "f_neg NaN = NaN"

definition f64_add :: "f64 \<Rightarrow> f64 \<Rightarrow> f64" where
  "f64_add x y = f64_sub x (f_neg y)"

text \<open>\<open>Duration::as_secs_f64\<close>.\<close>

definition as_secs_f64 :: "duration \<Rightarrow> f64" where
  "as_secs_f64 d =
     f64_add (usize_as_f64 (d div 1000000000))
       (f64_div (usize_as_f64 (d mod 1000000000)) (usize_as_f64 1000000000))"

definition class_json :: "class_metrics \<Rightarrow> json" where
  "class_json m =
     JObject [(''accepted'', JUnsigned (cm_accepted m)), (''rejected'', JUnsigned (cm_rejected m)),
       (''dropped'', JUnsigned (cm_dropped m)), (''coalesced'', JUnsigned (cm_coalesced m)),
       (''shutdown_refused'', JUnsigned (cm_shutdown_refused m)),
       (''high_water_mark'', json_nat (cm_high_water_mark m))]"

definition ingress_json :: "ingress_metrics \<Rightarrow> json" where
  "ingress_json m =
     JObject [(''sensory'', class_json (im_class m Sensory)), (''reward'', class_json (im_class m Reward)),
       (''control'', class_json (im_class m Control)), (''telemetry'', class_json (im_class m Telemetry))]"

definition runtime_stats_json :: "runtime_stats \<Rightarrow> json" where
  "runtime_stats_json s =
     JObject [(''ticks'', JUnsigned (rs_ticks s)), (''accepted_batches'', JUnsigned (rs_accepted_batches s)),
       (''rejected_batches'', JUnsigned (rs_rejected_batches s)),
       (''receive_errors'', JUnsigned (rs_receive_errors s)), (''emit_errors'', JUnsigned (rs_emit_errors s)),
       (''dropped_spikes'', JUnsigned (rs_dropped_spikes s)),
       (''diagnostic_emissions'', JUnsigned (rs_diagnostic_emissions s)),
       (''suppressed_diagnostics'', JUnsigned (rs_suppressed_diagnostics s)),
       (''last_batch_id'', json_option JUnsigned (rs_last_batch_id s))]"

definition checkpoint_json :: "model_provenance \<Rightarrow> json" where
  "checkpoint_json p =
     JObject [(''schema_id'', JString (mp_schema_id p)), (''model_id'', JString (mp_model_id p)),
       (''content_sha256'', JString (mp_content_sha256 p)),
       (''source_path'', JString (path_display (mp_source_path p)))]"

definition timing_summary :: "tick_record list \<Rightarrow> usize \<Rightarrow> instant \<Rightarrow> instant \<Rightarrow> json" where
  "timing_summary records warmup first_measured_start last_end =
     (let measured = length records - warmup; wall = last_end - first_measured_start;
          ticks_per_s = (if wall = 0 then f_zero else f64_div (usize_as_f64 measured) (as_secs_f64 wall))
      in JObject [(''ticks_total'', json_nat (length records)), (''warmup_ticks_excluded'', json_nat warmup),
           (''measured_ticks'', json_nat measured), (''measured_wall_ns'', json_nat wall),
           (''ticks_per_s'', json_f64 ticks_per_s)])"

section \<open>The records of the first experiment\<close>

definition json_key :: "string \<Rightarrow> string" where
  "json_key k = dquote @ k @ dquote @ '':''"

text \<open>\<open>[String]::join\<close>.\<close>

fun str_join :: "string \<Rightarrow> string list \<Rightarrow> string" where
  "str_join sep [] = []"
| "str_join sep [x] = x"
| "str_join sep (x # y # xs) = x @ sep @ str_join sep (y # xs)"

definition record_line :: "nat \<Rightarrow> tick_record \<Rightarrow> string" where
  "record_line tick r =
     ''{'' @ json_key ''tick'' @ show_nat tick @ '','' @ json_key ''channels'' @
     ''['' @ str_join '','' (map (\<lambda>c. show_nat (unat c)) (tr_channels r)) @ ''],'' @
     json_key ''latency_ns'' @ show_nat (unat (tr_latency_ns r)) @
     (case tr_decode_ns r of
        None \<Rightarrow> []
      | Some d \<Rightarrow> '','' @ json_key ''decode_ns'' @ show_nat (unat d)) @
     ''}''"

definition records_text :: "tick_record list \<Rightarrow> string" where
  "records_text records = concat (map (\<lambda>(tick, r). record_line tick r @ [LF]) (enumerate 0 records))"

section \<open>The summary and \<open>main\<close> of the first experiment\<close>

text \<open>A \<open>Map\<close> of \<open>serde_json\<close> and \<open>map[key] = value\<close> on it.\<close>

type_synonym json_map = "(string \<times> json) list"

definition daemon_summary :: "runtime_stats \<Rightarrow> driver_run \<Rightarrow> json_map" where
  "daemon_summary stats run =
     [(''run_wall_ns'', JUnsigned (dr_run_wall_ns run)), (''runtime_stats'', runtime_stats_json stats),
      (''checkpoint'', json_option checkpoint_json (dr_provenance run)),
      (''stimulus_frames_sent'', JUnsigned (dr_stimulus_frames run)),
      (''modulator_frames_sent'', JUnsigned (dr_modulator_frames run)),
      (''health'', json_option snapshot_json (dr_health run)),
      (''ingress'', json_option ingress_json (dr_ingress run))]"

definition baseline_summary :: "driver_run \<Rightarrow> json_map" where
  "baseline_summary run =
     [(''run_wall_ns'', JUnsigned (dr_run_wall_ns run)),
      (''checkpoint'', json_option checkpoint_json (dr_provenance run)),
      (''stimulus_frames_sent'', JUnsigned (dr_stimulus_frames run)),
      (''modulator_frames_sent'', JUnsigned (dr_modulator_frames run))]"

text \<open>Only a run through the daemon has statistics.\<close>

definition run_summary :: "driver_run \<Rightarrow> json_map" where
  "run_summary run =
     (case dr_stats run of Some stats \<Rightarrow> daemon_summary stats run | None \<Rightarrow> baseline_summary run)"

record driver_args =
  ar_mode :: mode
  ar_config :: path
  ar_workload :: path
  ar_records :: path
  ar_summary :: path

definition summary_value ::
  "'r driver_env \<Rightarrow> report_env \<Rightarrow> driver_args \<Rightarrow> driver_run \<Rightarrow> string option \<Rightarrow> usize \<Rightarrow> json" where
  "summary_value dv rv args run fixture_sha256 warmup =
     JObject (fold (\<lambda>(k, v) m. AList.update k v m)
       [(''mode'', JString (mode_as_str (ar_mode args))),
        (''config'', JString (path_display (ar_config args))),
        (''workload'', JString (path_display (ar_workload args))),
        (''fixture_sha256'', json_option JString fixture_sha256),
        (''timing'', timing_summary (dr_records run) warmup (dr_first_measured_start run) (dr_last_end run)),
        (''peak_rss_kb'', json_option JUnsigned (vm_status_kb (dv_fs dv) None ''VmHWM:'')),
        (''rss_kb'', json_option JUnsigned (vm_status_kb (dv_fs dv) None ''VmRSS:'')),
        (''pid'', json_nat (unat (rv_pid rv)))]
       (run_summary run))"

text \<open>
  A file that could be written, with its text, or the error; what a failed write leaves of a
  file is not part of the model.
\<close>

definition write_records :: "report_env \<Rightarrow> path \<Rightarrow> tick_record list \<Rightarrow> driver_error + path \<times> string" where
  "write_records rv path records =
     bind_res (map_err DvWrite (rv_create rv path)) (\<lambda>_.
     let out = records_text records
     in bind_res (map_err DvWrite (rv_write rv path out)) (\<lambda>_. Inr (path, out)))"

definition write_json :: "report_env \<Rightarrow> path \<Rightarrow> json \<Rightarrow> driver_error + path \<times> string" where
  "write_json rv path value =
     bind_res (map_err DvJson (rv_pretty rv value)) (\<lambda>txt.
     bind_res (map_err DvWrite (rv_write rv path (txt @ nl))) (\<lambda>_. Inr (path, txt @ nl)))"

definition write_summary ::
  "'r driver_env \<Rightarrow> report_env \<Rightarrow> driver_args \<Rightarrow> driver_run \<Rightarrow> string option \<Rightarrow> usize
     \<Rightarrow> driver_error + path \<times> string" where
  "write_summary dv rv args run fixture_sha256 warmup =
     write_json rv (ar_summary args) (summary_value dv rv args run fixture_sha256 warmup)"

text \<open>\<open>main\<close> up to the run, and then its two files: the line it prints, and what is on the disk.\<close>

definition driver_run_of ::
  "'r driver_env \<Rightarrow> (string \<Rightarrow> string + daemon_config) \<Rightarrow> (string \<Rightarrow> string + workload) \<Rightarrow> driver_args
     \<Rightarrow> driver_error + workload \<times> string option \<times> driver_run" where
  "driver_run_of dv toml parse args =
     bind_res (map_err DvConfig (daemon_config_load (dv_fs dv) toml (ar_config args))) (\<lambda>cfg.
     bind_res (workload_load (dv_fs dv) parse (ar_workload args)) (\<lambda>workload.
     bind_res (check_channels (dc_channels cfg) workload) (\<lambda>_.
     if dc_runtime_mode cfg \<noteq> mode_runtime_mode (ar_mode args)
     then Inl (DvMode (ar_mode args) (dc_runtime_mode cfg))
     else bind_res (fixture_digest dv cfg workload) (\<lambda>fixture_sha256.
       bind_res (case ar_mode args of
                   Baseline \<Rightarrow> run_baseline dv cfg workload
                 | _ \<Rightarrow> run_daemon dv cfg workload) (\<lambda>run.
         Inr (workload, fixture_sha256, run))))))"

definition driver_main ::
  "'r driver_env \<Rightarrow> report_env \<Rightarrow> (string \<Rightarrow> string + daemon_config) \<Rightarrow> (string \<Rightarrow> string + workload)
     \<Rightarrow> driver_args \<Rightarrow> (driver_error + string) \<times> (path \<times> string) list" where
  "driver_main dv rv toml parse args =
     (case driver_run_of dv toml parse args of
        Inl e \<Rightarrow> (Inl e, [])
      | Inr (workload, fixture_sha256, run) \<Rightarrow>
          (case write_records rv (ar_records args) (dr_records run) of
             Inl e \<Rightarrow> (Inl e, [])
           | Inr records \<Rightarrow>
               (let ticks = length (dr_records run);
                    nonempty = length (filter (\<lambda>r. tr_channels r \<noteq> []) (dr_records run))
                in case write_summary dv rv args run fixture_sha256 (unat (wl_warmup_ticks workload)) of
                     Inl e \<Rightarrow> (Inl e, [records])
                   | Inr summary \<Rightarrow>
                       (Inr (mode_as_str (ar_mode args) @ '': '' @ show_nat ticks @ '' ticks, '' @
                             show_nat nonempty @ '' nonempty; summary '' @ path_display (ar_summary args)),
                        [records, summary]))))"

section \<open>The record file is read back\<close>

text \<open>A reader of the lines: digits up to the next character, literal texts between them.\<close>

definition read_digits :: "string \<Rightarrow> (nat \<times> string) option" where
  "read_digits s =
     (let ds = takeWhile is_ascii_digit s
      in if ds = [] then None else Some (read_nat ds, dropWhile is_ascii_digit s))"

definition read_channels :: "string \<Rightarrow> u16 list" where
  "read_channels s = (if s = [] then [] else map (\<lambda>n. of_nat (read_nat n)) (split_on (CHR '','') s))"

definition read_decode_ns :: "string \<Rightarrow> u64 option option" where
  "read_decode_ns s =
     (if s = ''}'' then Some None
      else do {
        s \<leftarrow> strip_prefix ('','' @ json_key ''decode_ns'') s;
        (d, s) \<leftarrow> read_digits s;
        if s = ''}'' then Some (Some (of_nat d)) else None })"

definition read_record :: "string \<Rightarrow> (nat \<times> tick_record) option" where
  "read_record l = do {
     s \<leftarrow> strip_prefix (''{'' @ json_key ''tick'') l;
     (tick, s) \<leftarrow> read_digits s;
     s \<leftarrow> strip_prefix ('','' @ json_key ''channels'' @ ''['') s;
     let channels = read_channels (takeWhile (\<lambda>c. c \<noteq> CHR '']'') s);
     s \<leftarrow> strip_prefix (''],'' @ json_key ''latency_ns'') (dropWhile (\<lambda>c. c \<noteq> CHR '']'') s);
     (latency, s) \<leftarrow> read_digits s;
     decode \<leftarrow> read_decode_ns s;
     Some (tick, \<lparr> tr_channels = channels, tr_latency_ns = of_nat latency, tr_decode_ns = decode \<rparr>) }"

lemma read_digits_show [simp]:
  assumes "s = [] \<or> \<not> is_ascii_digit (hd s)"
  shows "read_digits (show_nat n @ s) = Some (n, s)"
proof -
  have "\<forall>c \<in> set (show_nat n). is_ascii_digit c" using show_nat_digits by (simp add: list_all_iff)
  moreover have "takeWhile is_ascii_digit s = []" "dropWhile is_ascii_digit s = s" using assms by (cases s; simp)+
  ultimately have "takeWhile is_ascii_digit (show_nat n @ s) = show_nat n"
    "dropWhile is_ascii_digit (show_nat n @ s) = s"
    by simp_all
  then show ?thesis by (simp add: read_digits_def)
qed

lemma read_channels_join: "read_channels (str_join '','' (map (\<lambda>c. show_nat (unat c)) cs)) = cs"
proof -
  have comma_free: "CHR '','' \<notin> set (show_nat n)" for n
    using show_nat_digits [of n] by (auto simp: list_all_iff is_ascii_digit_def less_eq_char_def)
  have one: "split_on x s = [s]" if "x \<notin> set s" for x :: char and s using that by (induction s) auto
  have "str_join '','' (map (\<lambda>c. show_nat (unat c)) (c # cs)) \<noteq> [] \<and>
      split_on (CHR '','') (str_join '','' (map (\<lambda>c. show_nat (unat c)) (c # cs))) = map (\<lambda>c. show_nat (unat c)) (c # cs)"
    for c :: u16 and cs
  proof (induction cs arbitrary: c)
    case (Cons d cs)
    with split_on_line [OF comma_free] show ?case by simp
  qed (simp add: one comma_free)
  from this [of "hd cs" "tl cs"] show ?thesis
    by (cases "cs = []") (simp_all add: read_channels_def comp_def del: list.map(2))
qed

lemma join_no_bracket: "CHR '']'' \<notin> set (str_join '','' (map (\<lambda>c. show_nat (unat c)) cs))"
proof -
  have "CHR '']'' \<notin> set (show_nat n)" for n
    using show_nat_digits [of n] by (auto simp: list_all_iff is_ascii_digit_def less_eq_char_def)
  then show ?thesis by (induction cs rule: induct_list012) simp_all
qed

lemma read_decode_line:
  "read_decode_ns ((case d of None \<Rightarrow> [] | Some d \<Rightarrow> '','' @ json_key ''decode_ns'' @ show_nat (unat d)) @ ''}'') = Some d"
proof (cases d)
  case (Some n)
  have "strip_prefix ('','' @ json_key ''decode_ns'') (('','' @ json_key ''decode_ns'') @ show_nat (unat n) @ ''}'') =
      Some (show_nat (unat n) @ ''}'')" by (rule strip_prefix_append)
  then show ?thesis by (simp add: Some read_decode_ns_def is_ascii_digit_def less_eq_char_def)
qed (simp add: read_decode_ns_def)

lemma upto_char:
  assumes "c \<notin> set a"
  shows "takeWhile (\<lambda>x. x \<noteq> c) (a @ c # s) = a" and "dropWhile (\<lambda>x. x \<noteq> c) (a @ c # s) = c # s"
  using assms by (induction a) auto

lemma read_record_line: "read_record (record_line tick r) = Some (tick, r)"
proof -
  let ?t = "(case tr_decode_ns r of None \<Rightarrow> [] | Some d \<Rightarrow> '','' @ json_key ''decode_ns'' @ show_nat (unat d)) @ ''}''"
  have "read_digits (show_nat n @ ?t) = Some (n, ?t)" for n
    by (rule read_digits_show) (simp add: is_ascii_digit_def less_eq_char_def split: option.split)
  then show ?thesis
    using upto_char [OF join_no_bracket [of "tr_channels r"]] read_decode_line [of "tr_decode_ns r"]
    by (simp add: read_record_def record_line_def json_key_def dquote_def is_ascii_digit_def less_eq_char_def
        read_channels_join)
qed

lemma record_line_one_line: "LF \<notin> set (record_line tick r) \<and> CR \<notin> set (record_line tick r)"
proof -
  have digits: "c \<noteq> LF \<and> c \<noteq> CR" if "c \<in> set (show_nat n)" for c n
    using visible_no_end [OF show_visible, of n] that by auto
  have "c \<noteq> LF \<and> c \<noteq> CR" if "c \<in> set (str_join '','' (map (\<lambda>c. show_nat (unat c)) cs))" for c and cs :: "u16 list"
    using that digits by (induction cs rule: induct_list012) (auto simp: LF_def CR_def)
  with digits show ?thesis
    by (auto simp: record_line_def json_key_def dquote_def LF_def CR_def split: option.splits)
qed

lemma read_records: "map read_record (str_lines (records_text records)) = map Some (enumerate 0 records)"
proof -
  let ?ls = "map (\<lambda>(tick, r). record_line tick r) (enumerate 0 records)"
  have "records_text records = concat (map (\<lambda>l. l @ [LF]) ?ls)"
    by (simp add: records_text_def comp_def case_prod_unfold)
  moreover have "list_all (\<lambda>l. LF \<notin> set l \<and> CR \<notin> set l) ?ls"
    using record_line_one_line by (auto simp: list_all_iff)
  ultimately have "str_lines (records_text records) = ?ls" by (simp only: str_lines_texts)
  then show ?thesis by (simp add: comp_def case_prod_unfold read_record_line)
qed

text \<open>
  C12: The record file of the first experiment is unambiguous: it has one line per tick, in order,
  and a reader of its lines gets back every record written, with its tick number, channels,
  latency and decode time.
\<close>

theorem records_roundtrip: "map read_record (str_lines (records_text records)) = map Some (enumerate 0 records)"
  by (rule read_records)

section \<open>The frames a workload sends\<close>

text \<open>A workload whose events have ticks of their own, within the cycle.\<close>

definition workload_spread :: "workload \<Rightarrow> bool" where
  "workload_spread w \<longleftrightarrow>
     distinct (map ev_offset (wl_cycle_events w)) \<and>
     list_all (\<lambda>e. ev_offset e < wl_ticks_per_cycle w) (wl_cycle_events w) \<and>
     unat (wl_ticks_per_cycle w) * unat (wl_cycles w) < 2 ^ 64"

definition placed :: "workload \<Rightarrow> nat \<Rightarrow> (u64 \<times> workload_event) list" where
  "placed w n =
     concat (map (\<lambda>c. map (\<lambda>e. (of_nat c * wl_ticks_per_cycle w + ev_offset e, e)) (wl_cycle_events w)) [0..<n])"

lemma placed_0 [simp]: "placed w 0 = []"
  by (simp add: placed_def)

lemma placed_Suc:
  "placed w (Suc n) =
     placed w n @ map (\<lambda>e. (of_nat n * wl_ticks_per_cycle w + ev_offset e, e)) (wl_cycle_events w)"
  by (simp add: placed_def)

lemma expand_placed: "workload_expand w = fold (\<lambda>(k, e) m. m(k \<mapsto> e)) (placed w (unat (wl_cycles w))) Map.empty"
proof -
  have "fold (\<lambda>c events. fold (\<lambda>e events. events(of_nat c * wl_ticks_per_cycle w + ev_offset e \<mapsto> e))
      (wl_cycle_events w) events) [0..<n] m = fold (\<lambda>(k, e) m. m(k \<mapsto> e)) (placed w n) m" for n m
    by (induction n) (simp_all add: placed_Suc fold_map comp_def del: fun_upd_apply)
  then show ?thesis by (simp only: workload_expand_def)
qed

lemma fold_update_distinct:
  "distinct (map fst ps) \<Longrightarrow> fold (\<lambda>(k, e) m. m(k \<mapsto> e)) ps m = m ++ map_of ps"
proof (induction ps arbitrary: m)
  case (Cons p ps)
  obtain k e where p: "p = (k, e)" by fastforce
  have "map_of ps k = None" using Cons.prems by (auto simp: p map_of_eq_None_iff)
  then have "m(k \<mapsto> e) ++ map_of ps = m ++ map_of ((k, e) # ps)" by (auto simp: map_add_def fun_eq_iff split: option.split)
  with Cons show ?case by (simp add: p del: fun_upd_apply)
qed simp

lemma placed_key:
  assumes "workload_spread w" "c < unat (wl_cycles w)" "e \<in> set (wl_cycle_events w)"
  shows "unat (of_nat c * wl_ticks_per_cycle w + ev_offset e) = c * unat (wl_ticks_per_cycle w) + unat (ev_offset e)"
proof -
  let ?T = "unat (wl_ticks_per_cycle w)" and ?o = "unat (ev_offset e)"
  have o: "?o < ?T" and bound: "?T * unat (wl_cycles w) < 2 ^ 64"
    using assms(1,3) by (auto simp: workload_spread_def list_all_iff word_less_nat_alt)
  have "c * ?T + ?o < Suc c * ?T" using o by simp
  also have "\<dots> \<le> unat (wl_cycles w) * ?T" using assms(2) by (intro mult_le_mono1) simp
  also have "\<dots> < 2 ^ 64" using bound by (simp add: mult.commute)
  finally have "(c * ?T + ?o) mod 2 ^ 64 = c * ?T + ?o" by (rule mod_less)
  then have "unat (of_nat (c * ?T + ?o) :: u64) = c * ?T + ?o" by (simp add: unat_of_nat del: of_nat_add of_nat_mult)
  then show ?thesis by simp
qed

lemma placed_keys:
  assumes "workload_spread w" "n \<le> unat (wl_cycles w)"
  shows "distinct (map fst (placed w n)) \<and> (\<forall>k \<in> fst ` set (placed w n). unat k < n * unat (wl_ticks_per_cycle w))"
  using assms(2)
proof (induction n)
  case (Suc n)
  let ?T = "unat (wl_ticks_per_cycle w)"
  let ?k = "\<lambda>e. of_nat n * wl_ticks_per_cycle w + ev_offset e"
  have key: "unat (?k e) = n * ?T + unat (ev_offset e)" "unat (ev_offset e) < ?T" if "e \<in> set (wl_cycle_events w)" for e
    using placed_key [OF assms(1) _ that] Suc.prems assms(1) that
    by (auto simp: workload_spread_def list_all_iff word_less_nat_alt)
  have "distinct (map ?k (wl_cycle_events w))"
    using assms(1) by (simp add: workload_spread_def distinct_map inj_on_def)
  moreover have "?k e \<notin> fst ` set (placed w n)" if "e \<in> set (wl_cycle_events w)" for e
    using Suc key(1) [OF that] by fastforce
  ultimately show ?case
    using Suc key by (fastforce simp: placed_Suc comp_def image_iff)
qed simp

lemma count_placed:
  assumes "distinct (map fst ps)" "\<forall>k \<in> fst ` set ps. unat k < n" "n \<le> 2 ^ 64"
  shows "length (filter (\<lambda>i. event_sends P (map_of ps (of_nat i :: u64))) [0..<n]) = length (filter (P \<circ> snd) ps)"
proof -
  let ?xs = "filter (\<lambda>i. event_sends P (map_of ps (of_nat i :: u64))) [0..<n]"
  let ?ys = "map (unat \<circ> fst) (filter (P \<circ> snd) ps)"
  have "distinct ?ys"
  proof -
    have "inj_on fst (set ps)" "distinct ps" using assms(1) by (simp_all add: distinct_map)
    then show ?thesis by (auto simp: distinct_map comp_inj_on_iff [symmetric] inj_on_def word_unat_eq_iff [symmetric])
  qed
  moreover have "set ?xs = set ?ys"
  proof -
    have "\<exists>p \<in> set ps. P (snd p) \<and> i = unat (fst p)" if i: "i < n" "event_sends P (map_of ps (of_nat i))" for i
    proof -
      obtain e where "map_of ps (of_nat i) = Some e" "P e" using i(2) by (auto simp: event_sends_def split: option.splits)
      moreover have "unat (of_nat i :: u64) = i" using i(1) assms(3) by (simp add: unat_of_nat)
      ultimately show ?thesis by (metis fst_conv snd_conv map_of_SomeD)
    qed
    moreover have "event_sends P (map_of ps (of_nat (unat k)))" if "(k, e) \<in> set ps" "P e" for k e
      using map_of_is_SomeI [OF assms(1) that(1)] that(2) by (simp add: event_sends_def)
    ultimately show ?thesis using assms(2) by (auto simp: image_iff)
  qed
  ultimately have "length ?xs = length ?ys" by (metis distinct_card distinct_filter distinct_upt)
  then show ?thesis by simp
qed

lemma spread_ticks:
  assumes "workload_spread w" "wl_ticks w = wl_ticks_per_cycle w * wl_cycles w"
  shows "unat (wl_ticks w) = unat (wl_cycles w) * unat (wl_ticks_per_cycle w)"
  using assms by (simp add: workload_spread_def unat_word_ariths mult.commute)

lemma events_before_all:
  assumes w: "workload_spread w" and t: "wl_ticks w = wl_ticks_per_cycle w * wl_cycles w"
  shows "events_before P w (unat (wl_ticks w)) = unat (wl_cycles w) * length (filter P (wl_cycle_events w))"
proof -
  let ?ps = "placed w (unat (wl_cycles w))"
  note keys = placed_keys [OF w order_refl]
  have "workload_expand w = map_of ?ps" using keys by (simp add: expand_placed fold_update_distinct)
  moreover have "unat (wl_ticks w) \<le> 2 ^ 64" using unat_less64 [of "wl_ticks w"] by simp
  ultimately have "events_before P w (unat (wl_ticks w)) = length (filter (P \<circ> snd) ?ps)"
    using count_placed [of ?ps "unat (wl_ticks w)" P] keys spread_ticks [OF w t] by (simp add: events_before_def)
  also have "length (filter (P \<circ> snd) (placed w n)) = n * length (filter P (wl_cycle_events w))" for n
    by (induction n) (simp_all add: placed_Suc filter_map comp_def)
  finally show ?thesis .
qed

lemma frame_counts_exact:
  assumes "workload_spread w" "wl_ticks w = wl_ticks_per_cycle w * wl_cycles w"
  shows "frame_counts w =
    (of_nat (events_before sends_stimuli w (unat (wl_ticks w))), of_nat (events_before sends_modulators w (unat (wl_ticks w))))"
  using events_before_all [OF assms]
  by (simp add: frame_counts_def sends_stimuli_def [abs_def] sends_modulators_def [abs_def] mult.commute)

section \<open>Both reports of an experiment\<close>

text \<open>A file can be written, and a value printed.\<close>

definition writers_ok :: "report_env \<Rightarrow> (json \<Rightarrow> string) \<Rightarrow> bool" where
  "writers_ok rv pretty \<longleftrightarrow> (\<forall>p. rv_create rv p = Inr ()) \<and> (\<forall>p t. rv_write rv p t = Inr ()) \<and> (\<forall>j. rv_pretty rv j = Inr (pretty j))"

fun json_at :: "json \<Rightarrow> string list \<Rightarrow> json option" where
  "json_at j [] = Some j"
| "json_at j (k # ks) = Option.bind (json_field j k) (\<lambda>v. json_at v ks)"

lemma driver_main_files:
  assumes "driver_run_of dv toml parse a = Inr (w, fx, run)" "writers_ok rv pretty"
  shows "\<exists>line. driver_main dv rv toml parse a =
     (Inr line, [(ar_records a, records_text (dr_records run)),
       (ar_summary a, pretty (summary_value dv rv a run fx (unat (wl_warmup_ticks w))) @ nl)])"
  using assms
  by (simp add: driver_main_def write_records_def write_summary_def write_json_def writers_ok_def bind_unit Let_def)

text \<open>The run's own fields stay what they are under the fields added to them.\<close>

lemma summary_fields:
  assumes "k \<notin> {''mode'', ''config'', ''workload'', ''fixture_sha256'', ''timing'', ''peak_rss_kb'', ''rss_kb'', ''pid''}"
  shows "json_field (summary_value dv rv a run fx warmup) k = map_of (run_summary run) k"
  using assms by (simp add: summary_value_def update_conv')

lemma summary_added:
  "json_field (summary_value dv rv a run fx warmup) ''fixture_sha256'' = Some (json_option JString fx)"
  "json_field (summary_value dv rv a run fx warmup) ''timing'' =
     Some (timing_summary (dr_records run) warmup (dr_first_measured_start run) (dr_last_end run))"
  by (simp_all add: summary_value_def update_conv')

definition line_channels :: "string \<Rightarrow> (nat \<times> u16 list) option" where
  "line_channels l = map_option (\<lambda>(tick, r). (tick, tr_channels r)) (read_record l)"

lemma lines_channels:
  "map line_channels (str_lines (records_text records)) = map Some (enumerate 0 (map tr_channels records))"
proof -
  have "enumerate n (map tr_channels rs) = map (\<lambda>(tick, r). (tick, tr_channels r)) (enumerate n rs)" for n and rs :: "tick_record list"
    by (induction rs arbitrary: n) simp_all
  moreover have "map line_channels (str_lines (records_text records)) =
      map (map_option (\<lambda>(tick, r). (tick, tr_channels r))) (map read_record (str_lines (records_text records)))"
    by (simp add: line_channels_def)
  ultimately show ?thesis unfolding read_records by (simp add: comp_def case_prod_unfold)
qed

text \<open>The fields both kinds of summary have, and those of a run with statistics.\<close>

lemma summary_common:
  shows "json_field (summary_value dv rv a run fx warmup) ''checkpoint'' = Some (json_option checkpoint_json (dr_provenance run))"
    and "json_field (summary_value dv rv a run fx warmup) ''stimulus_frames_sent'' = Some (JUnsigned (dr_stimulus_frames run))"
    and "json_field (summary_value dv rv a run fx warmup) ''modulator_frames_sent'' = Some (JUnsigned (dr_modulator_frames run))"
    and "json_at (summary_value dv rv a run fx warmup) [''timing'', ''ticks_total''] = Some (json_nat (length (dr_records run)))"
  by (simp_all add: summary_fields summary_added run_summary_def daemon_summary_def baseline_summary_def
      timing_summary_def Let_def split: option.split)

lemma summary_stats:
  assumes "dr_stats run = Some stats"
  shows "json_at (summary_value dv rv a run fx warmup) [''runtime_stats'', k] = json_field (runtime_stats_json stats) k"
  using assms by (simp add: summary_fields run_summary_def daemon_summary_def)

lemma clean_stats_json:
  assumes "clean_stats n stats"
  shows "json_field (runtime_stats_json stats) ''ticks'' = Some (json_nat n)"
    and "k \<in> {''rejected_batches'', ''receive_errors'', ''emit_errors'', ''dropped_spikes''} \<Longrightarrow>
      json_field (runtime_stats_json stats) k = Some (JUnsigned 0)"
  using assms by (auto simp: runtime_stats_json_def clean_stats_def json_nat_def)

lemma baseline_frames:
  assumes "run_baseline dv cfg w = Inr rb"
  shows "dr_stats rb = None" "(dr_stimulus_frames rb, dr_modulator_frames rb) = frame_counts w"
  using assms by (auto simp: run_baseline_def bind_res_Inr case_prod_beta Let_def)

lemma load_ticks: "workload_load fs parse p = Inr w \<Longrightarrow> wl_ticks w = wl_ticks_per_cycle w * wl_cycles w"
  by (auto simp: workload_load_def bind_res_Inr split: if_splits)


section \<open>A concrete pair of reports\<close>

definition demo_report_env :: report_env where
  "demo_report_env =
     \<lparr> rv_pretty = (\<lambda>_. Inr ''{}''), rv_compact = (\<lambda>_. Inr ''{}''), rv_create_dir = (\<lambda>_. Inr ()),
       rv_create = (\<lambda>_. Inr ()), rv_write = (\<lambda>_ _. Inr ()), rv_pid = 7, rv_wall = 0 \<rparr>"

definition demo_args :: driver_args where
  "demo_args =
     \<lparr> ar_mode = Baseline, ar_config = [Normal ''c.toml''], ar_workload = [Normal ''w.json''],
       ar_records = [Normal ''r''], ar_summary = [Normal ''s''] \<rparr>"

lemma demo_loads:
  "daemon_config_load demo_fs (\<lambda>_. Inr demo_cfg) [Normal ''c.toml''] = Inr demo_cfg"
  "workload_load demo_fs (\<lambda>_. Inr demo_workload) [Normal ''w.json''] = Inr demo_workload"
  using demo_cfg_valid
  by (simp_all add: daemon_config_load_def is_absolute_def workload_load_def read_to_string_def demo_fs_def
      in_range_def demo_workload_def)

lemma demo_fixture: "fixture_digest demo_driver demo_cfg demo_workload = Inr (Some ''ab'')"
proof -
  have "hex_lower [0xAB] = ''ab''" by code_simp
  then show ?thesis
    by (simp add: fixture_digest_def demo_cfg_def demo_driver_def demo_fs_def hex_sha256_def demo_decoders_def
        demo_workload_def)
qed


end
