(* ===== verification/Reports_Secondary.thy ===== *)
theory Reports_Secondary
  imports Usefulness_Secondary Reports
begin

text \<open>
  The output files and \<open>main\<close> of the secondary in-process experiment
  (\<open>examples/usefulness_secondary_inprocess.rs\<close>): a trace file with one JSON value per line and a
  summary. The runs of its variants through the daemon are compared with the baseline by the
  files they leave.
\<close>

section \<open>Values\<close>

definition FIXTURE_PATH :: path where
  "FIXTURE_PATH = map Normal [''experiments'', ''usefulness-secondary'', ''fixtures'', ''snn_model.json'']"

definition secondary_class_json :: "class_metrics \<Rightarrow> json" where
  "secondary_class_json m =
     JObject [(''accepted'', JUnsigned (cm_accepted m)), (''rejected'', JUnsigned (cm_rejected m)),
       (''dropped'', JUnsigned (cm_dropped m)), (''coalesced'', JUnsigned (cm_coalesced m)),
       (''shutdown_refused'', JUnsigned (cm_shutdown_refused m)),
       (''lost_or_coalesced'', JUnsigned (lost_or_coalesced m)),
       (''high_water_mark'', json_nat (cm_high_water_mark m))]"

definition provenance_json :: "model_provenance \<Rightarrow> json" where
  "provenance_json p =
     JObject [(''schema_id'', JString (mp_schema_id p)),
       (''source_path'', JString (path_display (mp_source_path p))),
       (''content_sha256'', JString (mp_content_sha256 p)), (''model_id'', JString (mp_model_id p))]"

definition stats_json :: "runtime_stats \<Rightarrow> json" where
  "stats_json s =
     JObject [(''ticks'', JUnsigned (rs_ticks s)), (''accepted_batches'', JUnsigned (rs_accepted_batches s)),
       (''rejected_batches'', JUnsigned (rs_rejected_batches s)),
       (''receive_errors'', JUnsigned (rs_receive_errors s)), (''emit_errors'', JUnsigned (rs_emit_errors s)),
       (''dropped_spikes'', JUnsigned (rs_dropped_spikes s)),
       (''diagnostic_emissions'', JUnsigned (rs_diagnostic_emissions s)),
       (''suppressed_diagnostics'', JUnsigned (rs_suppressed_diagnostics s))]"

definition secondary_ingress_json :: "ingress_metrics \<Rightarrow> json" where
  "secondary_ingress_json m =
     JObject [(''sensory'', secondary_class_json (im_class m Sensory)),
       (''reward'', secondary_class_json (im_class m Reward)),
       (''control'', secondary_class_json (im_class m Control)),
       (''telemetry'', secondary_class_json (im_class m Telemetry))]"

definition daemon_details :: "runtime_stats \<Rightarrow> run_output \<Rightarrow> json" where
  "daemon_details stats out =
     JObject [(''runtime_stats'', stats_json stats),
       (''checkpoint'', json_option provenance_json (ro_provenance out)),
       (''ingress'', json_option secondary_ingress_json (ro_ingress out)),
       (''health'', json_option snapshot_json (ro_health out))]"

definition baseline_details :: "workload_tick list \<Rightarrow> run_output \<Rightarrow> json" where
  "baseline_details inputs out =
     JObject [(''baseline_steps'', json_nat (length inputs)), (''dropped_spikes'', JUnsigned (ro_dropped out)),
       (''checkpoint'', json_option provenance_json (ro_provenance out))]"

text \<open>The \<open>extra\<close> of a run; only a run through the daemon has statistics.\<close>

definition run_extra :: "workload_tick list \<Rightarrow> run_output \<Rightarrow> json" where
  "run_extra inputs out =
     (case ro_stats out of Some stats \<Rightarrow> daemon_details stats out | None \<Rightarrow> baseline_details inputs out)"

section \<open>The trace file\<close>

definition trace_values :: "(string \<times> u16 list \<times> u64) list \<Rightarrow> json list" where
  "trace_values records =
     map (\<lambda>(tick, seg, channels, latency).
         JObject [(''tick'', json_nat tick), (''segment'', JString seg),
           (''channels'', JArray (map (\<lambda>c. JUnsigned (ucast c)) channels)), (''latency_ns'', JUnsigned latency)])
       (enumerate 0 records)"

fun jsonl_text :: "(json \<Rightarrow> string + string) \<Rightarrow> json list \<Rightarrow> secondary_error + string" where
  "jsonl_text printer [] = Inr []"
| "jsonl_text printer (v # vs) =
     bind_res (map_err SeJson (printer v)) (\<lambda>line.
     bind_res (jsonl_text printer vs) (\<lambda>rest. Inr (line @ nl @ rest)))"

definition jsonl_write ::
  "report_env \<Rightarrow> path \<Rightarrow> (unit \<Rightarrow> secondary_error + string) \<Rightarrow> secondary_error + path \<times> string" where
  "jsonl_write rv path text_of =
     bind_res (map_err SeWrite (rv_create rv path)) (\<lambda>_.
     bind_res (text_of ()) (\<lambda>out.
     bind_res (map_err SeWrite (rv_write rv path out)) (\<lambda>_. Inr (path, out))))"

definition write_trace ::
  "report_env \<Rightarrow> path \<Rightarrow> trace \<Rightarrow> workload_tick list \<Rightarrow> secondary_error + path \<times> string" where
  "write_trace rv path tr inputs =
     bind_res (trace_records tr inputs) (\<lambda>records.
       jsonl_write rv path (\<lambda>_. jsonl_text (rv_compact rv) (trace_values records)))"

section \<open>The summary and \<open>main\<close>\<close>

record secondary_args =
  sa_mode :: secondary_mode
  sa_variant :: variant
  sa_rep :: u32
  sa_out :: path

definition file_sha256 :: "'r driver_env \<Rightarrow> path \<Rightarrow> secondary_error + string" where
  "file_sha256 dv path =
     bind_res (map_err SeRead (fs_read (dv_fs dv) path)) (\<lambda>bytes. Inr (hex_sha256 (dv_decoders dv) bytes))"

definition summary_json ::
  "'r driver_env \<Rightarrow> report_env \<Rightarrow> secondary_args \<Rightarrow> segment_workload \<Rightarrow> workload_tick list \<Rightarrow> trace \<Rightarrow> json
     \<Rightarrow> secondary_error + json" where
  "summary_json dv rv args workload inputs tr extra =
     (let warm = warmup_ticks workload;
          measured_ns = measured_span_ns tr warm;
          measured_ticks = length (tc_emits tr) - warm;
          ticks_per_s =
            (if measured_ns = 0 then f_zero
             else f64_div (f64_mul (usize_as_f64 measured_ticks) (f64_lit 1000000000)) (u64_as_f64 measured_ns));
          (vm_hwm_kb, vm_rss_kb) = proc_memory_kb (dv_fs dv) ''/proc/self/status''
      in bind_res (file_sha256 dv FIXTURE_PATH) (\<lambda>digest.
         Inr (JObject
           [(''mode'', JString (secondary_mode_as_str (sa_mode args))),
            (''variant'', JString (variant_as_str (sa_variant args))),
            (''rep'', json_nat (unat (sa_rep args))),
            (''config'', JString (path_display (mode_config_path (sa_mode args)))),
            (''workload_version'', JString (sw_workload_version workload)),
            (''fixture_sha256'', JString digest), (''ticks_requested'', json_nat (length inputs)),
            (''ticks_recorded'', json_nat (length (tc_emits tr))), (''warmup_ticks_excluded'', json_nat warm),
            (''measured_ticks'', json_nat measured_ticks), (''measured_span_ns'', JUnsigned measured_ns),
            (''ticks_per_s'', json_f64 ticks_per_s), (''process_wall_ns'', json_nat (rv_wall rv)),
            (''vm_hwm_kb'', json_option JUnsigned vm_hwm_kb), (''vm_rss_kb'', json_option JUnsigned vm_rss_kb),
            (''details'', extra)])))"

definition write_outputs ::
  "'r driver_env \<Rightarrow> report_env \<Rightarrow> secondary_args \<Rightarrow> segment_workload \<Rightarrow> workload_tick list \<Rightarrow> run_output
     \<Rightarrow> (secondary_error + unit) \<times> (path \<times> string) list" where
  "write_outputs dv rv args workload inputs out =
     (let name = stem (sa_mode args) (sa_variant args) (sa_rep args)
      in case write_trace rv (join (sa_out args) (name @ ''.jsonl'')) (ro_trace out) inputs of
           Inl e \<Rightarrow> (Inl e, [])
         | Inr file \<Rightarrow>
             (case bind_res (summary_json dv rv args workload inputs (ro_trace out) (run_extra inputs out)) (\<lambda>summary.
                     jsonl_write rv (join (sa_out args) (name @ ''.summary.json''))
                       (\<lambda>_. bind_res (map_err SeJson (rv_pretty rv summary)) (\<lambda>txt. Inr (txt @ nl)))) of
                Inl e \<Rightarrow> (Inl e, [file])
              | Inr file' \<Rightarrow> (Inr (), [file, file'])))"

definition secondary_run_of ::
  "'r driver_env \<Rightarrow> report_env \<Rightarrow> secondary_codec \<Rightarrow> (string \<Rightarrow> string + daemon_config)
     \<Rightarrow> (string \<Rightarrow> string + segment_workload) \<Rightarrow> secondary_args
     \<Rightarrow> secondary_error + segment_workload \<times> workload_tick list \<times> run_output" where
  "secondary_run_of dv rv co toml parse args =
     bind_res (map_err SeWrite (rv_create_dir rv (sa_out args))) (\<lambda>_.
     bind_res (segment_workload_load (dv_fs dv) parse) (\<lambda>workload.
     bind_res (map_err SeConfig (daemon_config_load (dv_fs dv) toml (mode_config_path (sa_mode args)))) (\<lambda>cfg.
     if dc_channels cfg \<noteq> sw_channels workload then Inl (SeChannels (dc_channels cfg) (sw_channels workload))
     else let inputs = segment_workload_expand (sa_variant args) workload
          in bind_res (case sa_mode args of
                         SecBaseline \<Rightarrow> secondary_run_baseline dv cfg inputs
                       | _ \<Rightarrow> secondary_run_daemon dv co cfg inputs) (\<lambda>out.
             Inr (workload, inputs, out)))))"

definition secondary_main ::
  "'r driver_env \<Rightarrow> report_env \<Rightarrow> secondary_codec \<Rightarrow> (string \<Rightarrow> string + daemon_config)
     \<Rightarrow> (string \<Rightarrow> string + segment_workload) \<Rightarrow> secondary_args
     \<Rightarrow> (secondary_error + unit) \<times> (path \<times> string) list" where
  "secondary_main dv rv co toml parse args =
     (case secondary_run_of dv rv co toml parse args of
        Inl e \<Rightarrow> (Inl e, [])
      | Inr (workload, inputs, out) \<Rightarrow> write_outputs dv rv args workload inputs out)"

section \<open>The reports of both modes\<close>

definition secondary_writers_ok :: "report_env \<Rightarrow> (json \<Rightarrow> string) \<Rightarrow> (json \<Rightarrow> string) \<Rightarrow> bool" where
  "secondary_writers_ok rv pretty compact_text \<longleftrightarrow>
     writers_ok rv pretty \<and> (\<forall>j. rv_compact rv j = Inr (compact_text j)) \<and> (\<forall>p. rv_create_dir rv p = Inr ())"

definition json_lines :: "(json \<Rightarrow> string) \<Rightarrow> json list \<Rightarrow> string" where
  "json_lines compact_text vs = concat (map (\<lambda>v. compact_text v @ nl) vs)"

lemma jsonl_text_lines: "(\<And>j. printer j = Inr (compact_text j)) \<Longrightarrow> jsonl_text printer vs = Inr (json_lines compact_text vs)"
  by (induction vs) (simp_all add: json_lines_def)

definition output_paths :: "secondary_args \<Rightarrow> path \<times> path" where
  "output_paths a =
     (let name = stem (sa_mode a) (sa_variant a) (sa_rep a)
      in (join (sa_out a) (name @ ''.jsonl''), join (sa_out a) (name @ ''.summary.json'')))"

lemma write_outputs_files:
  assumes "secondary_writers_ok rv pretty compact_text"
    and "trace_records (ro_trace out) inputs = Inr records"
    and "summary_json dv rv a w inputs (ro_trace out) (run_extra inputs out) = Inr j"
  shows "write_outputs dv rv a w inputs out =
     (Inr (), [(fst (output_paths a), json_lines compact_text (trace_values records)),
               (snd (output_paths a), pretty j @ nl)])"
proof -
  have "jsonl_text (rv_compact rv) (trace_values records) = Inr (json_lines compact_text (trace_values records))"
    using assms(1) by (intro jsonl_text_lines) (simp add: secondary_writers_ok_def)
  with assms show ?thesis
    by (simp add: write_outputs_def write_trace_def jsonl_write_def secondary_writers_ok_def writers_ok_def
        output_paths_def bind_unit Let_def)
qed

text \<open>What is compared of a line of the trace file.\<close>

definition value_spikes :: "json \<Rightarrow> json option list" where
  "value_spikes v = map (json_field v) [''tick'', ''segment'', ''channels'']"

lemma trace_values_spikes:
  "map value_spikes (trace_values records) =
     map (\<lambda>(tick, seg, channels). [Some (json_nat tick), Some (JString seg), Some (JArray (map (\<lambda>c. JUnsigned (ucast c)) channels))])
       (enumerate 0 (map (\<lambda>(seg, channels, latency). (seg, channels)) records))"
proof -
  have "enumerate n (map (\<lambda>(seg, channels, latency). (seg, channels)) rs) =
      map (\<lambda>(tick, seg, channels, latency). (tick, seg, channels)) (enumerate n rs)"
    for n and rs :: "(string \<times> u16 list \<times> u64) list"
    by (induction rs arbitrary: n) auto
  then show ?thesis by (simp add: trace_values_def value_spikes_def comp_def case_prod_unfold)
qed

lemma trace_records_spikes:
  assumes "length (tc_polls tr) = length inputs" "length (tc_emits tr) = length inputs"
  obtains records where "trace_records tr inputs = Inr records"
    and "map (\<lambda>(seg, channels, latency). (seg, channels)) records = zip (map wt_segment inputs) (map snd (tc_emits tr))"
proof
  show "trace_records tr inputs = Inr (map (\<lambda>((poll, (emit, channels)), input). (wt_segment input, channels, of_nat (emit - poll)))
      (zip (zip (tc_polls tr) (tc_emits tr)) inputs))"
    using assms by (simp add: trace_records_def)
  show "map (\<lambda>(seg, channels, latency). (seg, channels))
      (map (\<lambda>((poll, (emit, channels)), input). (wt_segment input, channels, of_nat (emit - poll)))
      (zip (zip (tc_polls tr) (tc_emits tr)) inputs)) = zip (map wt_segment inputs) (map snd (tc_emits tr))"
    using assms by (intro nth_equalityI) (simp_all add: case_prod_unfold)
qed

lemma summary_json_fields:
  assumes "summary_json dv rv a w inputs tr extra = Inr j"
  shows "json_field j ''ticks_requested'' = Some (json_nat (length inputs))"
    and "json_field j ''ticks_recorded'' = Some (json_nat (length (tc_emits tr)))"
    and "json_field j ''details'' = Some extra"
    and "\<exists>digest. file_sha256 dv FIXTURE_PATH = Inr digest \<and> json_field j ''fixture_sha256'' = Some (JString digest)"
  using assms by (auto simp: summary_json_def Let_def case_prod_unfold bind_res_Inr)

lemma summary_json_total:
  "file_sha256 dv FIXTURE_PATH = Inr digest \<Longrightarrow> \<exists>j. summary_json dv rv a w inputs tr extra = Inr j"
  by (simp add: summary_json_def Let_def case_prod_unfold)

definition spike_lines :: "workload_tick list \<Rightarrow> u16 list list \<Rightarrow> json option list list" where
  "spike_lines inputs emitted =
     map (\<lambda>(tick, seg, channels). [Some (json_nat tick), Some (JString seg), Some (JArray (map (\<lambda>c. JUnsigned (ucast c)) channels))])
       (enumerate 0 (zip (map wt_segment inputs) emitted))"

lemma secondary_main_files:
  assumes run: "secondary_run_of dv rv co toml parse a = Inr (w, inputs, out)"
    and writers: "secondary_writers_ok rv pretty compact_text"
    and digest: "file_sha256 dv FIXTURE_PATH = Inr digest"
    and len: "length (tc_polls (ro_trace out)) = length inputs" "length (tc_emits (ro_trace out)) = length inputs"
  obtains vs j where "secondary_main dv rv co toml parse a =
      (Inr (), [(fst (output_paths a), json_lines compact_text vs), (snd (output_paths a), pretty j @ nl)])"
    and "map value_spikes vs = spike_lines inputs (map snd (tc_emits (ro_trace out)))"
    and "json_field j ''ticks_requested'' = Some (json_nat (length inputs))"
    and "json_field j ''ticks_recorded'' = Some (json_nat (length inputs))"
    and "json_field j ''details'' = Some (run_extra inputs out)"
    and "json_field j ''fixture_sha256'' = Some (JString digest)"
proof -
  obtain records where r: "trace_records (ro_trace out) inputs = Inr records"
    "map (\<lambda>(seg, channels, latency). (seg, channels)) records =
       zip (map wt_segment inputs) (map snd (tc_emits (ro_trace out)))"
    using trace_records_spikes [OF len] .
  obtain j where j: "summary_json dv rv a w inputs (ro_trace out) (run_extra inputs out) = Inr j"
    using summary_json_total [OF digest] by blast
  have "secondary_main dv rv co toml parse a =
      (Inr (), [(fst (output_paths a), json_lines compact_text (trace_values records)),
        (snd (output_paths a), pretty j @ nl)])"
    using run write_outputs_files [OF writers r(1) j] by (simp add: secondary_main_def)
  moreover have "map value_spikes (trace_values records) = spike_lines inputs (map snd (tc_emits (ro_trace out)))"
    by (simp only: trace_values_spikes r(2) spike_lines_def)
  ultimately show ?thesis
    using that [of "trace_values records" j] summary_json_fields [OF j] digest len(2) by auto
qed

lemma secondary_main_digest:
  assumes "secondary_main dv rv co toml parse a = (Inr (), files)"
  shows "\<exists>digest. file_sha256 dv FIXTURE_PATH = Inr digest"
proof (cases "file_sha256 dv FIXTURE_PATH")
  case (Inl e)
  have "summary_json dv rv a w inputs tr extra = Inl e" for w inputs tr extra
    by (simp add: summary_json_def Inl case_prod_unfold Let_def)
  with assms show ?thesis
    by (auto simp: secondary_main_def write_outputs_def Let_def split: sum.splits prod.splits)
qed simp

lemma spike_lines_length: "length emitted = length inputs \<Longrightarrow> length (spike_lines inputs emitted) = length inputs"
  by (simp add: spike_lines_def)

lemma clean_secondary_json:
  assumes "clean_stats n stats"
  shows "json_field (stats_json stats) ''ticks'' = Some (json_nat n)"
    and "k \<in> {''rejected_batches'', ''receive_errors'', ''emit_errors'', ''dropped_spikes''} \<Longrightarrow>
      json_field (stats_json stats) k = Some (JUnsigned 0)"
  using assms by (auto simp: stats_json_def clean_stats_def json_nat_def)

lemma secondary_both_run:
  assumes dims: "neuromod_dims (dv_na dv)" and fit: "ids_fit (dv_na dv)"
    and loads: "segment_workload_load (dv_fs dv) parse = Inr w" "daemon_config_load (dv_fs dv) toml LIVE_CONFIG = Inr cfg"
    and ok: "secondary_ok co (dv_poll_clock dv) cfg (segment_workload_expand (sa_variant a) w)"
      "secondary_writers_ok rv pretty compact_text"
    and args: "sa_mode a = SecBaseline" "a' = a\<lparr>sa_mode := SecDaemonLive\<rparr>"
    and base: "secondary_main dv rv co toml parse a = (Inr (), files)"
  obtains rb rd stats digest where
    "secondary_run_of dv rv co toml parse a = Inr (w, segment_workload_expand (sa_variant a) w, rb)"
    "secondary_run_of dv rv co toml parse a' = Inr (w, segment_workload_expand (sa_variant a) w, rd)"
    "map snd (tc_emits (ro_trace rd)) = map snd (tc_emits (ro_trace rb))" "ro_provenance rd = ro_provenance rb"
    "ro_stats rd = Some stats" "clean_stats (length (segment_workload_expand (sa_variant a) w)) stats" "ro_stats rb = None"
    "length (tc_polls (ro_trace rd)) = length (segment_workload_expand (sa_variant a) w)"
    "length (tc_emits (ro_trace rd)) = length (segment_workload_expand (sa_variant a) w)"
    "length (tc_polls (ro_trace rb)) = length (segment_workload_expand (sa_variant a) w)"
    "length (tc_emits (ro_trace rb)) = length (segment_workload_expand (sa_variant a) w)"
    "file_sha256 dv FIXTURE_PATH = Inr digest"
proof -
  let ?inputs = "segment_workload_expand (sa_variant a) w"
  have run: "secondary_run_of dv rv co toml parse x =
      (if dc_channels cfg \<noteq> sw_channels w then Inl (SeChannels (dc_channels cfg) (sw_channels w))
       else bind_res r (\<lambda>out. Inr (w, ?inputs, out)))"
    if "x = a \<and> r = secondary_run_baseline dv cfg ?inputs \<or> x = a' \<and> r = secondary_run_daemon dv co cfg ?inputs" for x r
    using that loads args ok(2) by (auto simp: secondary_run_of_def secondary_writers_ok_def Let_def)
  obtain rb where b: "secondary_run_of dv rv co toml parse a = Inr (w, ?inputs, rb)"
    "secondary_run_baseline dv cfg ?inputs = Inr rb"
    using base run [of a "secondary_run_baseline dv cfg ?inputs"]
    by (auto simp: secondary_main_def bind_res_Inr split: sum.splits if_splits)
  obtain rd stats where d: "secondary_run_daemon dv co cfg ?inputs = Inr rd"
    "map snd (tc_emits (ro_trace rd)) = map snd (tc_emits (ro_trace rb))" "ro_provenance rd = ro_provenance rb"
    "ro_stats rd = Some stats" "clean_stats (length ?inputs) stats" "ro_stats rb = None"
    and len: "length (tc_polls (ro_trace rd)) = length ?inputs" "length (tc_emits (ro_trace rd)) = length ?inputs"
      "length (tc_polls (ro_trace rb)) = length ?inputs" "length (tc_emits (ro_trace rb)) = length ?inputs"
    using secondary_runs [OF dims fit ok(1) b(2)] by auto
  have a': "secondary_run_of dv rv co toml parse a' = Inr (w, ?inputs, rd)"
    using b run [of a "secondary_run_baseline dv cfg ?inputs"] run [of a' "secondary_run_daemon dv co cfg ?inputs"] d(1)
    by (auto split: if_splits)
  obtain digest where digest: "file_sha256 dv FIXTURE_PATH = Inr digest"
    using secondary_main_digest [OF base] by blast
  show ?thesis by (rule that [OF b(1) a' d(2-6) len digest])
qed


section \<open>A concrete pair of reports\<close>

definition demo_secondary_args :: secondary_args where
  "demo_secondary_args = \<lparr> sa_mode = SecBaseline, sa_variant = MainVariant, sa_rep = 0, sa_out = [Normal ''out''] \<rparr>"


end
