(* ===== verification/Transport_Reports.thy ===== *)
theory Transport_Reports
  imports Transport_Secondary Reports_Secondary
begin

text \<open>
  The files of the two transport drivers (\<open>write_frames\<close>, \<open>summary_json\<close> of
  \<open>examples/usefulness_transport.rs\<close>; \<open>write_raw\<close>, \<open>summary_json\<close> of
  \<open>examples/usefulness_secondary_transport.rs\<close>): the values of \<open>Transport\<close> and
  \<open>Transport_Secondary\<close> as JSON, with the arguments the summaries repeat.
\<close>

section \<open>The first driver\<close>

definition json_channels :: "u16 list \<Rightarrow> json" where
  "json_channels cs = JArray (map (\<lambda>c. JUnsigned (ucast c)) cs)"

definition json_i32 :: "int \<Rightarrow> json" where
  "json_i32 i = (if i < 0 then JNegative i else JUnsigned (of_int i))"

definition latency_value :: "latency_summary \<Rightarrow> json" where
  "latency_value l =
     JObject [(''count'', json_nat (ls_count l)), (''p50'', json_option JUnsigned (ls_p50 l)),
       (''p99'', json_option JUnsigned (ls_p99 l)), (''max'', json_option JUnsigned (ls_max l)),
       (''min'', json_option JUnsigned (ls_min l))]"

text \<open>Only an answered pulse has the field \<open>received\<close>.\<close>

definition pulse_value :: "pulse_record \<Rightarrow> json" where
  "pulse_value p =
     JObject ([(''pulse'', json_nat (pe_pulse p)), (''channel'', json_nat (pe_channel p)),
       (''matched'', JBool (pe_matched p)), (''latency_ns'', json_option JUnsigned (pe_latency p))] @
       (case pe_received p of None \<Rightarrow> [] | Some cs \<Rightarrow> [(''received'', json_channels cs)]))"

definition frame_value :: "frame_record \<Rightarrow> json" where
  "frame_value r =
     JObject [(''seq'', json_nat (fc_seq r)), (''phase'', JString (fc_phase r)), (''recv_ns'', JUnsigned (fc_recv_ns r)),
       (''channels'', json_channels (fc_channels r)), (''batch_id'', JUnsigned (fc_batch_id r)),
       (''timestamp'', JUnsigned (fc_timestamp r)), (''pulse'', json_option json_nat (fc_pulse r)),
       (''send_ns'', json_option JUnsigned (fc_send_ns r))]"

record transport_args =
  ta_daemon :: path
  ta_records :: path
  ta_summary :: path

text \<open>\<open>Path::with_extension\<close>.\<close>

definition with_extension :: "path \<Rightarrow> string \<Rightarrow> path" where
  "with_extension p e =
     (case file_name p of
        None \<Rightarrow> p
      | Some n \<Rightarrow>
          (let base = (case extension p of None \<Rightarrow> n | Some x \<Rightarrow> take (length n - length x - 1) n)
           in butlast p @ [Normal (base @ ''.'' @ e)]))"

definition transport_log_path :: "transport_args \<Rightarrow> path" where
  "transport_log_path args = with_extension (ta_records args) ''daemon.log''"

definition transport_summary_json ::
  "transport_env \<Rightarrow> transport_args \<Rightarrow> workload \<Rightarrow> transport_summary \<Rightarrow> json" where
  "transport_summary_json te args workload s =
     JObject [(''mode'', JString ''transport-live''), (''config'', JString (path_display (tv_config te))),
       (''workload'', JString (path_display (tv_workload te))),
       (''fixture_sha256'', JString (wl_fixture_sha256 workload)),
       (''daemon_binary'', JString (path_display (ta_daemon args))),
       (''daemon_pid'', json_nat (unat (sm_daemon_pid s))), (''ready_after_ns'', JUnsigned (sm_ready_after_ns s)),
       (''subscribe_frames'', json_nat (sm_subscribe_frames s)), (''prime_attempts'', json_nat (sm_prime_attempts s)),
       (''prime_frames'', json_nat (sm_prime_frames s)), (''pulse_spacing_ns'', JUnsigned (sm_pulse_spacing_ns s)),
       (''pulses_sent'', JUnsigned (sm_pulses_sent s)), (''frames_received_total'', json_nat (sm_frames_total s)),
       (''measured_frames_total'', json_nat (sm_measured_total s)),
       (''measured_frames_empty'', json_nat (sm_measured_empty s)),
       (''measured_frames_nonempty'', json_nat (sm_measured_nonempty s)), (''matched'', JUnsigned (sm_matched s)),
       (''mismatched'', JUnsigned (sm_mismatched s)), (''lost'', JUnsigned (sm_lost s)),
       (''extra_nonempty'', JUnsigned (sm_extra_nonempty s)), (''latency_ns'', latency_value (sm_latency_ns s)),
       (''per_pulse'', JArray (map pulse_value (sm_per_pulse s))),
       (''daemon_rss_kb'', json_option JUnsigned (sm_daemon_rss_kb s)),
       (''daemon_peak_rss_kb'', json_option JUnsigned (sm_daemon_peak_rss_kb s)),
       (''metrics_status'', json_option json_nat (sm_metrics_status s)),
       (''metrics_text'', json_option JString (sm_metrics_text s)),
       (''health_status'', json_option json_nat (sm_health_status s)),
       (''health_json'', json_option (\<lambda>j. j) (sm_health_json s)),
       (''sigterm_exit_ns'', JUnsigned (sm_sigterm_exit_ns s)),
       (''exit_code'', json_option json_i32 (sm_exit_code s)),
       (''termination_logged'', JBool (sm_termination_logged s)),
       (''daemon_log'', JString (path_display (transport_log_path args)))]"

text \<open>The two files of a finished run; \<open>compact_text\<close> and \<open>pretty\<close> print a value.\<close>

definition transport_files ::
  "transport_env \<Rightarrow> transport_args \<Rightarrow> (json \<Rightarrow> string) \<Rightarrow> (json \<Rightarrow> string) \<Rightarrow> workload \<Rightarrow> transport_report
     \<Rightarrow> (path \<times> string) list" where
  "transport_files te args compact_text pretty workload r =
     [(ta_records args, json_lines compact_text (map frame_value (rep_records r))),
      (ta_summary args, pretty (transport_summary_json te args workload (rep_summary r)) @ nl)]"

section \<open>The second driver\<close>

definition sent_value :: "nat \<times> nat \<times> u64 \<Rightarrow> json" where
  "sent_value = (\<lambda>(i, channel, at_ns).
     JObject [(''probe'', json_nat i), (''channel'', json_nat channel), (''send_ns'', JUnsigned at_ns)])"

definition received_value :: "u64 \<times> u64 \<times> u16 list \<times> string \<Rightarrow> json" where
  "received_value = (\<lambda>(at_ns, batch_id, channels, ph).
     JObject [(''recv_ns'', JUnsigned at_ns), (''batch_id'', JUnsigned batch_id), (''channels'', json_channels channels),
       (''phase'', JString ph)])"

record probe_args =
  ba_bin :: path
  ba_rep :: u32
  ba_out :: path

definition exit_value :: "probe_report \<Rightarrow> json_map" where
  "exit_value r =
     (let (code, success, in_budget) = prp_exit r
      in [(''sigterm_sent'', JBool (prp_sigterm_sent r)), (''exit_status_code'', json_option json_i32 code),
          (''exit_success'', JBool success),
          (''exit_ms'', json_f64 (f64_mul (as_secs_f64 (prp_exit_ns r)) (f64_lit 1000))),
          (''exit_within_budget'', JBool in_budget), (''logged_termination'', JBool (prp_logged r))])"

definition probe_summary_json :: "probe_args \<Rightarrow> segment_workload \<Rightarrow> string \<Rightarrow> probe_report \<Rightarrow> json" where
  "probe_summary_json args workload digest r =
     JObject (fold (\<lambda>(k, v) m. AList.update k v m) (exit_value r)
       [(''mode'', JString ''transport-live''), (''rep'', json_nat (unat (ba_rep args))),
        (''config'', JString (path_display TRANSPORT_CONFIG)), (''binary'', JString (path_display (ba_bin args))),
        (''workload_version'', JString (sw_workload_version workload)), (''fixture_sha256'', JString digest),
        (''ready_ms'', JUnsigned (prp_ready_ms r)), (''priming_frames'', JUnsigned (prp_priming_frames r)),
        (''probes_sent'', json_nat (prp_probes_sent r)), (''measure_start_ns'', JUnsigned (prp_measure_start_ns r)),
        (''measure_end_ns'', JUnsigned (prp_measure_end_ns r)),
        (''batches_received_total'', json_nat (prp_batches_received r)),
        (''undecodable_frames'', JUnsigned (prp_undecodable r)),
        (''daemon_vm_hwm_kb'', json_option JUnsigned (prp_vm_hwm_kb r)),
        (''daemon_vm_rss_kb'', json_option JUnsigned (prp_vm_rss_kb r))])"

definition probe_files ::
  "probe_args \<Rightarrow> (json \<Rightarrow> string) \<Rightarrow> (json \<Rightarrow> string) \<Rightarrow> segment_workload \<Rightarrow> string \<Rightarrow> probe_report
     \<Rightarrow> (path \<times> string) list" where
  "probe_files args compact_text pretty workload digest r =
     (let prefix = join (ba_out args) (''transport-r'' @ show_nat (unat (ba_rep args)));
          named = (\<lambda>suffix. path_of (path_display prefix @ ''.'' @ suffix))
      in [(named ''sends.jsonl'', json_lines compact_text (map sent_value (prp_sends r))),
          (named ''recv.jsonl'', json_lines compact_text (map received_value (prp_received r))),
          (named ''metrics.txt'', prp_metrics_txt r), (named ''health.txt'', prp_health_txt r),
          (named ''summary.json'', pretty (probe_summary_json args workload digest r) @ nl)])"

section \<open>Both files of a transport run agree\<close>

definition in_phase :: "frame_phase list \<Rightarrow> json \<Rightarrow> bool" where
  "in_phase ps v \<longleftrightarrow> json_field v ''phase'' \<in> set (map (\<lambda>p. Some (JString (frame_phase_as_str p))) ps)"

definition has_spikes :: "json \<Rightarrow> bool" where
  "has_spikes v \<longleftrightarrow> json_field v ''channels'' \<noteq> Some (JArray [])"

lemma record_fields:
  "map (\<lambda>r. (fc_phase r, fc_channels r)) (frame_records frames pulses started) =
     map (\<lambda>f. (frame_phase_as_str (fm_phase f), fm_channels f)) frames"
proof -
  have "map g (enumerate k (zip frames ps)) = map h frames"
    if "length ps = length frames" "\<And>i f p. g (i, f, p) = h f"
    for g :: "nat \<times> pub_frame \<times> nat option \<Rightarrow> string \<times> u16 list" and h k ps
    using that(1) by (induction ps frames arbitrary: k rule: list_induct2) (simp_all add: that(2))
  then show ?thesis by (simp add: frame_records_def pulse_assignment_def comp_def Let_def case_prod_beta)
qed

lemma frame_lines:
  "length (filter (\<lambda>v. Q (json_field v ''phase'') (json_field v ''channels'')) (map frame_value (frame_records frames pulses started))) =
     count_frames (\<lambda>f. Q (Some (JString (frame_phase_as_str (fm_phase f)))) (Some (json_channels (fm_channels f)))) frames"
proof -
  let ?P = "\<lambda>(ph, cs). Q (Some (JString ph)) (Some (json_channels cs))"
  have "length (filter (\<lambda>v. Q (json_field v ''phase'') (json_field v ''channels'')) (map frame_value rs)) =
      length (filter ?P (map (\<lambda>r. (fc_phase r, fc_channels r)) rs))" for rs
    by (induction rs) (simp_all add: frame_value_def)
  then have "length (filter (\<lambda>v. Q (json_field v ''phase'') (json_field v ''channels'')) (map frame_value (frame_records frames pulses started))) =
      length (filter ?P (map (\<lambda>r. (fc_phase r, fc_channels r)) (frame_records frames pulses started)))" .
  also have "\<dots> = length (filter ?P (map (\<lambda>f. (frame_phase_as_str (fm_phase f), fm_channels f)) frames))"
    by (simp only: record_fields)
  finally show ?thesis by (simp add: count_frames_def filter_map comp_def)
qed

lemma phase_str_eq [simp]: "frame_phase_as_str p = frame_phase_as_str q \<longleftrightarrow> p = q"
  by (cases p; cases q) simp_all

lemma length_map_filter: "length (List.map_filter f xs) = length (filter (\<lambda>x. f x \<noteq> None) xs)"
  by (induction xs) (auto split: option.split)

lemma transport_file_counts:
  assumes "transport_main te = Some (Inr rep, es)"
  shows "list_all (\<lambda>(k, P). json_field (transport_summary_json te args w (rep_summary rep)) k = Some (json_nat (length (filter P (map frame_value (rep_records rep))))))
       [(''frames_received_total'', \<lambda>_. True), (''subscribe_frames'', in_phase [PhSubscribe]),
        (''prime_frames'', in_phase [PhPrime]), (''measured_frames_total'', in_phase [PhMeasure, PhTail]),
        (''measured_frames_empty'', \<lambda>v. in_phase [PhMeasure, PhTail] v \<and> \<not> has_spikes v),
        (''measured_frames_nonempty'', \<lambda>v. in_phase [PhMeasure, PhTail] v \<and> has_spikes v)]"
proof -
  let ?vs = "map frame_value (rep_records rep)" and ?sm = "rep_summary rep"
  let ?j = "transport_summary_json te args w ?sm"
  obtain su attempts pulses probes exit logged oc nonempty p started and wi :: wire where parts:
    "correlate pulses (wi_frames wi) (ses_expected (su_session su)) = (oc, nonempty)"
    "rep_records rep = frame_records (wi_frames wi) pulses started"
    "?sm = transport_summary_of (tv_json te) su \<lparr> ca_pid = p, ca_frames = wi_frames wi, ca_pulses = pulses, ca_prime_attempts = attempts,
      ca_sent = wi_sent wi, ca_probes = probes, ca_exit = exit, ca_termination_logged = logged \<rparr> oc nonempty"
    using transport_main_parts [OF assms] by blast
  have vs: "?vs = map frame_value (frame_records (wi_frames wi) pulses started)" by (simp only: parts(2))
  have phases: "in_phase [PhSubscribe] = (\<lambda>v. json_field v ''phase'' = Some (JString (frame_phase_as_str PhSubscribe)))"
    "in_phase [PhPrime] = (\<lambda>v. json_field v ''phase'' = Some (JString (frame_phase_as_str PhPrime)))"
    "in_phase [PhMeasure, PhTail] = (\<lambda>v. json_field v ''phase'' = Some (JString (frame_phase_as_str PhMeasure)) \<or>
       json_field v ''phase'' = Some (JString (frame_phase_as_str PhTail)))"
    by (simp_all add: in_phase_def [abs_def])
  have nonempty: "nonempty = length (filter measured_nonempty (wi_frames wi))"
    using parts(1) by (auto simp: correlate_def Let_def)
  let ?c = "\<lambda>P. count_frames P (wi_frames wi)"
  have fields: "json_field ?j ''frames_received_total'' = Some (json_nat (?c (\<lambda>_. True)))"
    "json_field ?j ''subscribe_frames'' = Some (json_nat (?c (\<lambda>f. fm_phase f = PhSubscribe)))"
    "json_field ?j ''prime_frames'' = Some (json_nat (?c (\<lambda>f. fm_phase f = PhPrime)))"
    "json_field ?j ''measured_frames_total'' = Some (json_nat (?c (\<lambda>f. phase_measured (fm_phase f))))"
    "json_field ?j ''measured_frames_empty'' = Some (json_nat (?c (\<lambda>f. phase_measured (fm_phase f) \<and> fm_channels f = [])))"
    "json_field ?j ''measured_frames_nonempty'' = Some (json_nat (?c measured_nonempty))"
    by (simp_all add: transport_summary_json_def parts(3) transport_summary_of_def nonempty count_frames_def Let_def)
  have empty: "json_channels cs = JArray [] \<longleftrightarrow> cs = []" for cs by (simp add: json_channels_def)
  have lines: "length (filter (\<lambda>_. True) ?vs) = ?c (\<lambda>_. True)"
    "length (filter (in_phase [PhSubscribe]) ?vs) = ?c (\<lambda>f. fm_phase f = PhSubscribe)"
    "length (filter (in_phase [PhPrime]) ?vs) = ?c (\<lambda>f. fm_phase f = PhPrime)"
    "length (filter (in_phase [PhMeasure, PhTail]) ?vs) = ?c (\<lambda>f. phase_measured (fm_phase f))"
    "length (filter (\<lambda>v. in_phase [PhMeasure, PhTail] v \<and> \<not> has_spikes v) ?vs) =
       ?c (\<lambda>f. phase_measured (fm_phase f) \<and> fm_channels f = [])"
    "length (filter (\<lambda>v. in_phase [PhMeasure, PhTail] v \<and> has_spikes v) ?vs) = ?c measured_nonempty"
    unfolding vs phases has_spikes_def not_not
    by (subst frame_lines [where Q = "\<lambda>ph cs. True"] frame_lines [where Q = "\<lambda>ph cs. ph = Some (JString (frame_phase_as_str PhSubscribe))"]
        frame_lines [where Q = "\<lambda>ph cs. ph = Some (JString (frame_phase_as_str PhPrime))"]
        frame_lines [where Q = "\<lambda>ph cs. ph = Some (JString (frame_phase_as_str PhMeasure)) \<or> ph = Some (JString (frame_phase_as_str PhTail))"]
        frame_lines [where Q = "\<lambda>ph cs. (ph = Some (JString (frame_phase_as_str PhMeasure)) \<or> ph = Some (JString (frame_phase_as_str PhTail))) \<and> cs = Some (JArray [])"]
        frame_lines [where Q = "\<lambda>ph cs. (ph = Some (JString (frame_phase_as_str PhMeasure)) \<or> ph = Some (JString (frame_phase_as_str PhTail))) \<and> cs \<noteq> Some (JArray [])"],
      simp only: option.inject json.inject phase_str_eq empty phase_measured_def measured_nonempty_def [abs_def])+
  show ?thesis
    by (simp only: list.pred_inject prod.case fields lines simp_thms)
qed

lemma transport_file_answers:
  assumes "transport_main te = Some (Inr rep, es)"
  shows "\<exists>sent matched mismatched lost answers.
        map (json_field (transport_summary_json te args w (rep_summary rep)))
          [''pulses_sent'', ''matched'', ''mismatched'', ''lost'', ''per_pulse''] =
          map Some [JUnsigned sent, JUnsigned matched, JUnsigned mismatched, JUnsigned lost, JArray answers] \<and>
        unat matched + unat mismatched + unat lost = unat sent \<and> length answers = unat sent \<and>
        unat matched + unat mismatched = length (filter (\<lambda>v. json_field v ''pulse'' \<noteq> Some JNull) (map frame_value (rep_records rep)))"
proof -
  let ?vs = "map frame_value (rep_records rep)" and ?sm = "rep_summary rep"
  let ?j = "transport_summary_json te args w ?sm"
  obtain n m where account: "unat (sm_pulses_sent ?sm) = n" "unat (sm_matched ?sm) + unat (sm_mismatched ?sm) = m"
    "unat (sm_lost ?sm) = n - m" "m \<le> n" "map pe_pulse (sm_per_pulse ?sm) = [0..<n]"
    "List.map_filter (\<lambda>r. map_option (\<lambda>i. (i, fc_channels r)) (fc_pulse r)) (rep_records rep) =
       map (\<lambda>a. (pe_pulse a, the (pe_received a))) (take m (sm_per_pulse ?sm))"
    using transport_account [OF assms] by (metis min.cobounded1)
  have len: "length (sm_per_pulse ?sm) = n" using arg_cong [OF account(5), of length] by simp
  have "length (filter (\<lambda>r. fc_pulse r \<noteq> None) (rep_records rep)) = m"
    using arg_cong [OF account(6), of length] len account(4) by (simp add: length_map_filter)
  moreover have "length (filter (\<lambda>v. json_field v ''pulse'' \<noteq> Some JNull) (map frame_value rs)) =
      length (filter (\<lambda>r. fc_pulse r \<noteq> None) rs)" for rs
    by (induction rs) (auto simp: frame_value_def json_option_def json_nat_def split: option.splits)
  ultimately have named: "unat (sm_matched ?sm) + unat (sm_mismatched ?sm) =
      length (filter (\<lambda>v. json_field v ''pulse'' \<noteq> Some JNull) ?vs)"
    by (simp only: account(2))
  have totals: "map (json_field ?j) [''pulses_sent'', ''matched'', ''mismatched'', ''lost'', ''per_pulse''] =
      map Some [JUnsigned (sm_pulses_sent ?sm), JUnsigned (sm_matched ?sm), JUnsigned (sm_mismatched ?sm),
        JUnsigned (sm_lost ?sm), JArray (map pulse_value (sm_per_pulse ?sm))]"
    by (simp add: transport_summary_json_def)
  have sum: "unat (sm_matched ?sm) + unat (sm_mismatched ?sm) + unat (sm_lost ?sm) = unat (sm_pulses_sent ?sm)"
    using account(1-4) by linarith
  have "length (map pulse_value (sm_per_pulse ?sm)) = unat (sm_pulses_sent ?sm)" by (simp add: len account(1))
  with totals sum named show ?thesis by blast
qed

text \<open>
  C15: The two files of a finished transport run tell the same story: the frame counts of the
  summary, in total and by phase, empty or not, are the numbers of such lines in the record file;
  as many lines name a pulse as the summary has matched and mismatched pulses together; and these
  with the lost ones are the pulses sent, one entry of \<open>per_pulse\<close> for each.
\<close>

theorem transport_files_agree:
  assumes "transport_main te = Some (Inr rep, es)"
  shows "\<exists>vs j. transport_files te args compact_text pretty w rep =
       [(ta_records args, json_lines compact_text vs), (ta_summary args, pretty j @ nl)] \<and>
     list_all (\<lambda>(k, P). json_field j k = Some (json_nat (length (filter P vs))))
       [(''frames_received_total'', \<lambda>_. True), (''subscribe_frames'', in_phase [PhSubscribe]),
        (''prime_frames'', in_phase [PhPrime]), (''measured_frames_total'', in_phase [PhMeasure, PhTail]),
        (''measured_frames_empty'', \<lambda>v. in_phase [PhMeasure, PhTail] v \<and> \<not> has_spikes v),
        (''measured_frames_nonempty'', \<lambda>v. in_phase [PhMeasure, PhTail] v \<and> has_spikes v)] \<and>
     (\<exists>sent matched mismatched lost answers.
        map (json_field j) [''pulses_sent'', ''matched'', ''mismatched'', ''lost'', ''per_pulse''] =
          map Some [JUnsigned sent, JUnsigned matched, JUnsigned mismatched, JUnsigned lost, JArray answers] \<and>
        unat matched + unat mismatched + unat lost = unat sent \<and> length answers = unat sent \<and>
        unat matched + unat mismatched = length (filter (\<lambda>v. json_field v ''pulse'' \<noteq> Some JNull) vs))"
  using transport_file_counts [OF assms] transport_file_answers [OF assms]
  by (intro exI [of _ "map frame_value (rep_records rep)"] exI [of _ "transport_summary_json te args w (rep_summary rep)"] conjI)
    (rule transport_files_def)

theorem transport_files_agree_witness:
  "\<exists>rep vs j. transport_main demo_transport = Some (Inr rep, [EfSpawn 7, EfTerm 7, EfReap 7]) \<and>
     transport_files demo_transport \<lparr> ta_daemon = [], ta_records = [Normal ''r''], ta_summary = [Normal ''s''] \<rparr>
       (\<lambda>_. ''{}'') (\<lambda>_. ''{}'') demo_pulse_workload rep =
       [([Normal ''r''], json_lines (\<lambda>_. ''{}'') vs), ([Normal ''s''], ''{}'' @ nl)] \<and>
     json_field j ''frames_received_total'' = Some (json_nat (length vs))"
proof -
  obtain rep where rep: "transport_main demo_transport = Some (Inr rep, [EfSpawn 7, EfTerm 7, EfReap 7])"
    using demo_transport_run by blast
  from transport_files_agree [OF rep, of "\<lparr> ta_daemon = [], ta_records = [Normal ''r''], ta_summary = [Normal ''s''] \<rparr>"
      "\<lambda>_. ''{}''" "\<lambda>_. ''{}''" demo_pulse_workload] rep
  show ?thesis by auto
qed

text \<open>
  The second driver: its row files have a line for every probe and every batch the summary
  counts, and the lines outside the measured window say so.
\<close>

lemma probe_files_agree:
  assumes "r = probe_outputs daemon_log m" "j = probe_summary_json args w digest r"
    and "probe_files args compact_text pretty w digest r = (p, txt) # (p', txt') # rest"
  shows "\<exists>vs vs'. txt = json_lines compact_text vs \<and> txt' = json_lines compact_text vs' \<and>
     json_field j ''probes_sent'' = Some (json_nat (length vs)) \<and>
     json_field j ''batches_received_total'' = Some (json_nat (length vs')) \<and>
     list_all2 (\<lambda>v b. json_field v ''recv_ns'' = Some (JUnsigned (rcv_at_ns b)) \<and>
       (json_field v ''phase'' = Some (JString ''measure'') \<longleftrightarrow>
          win_start_ns (mea_window m) \<le> rcv_at_ns b \<and> rcv_at_ns b \<le> win_end_ns (mea_window m)))
       vs' (mea_records m)"
proof -
  have "list_all2 (\<lambda>v b. json_field v ''recv_ns'' = Some (JUnsigned (rcv_at_ns b)) \<and>
       (json_field v ''phase'' = Some (JString ''measure'') \<longleftrightarrow> win_start_ns wd \<le> rcv_at_ns b \<and> rcv_at_ns b \<le> win_end_ns wd))
       (map received_value (received_rows wd bs)) bs" for wd bs
    by (induction bs) (auto simp: received_rows_def received_value_def window_phase_def not_less)
  then show ?thesis
    using assms
    by (intro exI [of _ "map sent_value (prp_sends r)"] exI [of _ "map received_value (prp_received r)"])
      (simp add: probe_files_def probe_outputs_def probe_summary_json_def exit_value_def sent_rows_def received_rows_def
        update_conv' case_prod_unfold Let_def)
qed

end
