(* ===== verification/Spec2Isabelle.thy ===== *)
theory Spec2Isabelle
  imports Ingress_Shutdown Startup Fault_Matrix Transport_Reports
begin

text \<open>
  Verification of \<open>brainstem-daemon\<close>: a service that restores a spiking neural network from a
  checkpoint, feeds it stimuli received over ZeroMQ at a fixed tick rate, publishes the spikes
  and answers health probes over HTTP.

  \<^bold>\<open>The program and its theories.\<close> A tick (\<open>run_tick\<close>) asks the stimulus source for a packet,
  gates it, admits it to the bounded ingress, drains the ingress, gates what was drained,
  decodes it into the stimulus vector and the modulators, steps the network and hands the
  spikes to the sink; health events go to the health handle on the way, and the control
  surface reads snapshots of it. Around the tick are the boot, which lets nothing start before
  the configuration, the checkpoint and the restored network were validated, and the shutdown.

  \<^item> \<open>Prelude\<close>, \<open>Floats\<close>, \<open>Net_Addr\<close>: results and errors, saturating 64-bit arithmetic, strings;
    IEEE values with correctly rounded operations on rationals; the parsers of addresses, paths
    and UTF-8 of the standard library. The locales \<open>event_system\<close>, \<open>latched_system\<close> and
    \<open>monotone_system\<close> (runs, latches, quantities that only grow) are interpreted on the health
    machine, the queues, the ingress, the ticks and the listener.
  \<^item> \<open>Health_Types\<close>, \<open>Health\<close> (\<open>src/health\<close>): state machine, snapshot, Prometheus text, handle.
  \<^item> \<open>Packet\<close>, \<open>Ingress_Queue\<close>, \<open>Ingress\<close>, \<open>Ingress_Shutdown\<close>, \<open>Corpus_Ingress\<close> (\<open>src/ingress\<close>):
    the finite gate, one class queue with its overflow policies and blocking wait, the four
    classes behind one handle, shutdown racing producers step by step, and the acceptance of
    typed messages. The locale \<open>class_queue\<close> is the interface between queue and handle.
  \<^item> \<open>Backend\<close> (\<open>src/backend.rs\<close>): stub, collecting and ZeroMQ sources and sinks; the locale of
    a polled source with held modulators is interpreted on the ZeroMQ source.
  \<^item> \<open>Config\<close> (\<open>src/config.rs\<close>, \<open>registry.rs\<close>, \<open>logging.rs\<close>) and \<open>Checkpoint\<close>
    (\<open>src/checkpoint/mod.rs\<close>): validation, resolution, parsing and restore.
  \<^item> \<open>Tick\<close>, \<open>Daemon\<close> (\<open>src/daemon.rs\<close>): the tick with its rate-limited diagnostics;
    construction, boot, control task, bounded run, service loop, shutdown.
  \<^item> \<open>Health_Json\<close> (the serde derives of \<open>src/health/snapshot.rs\<close>): a snapshot as a JSON value,
    written and read.
  \<^item> \<open>Control\<close> (\<open>src/control.rs\<close>): one connection from the bytes read to the bytes written, and
    the listener with its two semaphores.
  \<^item> \<open>Startup\<close> (\<open>src/bin/brainstem_daemon.rs\<close>): the order in which the binary loads, validates,
    restores, opens its socket and runs.
  \<^item> \<open>Durable\<close>, \<open>Harness\<close>, \<open>Fault_Matrix\<close> (\<open>src/runtime\<close>): durable state and store, fault
    injection, the fake-clock harness with boot, tick, shutdown and crash, and the fault suite.
  \<^item> \<open>Driven_Run\<close>, \<open>Usefulness\<close> (\<open>examples/usefulness_inprocess.rs\<close>,
    \<open>usefulness_common/mod.rs\<close>) and \<open>Usefulness_Secondary\<close>
    (\<open>examples/usefulness_secondary_inprocess.rs\<close>, \<open>usefulness_secondary_common/mod.rs\<close>): the two
    experiments that compare the daemon with the network stepped directly; the first of the
    three holds what both need of a run driven by a recorded workload. \<open>Reports\<close> and
    \<open>Reports_Secondary\<close> hold the files these drivers write and their \<open>main\<close>; \<open>Measurement\<close> the
    memory readings and percentiles of all drivers.
  \<^item> \<open>Http_Client\<close> (\<open>examples/usefulness_common/process.rs\<close> and the like parts of the secondary
    experiment): the HTTP clients and the daemon as a child process, from spawn to reap.
  \<^item> \<open>Transport\<close> (\<open>examples/usefulness_transport.rs\<close>, \<open>usefulness_common/frames.rs\<close>) and
    \<open>Transport_Secondary\<close> (\<open>examples/usefulness_secondary_transport.rs\<close>): the drivers that run the
    binary over sockets: start, prime, measured stimuli, collected frames, shutdown, account;
    \<open>Transport_Reports\<close> their files.

  \<^bold>\<open>How the code is rendered.\<close> A struct is a record and keeps its field names with a prefix; an
  enum is a datatype; \<open>u64\<close>, \<open>u32\<close>, \<open>u16\<close> and \<open>i32\<close> are words, \<open>usize\<close> is \<open>nat\<close>; \<open>Result\<close> is a sum
  with the error on the left. A method with \<open>&mut self\<close> returns the state it leaves. Clock
  readings, the outcome of reads and writes, and the order in which concurrent tasks act are
  arguments: lists of events, or functions from an index to a reading. Mutex-protected bodies
  are atomic; a wait that releases its mutex is two steps. Third-party code (the network of
  \<open>neuromod\<close>, \<open>corpus-ipc\<close>, ZeroMQ, TOML, JSON, SHA-256, \<open>EnvFilter\<close>, the file system) is a record
  of functions; what a theorem needs of it is a hypothesis with a name (\<open>codec_ok\<close>,
  \<open>neuromod_dims\<close>, \<open>codec_serves\<close>), and a witness instantiates it.

  \<^bold>\<open>What the lemmas show.\<close> Safety of the data path: no NaN or infinity reaches the network, a
  network is only stepped with the shape that was configured, live mode never runs a blank or
  unvalidated checkpoint, the binary opens no socket before that. Queues: bounds and
  conservation under every interleaving, order, isolation of the control class, no admission
  after shutdown, return of a blocked producer. Health: the boot order, sticky fatal state,
  coherent snapshots, hysteresis and freshness at their exact thresholds. Life cycle: every
  run cleans up, the service loop returns on a signal, the listener stops and keeps its
  limits, a failing step turns every later readiness probe into 503. Recovery: the harness
  refines an append-only log, publishes every ingress at most once across crashes, and agrees
  with its oracle at each of the seventeen fault points for every seed. Equivalence: the
  daemon records the spikes of the directly stepped network, and masking a channel is the same
  as sending it as zero. Experiments: the client reads back what the control surface rendered,
  no driver goes on before the daemon is ready, a transport run sends what it says it sent and
  accounts for every pulse, and however it ends it leaves no process behind; the files of a
  baseline and of a daemon run agree line by line and in their summaries, the files of a
  transport run agree with each other, and what \<open>/health\<close> serves is read back.

  \<^bold>\<open>Bounds and fuel.\<close> No definition runs on made-up fuel: 32 receives per poll, 1024 bytes of a
  request, 32 served and 4 busy connections, 64 steps of a harness are the code's own limits.
  A blocked push recurses over the list of its wake-ups and is undetermined when the list
  ends before its deadline; the service loop and the listener recurse over their events and
  give \<open>None\<close> when no event ends them, so that returning is a statement. The polling loops of
  the drivers recurse over their observations in the same way, and \<open>None\<close> is a loop that still
  polls; \<open>collect_returns\<close> is the clock reading that ends a collection.

  \<^bold>\<open>Not modelled.\<close> Log output; the text of error messages where nothing depends on it (errors
  carry their data instead); how \<open>serde_json\<close> prints and parses a value (the values
  themselves are modelled); what a failed write leaves of a file, and the lines the transport
  drivers print; what
  ZeroMQ does between two calls, so that a frame received is an observation and not a
  consequence of one sent; unit and integration tests other than the fault suite; module files
  that only re-export; memory ordering below the atomic flag of the ingress; the timing of the
  tokio timer, which the event list stands for.
\<close>

section \<open>Health of a run as a run of the health machine\<close>

text \<open>The loop touches health only through \<open>HealthHandle::apply\<close>.\<close>

definition health_follows :: "health_handle \<Rightarrow> health_handle \<Rightarrow> bool" where
  "health_follows h h' \<longleftrightarrow> (\<exists>es. h' = h\<lparr>hh_inner := fold health_step es (hh_inner h)\<rparr>)"

lemma follows_refl [simp]: "health_follows h h"
  unfolding health_follows_def by (rule exI [of _ "[]"]) simp

lemma follows_trans: "health_follows h h' \<Longrightarrow> health_follows h' h'' \<Longrightarrow> health_follows h h''"
proof -
  assume "health_follows h h'" "health_follows h' h''"
  then obtain es es' where "h' = h\<lparr>hh_inner := fold health_step es (hh_inner h)\<rparr>"
    "h'' = h'\<lparr>hh_inner := fold health_step es' (hh_inner h')\<rparr>"
    by (auto simp: health_follows_def)
  then show ?thesis unfolding health_follows_def by (intro exI [of _ "es @ es'"]) simp
qed

lemma follows_apply: "health_follows h (handle_apply ev t h)"
  unfolding health_follows_def by (rule exI [of _ "[(t, ev)]"]) (simp add: handle_apply_def health_step_def)

lemma follows_apply_then: "health_follows h h' \<Longrightarrow> health_follows h (handle_apply ev t h')"
  by (rule follows_trans [OF _ follows_apply])

lemma tick_health_follows:
  "health_follows h (ts_health st) \<Longrightarrow> health_follows h (ts_health (tick_health i ev env st))"
  by (simp add: tick_health_def follows_apply_then)

lemma note_dropped_health: "ts_health (note_dropped n env st) = ts_health st"
  by simp

lemma tick_publish_follows:
  "health_follows h (ts_health st) \<Longrightarrow> health_follows h (ts_health (tick_publish si env ids st))"
  by (auto simp: tick_publish_def tick_emit_def Let_def case_prod_beta split: sum.split
      intro!: tick_health_follows)

lemma tick_input_follows:
  "health_follows (ts_health st) (ts_health (snd (tick_input so env st)))"
proof -
  have "health_follows (ts_health s) (ts_health (tick_admit env p s))" for p and s :: "('a, 'b, 'c) tick_state"
    by (auto simp: tick_admit_def Let_def case_prod_beta split: option.split intro!: tick_health_follows)
  from this [of "snd (tick_receive so env st)" "fst (tick_receive so env st)"] show ?thesis
    by (simp add: tick_input_def tick_drain_def case_prod_beta tick_health_follows)
qed

lemma run_tick_follows: "health_follows (ts_health st) (ts_health (run_tick so si na env st))"
  using tick_input_follows [of st so env]
  by (auto simp: run_tick_input tick_reject_drained_def tick_step_def Let_def case_prod_beta
      split: option.split sum.split intro!: tick_health_follows tick_publish_follows)

lemma drive_ticks_follows: "health_follows (ts_health st) (ts_health (drive_ticks so si na envs st))"
proof (induction envs arbitrary: st)
  case (Cons env envs)
  have "health_follows (ts_health st) (ts_health (run_tick_published so si na env st))"
    by (simp add: run_tick_published_def Let_def tick_health_follows run_tick_follows)
  then show ?case using Cons.IH follows_trans by (simp add: drive_ticks_def)
qed (simp add: drive_ticks_def)

section \<open>From a failing step to the probe\<close>

definition get_request :: "string \<Rightarrow> string" where
  "get_request path = ''GET '' @ path @ '' HTTP/1.1'' @ crlf"

lemma probe_requests:
  "parse_get_path (get_request ''/readyz'') = PrGet ''/readyz''"
  "parse_get_path (get_request ''/livez'') = PrGet ''/livez''"
  "valid_utf8 (get_request ''/readyz'')" "valid_utf8 (get_request ''/livez'')"
  by code_simp+

lemma probed:
  assumes "path \<in> {''/readyz'', ''/livez''}"
  shows "handle_connection to_json now [RdData (get_request path)] (IoOk ()) h =
    Inr (control_response to_json now (get_request path) h)"
proof -
  have "valid_utf8 (get_request path)" using assms probe_requests by auto
  moreover have "LF \<in> set (get_request path)" "length (get_request path) \<le> REQUEST_BUF"
    using assms by (auto simp: get_request_def crlf_def REQUEST_BUF_def)
  ultimately show ?thesis
    by (simp add: handle_connection_def read_http_request_def timed_io_def
        request_line_complete_def REQUEST_BUF_def write_http_response_def Let_def)
qed

lemma probe_answers:
  assumes "\<not> hh_writer h"
  shows "parse_response (control_response to_json now (get_request ''/readyz'') h) =
      Some (probe (hm_is_ready (hh_inner h)) (''ready'' @ nl) (''not ready'' @ nl))"
    and "parse_response (control_response to_json now (get_request ''/livez'') h) =
      Some (probe (hm_started (hh_inner h)) (''live'' @ nl) (''not live'' @ nl))"
  using assms
  by (simp_all add: parse_control_response parse_render_http probe_requests route_def handle_snapshot_def
      snapshot_ready) (simp add: snapshot_def Let_def)

text \<open>
  C2: A network step that fails is seen by the orchestrator: when a live process's tick fails
  in the network, then from that tick on, after any number of further ticks of a loop that
  goes on ticking, a readiness probe over the control socket is answered 503 and a liveness
  probe still 200, and the reported fatal state never changes again.
\<close>

theorem failed_step_fails_probe:
  assumes packet: "finite_packet (fst (tick_input so env st))"
    and failed: "decode_inputs na (fst (tick_input so env st)) (ts_stimuli st) = (m, xs)"
      "na_step na xs m (ts_network st) = (Inl msg, net)"
    and live: "hm_started (hh_inner (ts_health st))" "\<not> hh_writer (ts_health st)"
  shows "let h0 = ts_health (run_tick_published so si na env st);
      h = ts_health (drive_ticks so si na later (run_tick_published so si na env st));
      get = (\<lambda>path. map_option (\<lambda>(status, _). status)
        (case handle_connection to_json now [RdData (get_request path)] (IoOk ()) h of
           Inr resp \<Rightarrow> parse_response resp | Inl _ \<Rightarrow> None))
    in get ''/readyz'' = Some 503 \<and> get ''/livez'' = Some 200 \<and>
       hm_fatal (hh_inner h) = hm_fatal (hh_inner h0) \<and> hm_fatal (hh_inner h0) \<noteq> None"
proof -
  let ?start = "run_tick_published so si na env st"
  let ?hf = "ts_health ?start" and ?h = "ts_health (drive_ticks so si na later ?start)"
  have "first_non_finite (fst (tick_input so env st)) = None" using packet by (simp add: first_non_finite_None)
  then have fatal: "hm_fatal (hh_inner ?hf) \<noteq> None"
    using failed fatal_set
    by (simp add: run_tick_published_def run_tick_input tick_step_def Let_def health_apply_runtime_fatal)
  then obtain f where f: "hm_fatal (hh_inner ?hf) = Some f" by auto
  have "health_follows (ts_health st) ?hf"
    by (simp add: run_tick_published_def Let_def tick_health_follows run_tick_follows)
  then obtain es where es: "?hf = (ts_health st)\<lparr>hh_inner := fold health_step es (hh_inner (ts_health st))\<rparr>"
    by (auto simp: health_follows_def)
  obtain es' where es': "?h = ?hf\<lparr>hh_inner := fold health_step es' (hh_inner ?hf)\<rparr>"
    using drive_ticks_follows [of ?start so si na later] by (auto simp: health_follows_def)
  have h: "\<not> hh_writer ?h" "hm_fatal (hh_inner ?h) = Some f"
    using live(2) fatal_latch.run_tripped [OF f] unfolding es' by (simp_all add: es)
  have started: "hm_started (hh_inner ?h)"
    unfolding es' using live(1) live_latch.run_tripped [of "hh_inner (ts_health st)" "es @ es'"] by (simp add: es)
  have "\<not> hm_is_ready (hh_inner ?h)"
    by (rule terminal_not_ready) (simp add: health_terminal_def h)
  with h started f show ?thesis
    by (simp add: probed probe_answers probe_def Let_def)
qed

definition broken_na :: "unit neuromod_api" where
  "broken_na = demo_na\<lparr>na_step := (\<lambda>xs m n. (Inl ''diverged'', n))\<rparr>"

lemma demo_input_finite:
  assumes "ingress_new c = Inr b"
  shows "finite_packet (fst (tick_input stub_source_ops demo_env (demo_tick_state b)))"
proof -
  have len: "length (bi_queues b) = 4" using ingress_new_inv(1) [OF assms] by (simp add: ingress_inv_def)
  have empty: "qitems (iqueue b cls) = []" for cls
    using ingress_new_empty [OF assms] by (simp add: ingress_empty_open_def)
  have finite: "finite_packet (into_packet (fst (drain_for_tick b)))"
    by (simp add: drain_for_tick_spec [OF len] empty into_packet_def finite_packet_def packet_default_def)
  have no_offender: "first_non_finite packet_default = None"
    by (simp add: first_non_finite_None finite_packet_def packet_default_def)
  have default: "\<not> packet_carries_input packet_default" "admit_backend_packet packet_default b = b"
    "ip_batch_id packet_default = None" "\<not> ip_rejected packet_default"
    by (simp_all add: packet_carries_input_def admit_backend_packet_def admit_sensory_def admit_reward_def
        packet_default_def)
  have recv: "tick_receive stub_source_ops demo_env (demo_tick_state b) = (Some packet_default, demo_tick_state b)"
    by (simp add: tick_receive_def stub_source_ops_def display_errors_def stub_next_ingress_def demo_tick_state_def)
  have gate: "Option.bind (Some packet_default) backend_non_finite = None"
    using no_offender by (simp add: backend_non_finite_def)
  have "ts_ingress (tick_admit demo_env (Some packet_default) (demo_tick_state b)) = b"
    using default unfolding tick_admit_def gate
    by (simp add: observes_ingress_def account_and_admit_backend_packet_def demo_tick_state_def)
  with finite show ?thesis
    by (simp add: tick_input_def recv tick_drain_def case_prod_beta Let_def)
qed

theorem failed_step_fails_probe_witness:
  "\<exists>b resp. ingress_new tiny_fixture = Inr b \<and>
     handle_connection demo_to_json 9 [RdData (get_request ''/readyz'')] (IoOk ())
       (ts_health (drive_ticks stub_source_ops collecting_sink_ops broken_na [demo_env, demo_env]
          (run_tick_published stub_source_ops collecting_sink_ops broken_na demo_env (demo_tick_state b)))) =
       Inr resp \<and> map_option fst (parse_response resp) = Some 503"
proof -
  obtain b where b: "ingress_new tiny_fixture = Inr b"
    using validate_defaults(2) by (auto simp: ingress_new_def Let_def)
  have live: "hm_started (hh_inner (ts_health (demo_tick_state b)))" "\<not> hh_writer (ts_health (demo_tick_state b))"
    using started_health [of health_limits_default 0]
    by (simp_all add: demo_tick_state_def) (simp add: handle_started_def handle_from_machine_def)
  have fails: "na_step broken_na xs m n = (Inl ''diverged'', n)" for xs m n
    by (simp add: broken_na_def)
  obtain m xs where d: "decode_inputs broken_na (fst (tick_input stub_source_ops demo_env (demo_tick_state b)))
      (ts_stimuli (demo_tick_state b)) = (m, xs)" by fastforce
  note probe = failed_step_fails_probe [OF demo_input_finite [OF b] d fails live, of collecting_sink_ops
      "[demo_env, demo_env]" demo_to_json 9, unfolded Let_def, THEN conjunct1]
  then obtain resp where "handle_connection demo_to_json 9 [RdData (get_request ''/readyz'')] (IoOk ())
       (ts_health (drive_ticks stub_source_ops collecting_sink_ops broken_na [demo_env, demo_env]
          (run_tick_published stub_source_ops collecting_sink_ops broken_na demo_env (demo_tick_state b)))) =
       Inr resp" "map_option fst (parse_response resp) = Some 503"
    by (auto simp: case_prod_unfold split: sum.splits)
  with b show ?thesis by blast
qed

end
